(* ===== verification/Prelude.thy ===== *)
theory Prelude
  imports Main "HOL-Library.Word" "HOL-Library.AList"
begin

text \<open>
  Shared vocabulary of the private-vm development: the machine-integer and
  time types of the Go sources, the character classes its regular expressions
  use, the lemmas on wrapping 64-bit arithmetic, and the list facts that more
  than one component needs.  Go's \<^verbatim>\<open>time.Time\<close> is read as the number of
  nanoseconds since Go's zero time, so \<^verbatim>\<open>IsZero\<close> is equality with 0.
\<close>

type_synonym u8 = "8 word"
type_synonym u16 = "16 word"
type_synonym u32 = "32 word"
type_synonym u64 = "64 word"
type_synonym time = int

named_theorems word_bounds \<open>facts that move wrapping arithmetic to the naturals\<close>

section \<open>Results\<close>

text \<open>A Go function that returns \<^verbatim>\<open>(value, error)\<close> is a sum: \<open>Inl\<close> the error.\<close>

definition is_ok :: "'e + 'a \<Rightarrow> bool" where
  "is_ok r = (case r of Inl _ \<Rightarrow> False | Inr _ \<Rightarrow> True)"

lemma is_ok_simps [simp]: "is_ok (Inr a)" "\<not> is_ok (Inl e)"
  by (simp_all add: is_ok_def)

lemma is_ok_iff: "is_ok r \<longleftrightarrow> (\<exists>a. r = Inr a)"
  by (cases r) auto

section \<open>Character classes\<close>

definition char_between :: "char \<Rightarrow> char \<Rightarrow> char \<Rightarrow> bool" where
  "char_between lo hi c \<longleftrightarrow>
     (of_char lo :: nat) \<le> of_char c \<and> (of_char c :: nat) \<le> of_char hi"

definition is_digit :: "char \<Rightarrow> bool" where
  "is_digit c = char_between CHR ''0'' CHR ''9'' c"

definition is_upper :: "char \<Rightarrow> bool" where
  "is_upper c = char_between CHR ''A'' CHR ''Z'' c"

definition is_lower :: "char \<Rightarrow> bool" where
  "is_lower c = char_between CHR ''a'' CHR ''z'' c"

definition is_lower_hex :: "char \<Rightarrow> bool" where
  "is_lower_hex c \<longleftrightarrow> is_digit c \<or> char_between CHR ''a'' CHR ''f'' c"

section \<open>Checked 64-bit arithmetic\<close>

lemma word_add_carry_iff [word_bounds]:
  fixes a b :: "'a::len word"
  shows "a + b < a \<longleftrightarrow> 2 ^ LENGTH('a) \<le> unat a + unat b"
proof (cases "unat a + unat b < 2 ^ LENGTH('a)")
  case True
  then have "unat (a + b) = unat a + unat b"
    by (rule iffD1 [OF unat_add_lem])
  with True show ?thesis
    by (simp add: word_less_nat_alt not_le)
next
  case False
  have a: "unat a < 2 ^ LENGTH('a)" and b: "unat b < 2 ^ LENGTH('a)"
    by (rule unsigned_less)+
  from False obtain k where k: "unat a + unat b = 2 ^ LENGTH('a) + k"
    by (auto simp: not_less le_iff_add)
  with a b have "k < unat a" "k < 2 ^ LENGTH('a)" by linarith+
  with k have "unat (a + b) < unat a"
    by (simp add: unat_word_ariths)
  with False show ?thesis
    by (simp add: word_less_nat_alt)
qed

lemma unat_add_no_carry [word_bounds]:
  fixes a b :: "'a::len word"
  shows "\<not> a + b < a \<Longrightarrow> unat (a + b) = unat a + unat b"
  unfolding word_add_carry_iff not_le by (rule iffD1 [OF unat_add_lem])

lemma unat_add_bounded:
  fixes a b c :: "'a::len word"
  shows "unat a + unat b \<le> unat c \<Longrightarrow> unat (a + b) = unat a + unat b"
  using unsigned_less [of c, where ?'a = nat] by (intro iffD1 [OF unat_add_lem]) (rule le_less_trans)

lemma unat_diff_le [word_bounds]:
  fixes a b :: "'a::len word"
  shows "b \<le> a \<Longrightarrow> unat (a - b) = unat a - unat b"
  by (rule unat_sub)

lemma unat_of_nat_small [word_bounds]:
  "n < 2 ^ LENGTH('a::len) \<Longrightarrow> unat (of_nat n :: 'a word) = n"
  by (simp add: unat_of_nat)

section \<open>Lists\<close>

lemma list_all_snoc [simp]: "list_all P (xs @ [x]) \<longleftrightarrow> list_all P xs \<and> P x"
  by (simp add: list_all_append)

lemma filter_all_false: "(\<And>x. x \<in> set xs \<Longrightarrow> \<not> P x) \<Longrightarrow> filter P xs = []"
  by (simp add: filter_empty_conv)

lemma map_of_Some_in_set: "map_of m k = Some v \<Longrightarrow> (k, v) \<in> set m"
  by (rule map_of_SomeD)


section \<open>Association lists\<close>

lemma filter_update_existing:
  "map_of al k = Some v0 \<Longrightarrow> distinct (map fst al) \<Longrightarrow> P (k, v) = P (k, v0) \<Longrightarrow>
   length (filter P (AList.update k v al)) = length (filter P al)"
  by (induction al) (auto split: if_splits)

lemma filter_update_new:
  "map_of al k = None \<Longrightarrow> AList.update k v al = al @ [(k, v)]"
  by (induction al) (auto split: if_splits)

lemma set_update_subset: "set (AList.update k v al) \<subseteq> insert (k, v) (set al)"
  by (induction al) auto

lemma set_delete_subset: "set (AList.delete k al) \<subseteq> set al"
  by (simp add: AList.delete_eq)

lemma length_delete_le: "length (filter P (AList.delete k al)) \<le> length (filter P al)"
  by (induction al) (auto simp: AList.delete_eq)

lemma length_delete_less: "k \<in> fst ` set al \<Longrightarrow> length (AList.delete k al) < length al"
  by (induction al) (auto simp: AList.delete_eq le_imp_less_Suc)

lemma length_update_le: "length (AList.update k v al) \<le> Suc (length al)"
  by (induction al) auto



section \<open>Text, as the Go library splits and reads it\<close>

text \<open>\<^verbatim>\<open>strings.Split\<close> at one byte; \<^verbatim>\<open>strings.Fields\<close> on ASCII text; \<^verbatim>\<open>strconv.ParseUint\<close> in base ten.\<close>

fun split_at :: "char \<Rightarrow> string \<Rightarrow> string list" where
  "split_at c [] = [[]]"
| "split_at c (x # xs) =
     (if x = c then [] # split_at c xs
      else case split_at c xs of [] \<Rightarrow> [[x]] | y # ys \<Rightarrow> (x # y) # ys)"

definition is_space :: "char \<Rightarrow> bool" where
  "is_space c \<longleftrightarrow> of_char c = (32 :: nat) \<or> (9 \<le> (of_char c :: nat) \<and> of_char c \<le> (13 :: nat))"

fun fields_from :: "string \<Rightarrow> string \<Rightarrow> string list" where
  "fields_from acc [] = (if acc = [] then [] else [rev acc])"
| "fields_from acc (x # xs) =
     (if is_space x then (if acc = [] then fields_from [] xs else rev acc # fields_from [] xs)
      else fields_from (x # acc) xs)"

definition text_fields :: "string \<Rightarrow> string list" where
  "text_fields s = fields_from [] s"

definition digit_value :: "char \<Rightarrow> int" where
  "digit_value c = of_char c - 48"

definition decimal :: "string \<Rightarrow> int" where
  "decimal s = foldl (\<lambda>n c. 10 * n + digit_value c) 0 s"

definition ParseUint :: "nat \<Rightarrow> string \<Rightarrow> int option" where
  "ParseUint bits s =
     (if s = [] \<or> \<not> list_all is_digit s then None
      else if decimal s < 2 ^ bits then Some (decimal s) else None)"

definition trim_prefix :: "string \<Rightarrow> string \<Rightarrow> string" where
  "trim_prefix p s = (if take (length p) s = p then drop (length p) s else s)"

definition has_prefix :: "string \<Rightarrow> string \<Rightarrow> bool" where
  "has_prefix p s \<longleftrightarrow> take (length p) s = p"

lemma has_prefix_iff: "has_prefix p s \<longleftrightarrow> (\<exists>r. s = p @ r)"
  by (metis append_eq_conv_conj append_take_drop_id has_prefix_def)


section \<open>Paths\<close>

text \<open>
  \<^verbatim>\<open>filepath.IsAbs(p) && filepath.Clean(p) == p\<close> on Linux: the root, or a slash before every
  component and no component that is empty, a dot or two dots.
\<close>

definition clean_abs :: "string \<Rightarrow> bool" where
  "clean_abs path \<longleftrightarrow>
     (case path of [] \<Rightarrow> False
      | c # rest \<Rightarrow> c = CHR ''/'' \<and>
          (rest = [] \<or> list_all (\<lambda>part. part \<noteq> '''' \<and> part \<noteq> ''.'' \<and> part \<noteq> ''..'') (split_at (CHR ''/'') rest)))"

end
