(* ===== verification/Session_Model.thy ===== *)
theory Session_Model
  imports Prelude
begin

text \<open>
  The session record of \<^verbatim>\<open>internal/session/model.go\<close>: roles, the closed lifecycle
  and workflow transition tables, the append-only event journal, and
  \<^verbatim>\<open>validateSnapshot\<close>, the checker every journal passes before it is written and
  after it is read.  A Go string type with named constants (\<^verbatim>\<open>Role\<close>, \<^verbatim>\<open>Phase\<close>) is a
  datatype with one constructor per constant and one for every other string.
\<close>

section \<open>Data\<close>

datatype role = RoleWorkstation | RoleDownloader | RoleScanner | RoleExporter
  | RoleOther string

datatype phase = PhaseCreated | PhasePreflighted | PhaseImagesVerified
  | PhaseStorageReady | PhaseActive | PhaseStopping | PhaseAborting
  | PhaseDestroying | PhaseDestroyed | PhaseOther string

datatype session_error = ErrInvalidTransition | ErrInvalidWorkflow | ErrUnauthorized
  | ErrNotFound | ErrQuotaExceeded | ErrCleanupIncomplete | ErrEventLimit
  | ErrEventCursor | ErrSubscriberSlow | ErrDuplicateResource
  | ErrResourceRegistrationEnd | ErrManagerShuttingDown
  | ErrExist | ErrContext | ErrText string | ErrJoin session_error session_error

definition maxSessionEvents :: nat where "maxSessionEvents = 4096"
definition cleanupEventReserve :: nat where "cleanupEventReserve = 3"

lemmas session_limits = maxSessionEvents_def cleanupEventReserve_def

record event =
  ev_Sequence :: u64
  ev_Code :: string
  ev_Phase :: phase
  ev_WorkflowState :: string
  ev_Message :: string
  ev_Time :: time

record snapshot =
  sn_SchemaVersion :: int
  sn_ID :: string
  sn_OwnerUID :: u32
  sn_Role :: role
  sn_Phase :: phase
  sn_WorkflowState :: string
  sn_Sequence :: u64
  sn_CreatedAt :: time
  sn_UpdatedAt :: time
  sn_Events :: "event list"

record session =
  se_id :: string
  se_ownerUID :: u32
  se_role :: role
  se_phase :: phase
  se_workflowState :: string
  se_sequence :: u64
  se_createdAt :: time
  se_updatedAt :: time
  se_events :: "event list"

section \<open>Transition tables\<close>

fun lifecycleTransitions :: "phase \<Rightarrow> phase list" where
  "lifecycleTransitions PhaseCreated = [PhasePreflighted, PhaseAborting]"
| "lifecycleTransitions PhasePreflighted = [PhaseImagesVerified, PhaseAborting]"
| "lifecycleTransitions PhaseImagesVerified = [PhaseStorageReady, PhaseAborting]"
| "lifecycleTransitions PhaseStorageReady = [PhaseActive, PhaseAborting]"
| "lifecycleTransitions PhaseActive = [PhaseStopping, PhaseAborting]"
| "lifecycleTransitions PhaseStopping = [PhaseDestroying, PhaseAborting]"
| "lifecycleTransitions PhaseAborting = [PhaseDestroying]"
| "lifecycleTransitions PhaseDestroying = [PhaseDestroyed]"
| "lifecycleTransitions _ = []"

fun lifecycleEvents :: "phase \<Rightarrow> (string \<times> string) option" where
  "lifecycleEvents PhasePreflighted = Some (''SESSION_PREFLIGHTED'', ''Host preflight completed.'')"
| "lifecycleEvents PhaseImagesVerified =
     Some (''SESSION_IMAGES_VERIFIED'', ''Guest image verification completed.'')"
| "lifecycleEvents PhaseStorageReady = Some (''SESSION_STORAGE_READY'', ''Session storage is ready.'')"
| "lifecycleEvents PhaseActive = Some (''SESSION_ACTIVE'', ''The session is active.'')"
| "lifecycleEvents PhaseStopping = Some (''SESSION_STOPPING'', ''A protected stop was requested.'')"
| "lifecycleEvents PhaseAborting = Some (''SESSION_ABORTING'', ''Session cleanup was requested.'')"
| "lifecycleEvents PhaseDestroying =
     Some (''SESSION_DESTROYING'', ''Owned resources are being released.'')"
| "lifecycleEvents PhaseDestroyed =
     Some (''SESSION_DESTROYED'', ''The resource absence audit completed.'')"
| "lifecycleEvents _ = None"

text \<open>
  A workflow table is a Go \<^verbatim>\<open>map[string]map[string]bool\<close>: an association list from a
  state to the states it may advance to.  A missing key is an empty inner map.
\<close>

type_synonym workflow = "(string \<times> string list) list"

definition workflow_allows :: "workflow \<Rightarrow> string \<Rightarrow> string \<Rightarrow> bool" where
  "workflow_allows table src dst =
     (case map_of table src of None \<Rightarrow> False | Some dsts \<Rightarrow> dst \<in> set dsts)"

fun linear_from :: "string \<Rightarrow> string list \<Rightarrow> workflow \<Rightarrow> workflow" where
  "linear_from src [] result = result"
| "linear_from src (state # states) result =
     linear_from state states (AList.update src [state] result)"

definition linearWorkflow :: "string list \<Rightarrow> workflow" where
  "linearWorkflow states = linear_from '''' states []"

definition workstationWorkflow :: workflow where
  "workstationWorkflow =
     AList.update ''CLEAN'' [''STOP_REQUESTED'']
      (AList.update ''WORKING'' [''EXPORT_REQUIRED'', ''CLEAN'']
        (linearWorkflow
          [''PLANNED'', ''IMAGE_READY'', ''STORAGE_READY'', ''NETWORK_READY'', ''VM_BOOTING'',
           ''GUEST_AUTHENTICATED'', ''VPN_CONFIGURED'', ''VPN_VERIFIED'', ''DISPLAY_READY'',
           ''WORKING'', ''EXPORT_REQUIRED'', ''STOP_REQUESTED'', ''OUTPUT_VERIFIED'',
           ''VM_STOPPED'', ''SESSION_DESTROYED'']))"

definition scannerWorkflow :: workflow where
  "scannerWorkflow =
     AList.update ''POLICY_REJECTED'' [''SCAN_VM_STOPPED'']
      (AList.update ''REPORT_COMPLETE'' [''POLICY_APPROVED'', ''POLICY_REJECTED'']
        (linearWorkflow
          [''UPDATE_VM_BOOTING'', ''DEFINITIONS_UPDATING'', ''DEFINITIONS_VERIFIED'',
           ''UPDATE_VM_STOPPED'', ''SCAN_VM_BOOTING_OFFLINE'', ''OFFLINE_VERIFIED'',
           ''QUARANTINE_ATTACHED_READ_ONLY'', ''INVENTORY_COMPLETE'', ''MALWARE_SCAN_COMPLETE'',
           ''RECONSTRUCTION_COMPLETE'', ''REPORT_COMPLETE'', ''POLICY_APPROVED'',
           ''SCAN_VM_STOPPED'']))"

definition downloaderWorkflow :: workflow where
  "downloaderWorkflow =
     AList.update ''DOWNLOAD_PAUSED'' [''DOWNLOADING'', ''DOWNLOAD_COMPLETE'']
      (AList.update ''DOWNLOADING'' [''DOWNLOAD_PAUSED'', ''DOWNLOAD_COMPLETE'']
        (linearWorkflow
          [''PLANNED'', ''SCANNER_UPDATE_PREPARED'', ''DOWNLOADER_BOOTING'',
           ''GUEST_AUTHENTICATED'', ''VPN_CONFIGURED'', ''VPN_VERIFIED'', ''METADATA_FETCHING'',
           ''METADATA_READY'', ''FILE_SELECTION_REQUIRED'', ''CAPACITY_VERIFIED'',
           ''DOWNLOADING'', ''DOWNLOAD_COMPLETE'', ''DOWNLOADER_STOPPED'',
           ''QUARANTINE_SEALED'']))"

definition exporterWorkflow :: workflow where
  "exporterWorkflow = linearWorkflow
     [''PLANNED'', ''USB_IDENTIFIED'', ''USB_CLAIMED'', ''EXPORTER_BOOTING'',
      ''GUEST_AUTHENTICATED'', ''NO_NETWORK_VERIFIED'', ''USB_ATTACHED'',
      ''DESTINATION_PREPARED'', ''STREAMING'', ''STREAM_COMPLETE'', ''FLUSHED'',
      ''POST_WRITE_VERIFIED'', ''USB_UNMOUNTED'', ''USB_DETACHED'', ''EXPORTER_STOPPED'']"

fun workflowTransitions :: "role \<Rightarrow> workflow" where
  "workflowTransitions RoleWorkstation = workstationWorkflow"
| "workflowTransitions RoleDownloader = downloaderWorkflow"
| "workflowTransitions RoleScanner = scannerWorkflow"
| "workflowTransitions RoleExporter = exporterWorkflow"
| "workflowTransitions (RoleOther _) = []"

section \<open>Validation of the parts\<close>

definition eventCodePattern :: "string \<Rightarrow> bool" where
  \<comment> \<open>\<^verbatim>\<open>^[A-Z][A-Z0-9_]{2,63}$\<close>\<close>
  "eventCodePattern code =
     (case code of [] \<Rightarrow> False
      | c # cs \<Rightarrow> is_upper c \<and> 2 \<le> length cs \<and> length cs \<le> 63 \<and>
          list_all (\<lambda>d. is_upper d \<or> is_digit d \<or> d = CHR ''_'') cs)"

definition sessionIDPattern :: "string \<Rightarrow> bool" where
  \<comment> \<open>\<^verbatim>\<open>^pvm-[a-f0-9]{32}$\<close>\<close>
  "sessionIDPattern i \<longleftrightarrow>
     take 4 i = ''pvm-'' \<and> length i = 36 \<and> list_all is_lower_hex (drop 4 i)"

definition ValidateID :: "string \<Rightarrow> session_error option" where
  "ValidateID i =
     (if \<not> sessionIDPattern i then Some (ErrText ''invalid internal session identifier'')
      else None)"

fun ValidateRole :: "role \<Rightarrow> session_error option" where
  "ValidateRole (RoleOther r) = Some (ErrText ''unknown role'')"
| "ValidateRole _ = None"

fun validPhase :: "phase \<Rightarrow> bool" where
  "validPhase (PhaseOther _) = False"
| "validPhase _ = True"

definition allPhases :: "phase list" where
  "allPhases = [PhaseCreated, PhasePreflighted, PhaseImagesVerified, PhaseStorageReady,
     PhaseActive, PhaseStopping, PhaseAborting, PhaseDestroying, PhaseDestroyed]"

definition safeEventMessages :: "(string \<times> string) list" where
  "safeEventMessages =
     (''SESSION_CREATED'', ''Session record created.'')
     # (''WORKFLOW_STATE_CHANGED'', ''Role workflow advanced.'')
     # List.map_filter lifecycleEvents allPhases"

definition validateEvent :: "string \<Rightarrow> string \<Rightarrow> session_error option" where
  "validateEvent code message =
     (if \<not> eventCodePattern code
      then Some (ErrText ''event code must be a stable uppercase identifier'')
      else (case map_of safeEventMessages code of
          None \<Rightarrow> Some (ErrText ''event message is not from the safe event catalog'')
        | Some expected \<Rightarrow>
            if message \<noteq> expected
            then Some (ErrText ''event message is not from the safe event catalog'')
            else None))"

definition cleanupPhase :: "phase \<Rightarrow> bool" where
  "cleanupPhase p \<longleftrightarrow> p = PhaseStopping \<or> p = PhaseAborting \<or> p = PhaseDestroying
     \<or> p = PhaseDestroyed"

section \<open>Session operations\<close>

definition newOwned :: "string \<Rightarrow> u32 \<Rightarrow> role \<Rightarrow> time \<Rightarrow> session_error + session" where
  "newOwned i uid r now =
     (case ValidateRole r of Some e \<Rightarrow> Inl e
      | None \<Rightarrow>
     (case ValidateID i of Some e \<Rightarrow> Inl e
      | None \<Rightarrow>
        if now = 0 then Inl (ErrText ''session creation time is required'')
        else Inr \<lparr>se_id = i, se_ownerUID = uid, se_role = r, se_phase = PhaseCreated,
          se_workflowState = '''', se_sequence = 1, se_createdAt = now, se_updatedAt = now,
          se_events = [\<lparr>ev_Sequence = 1, ev_Code = ''SESSION_CREATED'', ev_Phase = PhaseCreated,
            ev_WorkflowState = '''', ev_Message = ''Session record created.'', ev_Time = now\<rparr>]\<rparr>))"

definition requireEventRoom :: "bool \<Rightarrow> session \<Rightarrow> session_error option" where
  "requireEventRoom cleanupOwned s =
     (let limit = (if cleanupOwned then maxSessionEvents
                   else maxSessionEvents - cleanupEventReserve)
      in if length (se_events s) \<ge> limit then Some ErrEventLimit else None)"

definition appendEventLocked :: "string \<Rightarrow> string \<Rightarrow> time \<Rightarrow> session \<Rightarrow> event \<times> session" where
  "appendEventLocked code message now s =
     (let sequence = se_sequence s + 1;
          event = \<lparr>ev_Sequence = sequence, ev_Code = code, ev_Phase = se_phase s,
            ev_WorkflowState = se_workflowState s, ev_Message = message, ev_Time = now\<rparr>
      in (event, s\<lparr>se_sequence := sequence, se_updatedAt := now,
            se_events := se_events s @ [event]\<rparr>))"

definition transitionLifecycle ::
    "phase \<Rightarrow> bool \<Rightarrow> time \<Rightarrow> session \<Rightarrow> session_error + event \<times> session" where
  "transitionLifecycle dst cleanupOwned now s =
     (if dst \<notin> set (lifecycleTransitions (se_phase s)) then Inl ErrInvalidTransition
      else if \<not> cleanupOwned \<and> (dst = PhaseDestroying \<or> dst = PhaseDestroyed)
      then Inl ErrInvalidTransition
      else (case requireEventRoom cleanupOwned s of
          Some e \<Rightarrow> Inl e
        | None \<Rightarrow>
         (case lifecycleEvents dst of
            None \<Rightarrow> Inl ErrInvalidTransition
          | Some (code, message) \<Rightarrow>
              Inr (appendEventLocked code message now (s\<lparr>se_phase := dst\<rparr>)))))"

definition transitionWorkflow :: "string \<Rightarrow> time \<Rightarrow> session \<Rightarrow> session_error + event \<times> session" where
  "transitionWorkflow dst now s =
     (if cleanupPhase (se_phase s) then Inl ErrInvalidWorkflow
      else if \<not> workflow_allows (workflowTransitions (se_role s)) (se_workflowState s) dst
      then Inl ErrInvalidWorkflow
      else (case requireEventRoom False s of
          Some e \<Rightarrow> Inl e
        | None \<Rightarrow> Inr (appendEventLocked ''WORKFLOW_STATE_CHANGED'' ''Role workflow advanced.'' now
                    (s\<lparr>se_workflowState := dst\<rparr>))))"

definition Snapshot :: "session \<Rightarrow> snapshot" where
  "Snapshot s = \<lparr>sn_SchemaVersion = 1, sn_ID = se_id s, sn_OwnerUID = se_ownerUID s,
     sn_Role = se_role s, sn_Phase = se_phase s, sn_WorkflowState = se_workflowState s,
     sn_Sequence = se_sequence s, sn_CreatedAt = se_createdAt s, sn_UpdatedAt = se_updatedAt s,
     sn_Events = se_events s\<rparr>"

definition restore :: "snapshot \<Rightarrow> session \<Rightarrow> session" where
  "restore sn s = s\<lparr>se_phase := sn_Phase sn, se_workflowState := sn_WorkflowState sn,
     se_sequence := sn_Sequence sn, se_updatedAt := sn_UpdatedAt sn, se_events := sn_Events sn\<rparr>"

section \<open>Journal validation\<close>

fun validateEvents ::
    "role \<Rightarrow> time \<Rightarrow> nat \<Rightarrow> phase \<Rightarrow> string \<Rightarrow> time \<Rightarrow> event list \<Rightarrow> session_error + phase \<times> string" where
  "validateEvents r upd index ph wfs prev [] = Inr (ph, wfs)"
| "validateEvents r upd index ph wfs prev (e # es) =
     (if ev_Sequence e \<noteq> of_nat (index + 1)
      then Inl (ErrText ''invalid volatile session event sequence'')
      else (case validateEvent (ev_Code e) (ev_Message e) of
          Some er \<Rightarrow> Inl er
        | None \<Rightarrow>
          if ev_Time e < prev \<or> upd < ev_Time e
          then Inl (ErrText ''invalid volatile session event timestamp'')
          else if index = 0 then validateEvents r upd (index + 1) ph wfs prev es
          else if ev_Code e = ''WORKFLOW_STATE_CHANGED''
          then (if ev_Phase e \<noteq> ph \<or>
                   \<not> workflow_allows (workflowTransitions r) wfs (ev_WorkflowState e)
                then Inl (ErrText ''invalid volatile workflow event transition'')
                else if cleanupPhase ph
                then Inl (ErrText ''volatile workflow event occurs after cleanup started'')
                else validateEvents r upd (index + 1) ph (ev_WorkflowState e) (ev_Time e) es)
          else (case lifecycleEvents (ev_Phase e) of
              None \<Rightarrow> Inl (ErrText ''invalid volatile lifecycle event transition'')
            | Some (code, message) \<Rightarrow>
                if ev_Code e \<noteq> code \<or> ev_Message e \<noteq> message \<or> ev_WorkflowState e \<noteq> wfs \<or>
                   ev_Phase e \<notin> set (lifecycleTransitions ph)
                then Inl (ErrText ''invalid volatile lifecycle event transition'')
                else validateEvents r upd (index + 1) (ev_Phase e) wfs (ev_Time e) es)))"

definition validateSnapshot :: "snapshot \<Rightarrow> session_error option" where
  "validateSnapshot sn =
     (if sn_SchemaVersion sn \<noteq> 1
      then Some (ErrText ''unsupported volatile session schema version'')
      else case ValidateID (sn_ID sn) of Some e \<Rightarrow> Some e
      | None \<Rightarrow> (case ValidateRole (sn_Role sn) of Some e \<Rightarrow> Some e
      | None \<Rightarrow>
        if \<not> validPhase (sn_Phase sn) then Some (ErrText ''invalid volatile session phase'')
        else if sn_CreatedAt sn = 0 \<or> sn_UpdatedAt sn < sn_CreatedAt sn
        then Some (ErrText ''invalid volatile session timestamps'')
        else (case sn_Events sn of
          [] \<Rightarrow> Some (ErrText ''invalid volatile session event count'')
        | first # _ \<Rightarrow>
          if length (sn_Events sn) > maxSessionEvents
          then Some (ErrText ''invalid volatile session event count'')
          else if ev_Sequence first \<noteq> 1 \<or> ev_Code first \<noteq> ''SESSION_CREATED'' \<or>
             ev_Phase first \<noteq> PhaseCreated \<or> ev_WorkflowState first \<noteq> '''' \<or>
             ev_Message first \<noteq> ''Session record created.'' \<or> ev_Time first \<noteq> sn_CreatedAt sn
          then Some (ErrText ''volatile session journal has an invalid creation event'')
          else (case validateEvents (sn_Role sn) (sn_UpdatedAt sn) 0 PhaseCreated ''''
                  (ev_Time first) (sn_Events sn) of
              Inl e \<Rightarrow> Some e
            | Inr (currentPhase, currentWorkflow) \<Rightarrow>
                let final = last (sn_Events sn) in
                if sn_Sequence sn \<noteq> ev_Sequence final \<or> sn_Phase sn \<noteq> currentPhase \<or>
                   sn_WorkflowState sn \<noteq> currentWorkflow \<or> sn_UpdatedAt sn \<noteq> ev_Time final
                then Some (ErrText ''volatile session snapshot does not match its final event'')
                else None))))"

end
