(* ===== verification/Session_Journal.thy ===== *)
theory Session_Journal
  imports Session_Model "HOL-Library.List_Lexorder" "HOL-Library.Char_ord"
begin

text \<open>
  What the session record of theory \<open>Session_Model\<close> guarantees: the journal checker
  \<^verbatim>\<open>validateSnapshot\<close> accepts exactly the journals the transition functions build, the
  lifecycle only moves forward, the role workflows pass their security gates, and
  every phase leaves cleanup the events it needs.
\<close>

section \<open>Single transitions\<close>

lemma requireEventRoom_None_iff:
  "requireEventRoom co s = None \<longleftrightarrow>
     length (se_events s) < (if co then maxSessionEvents else maxSessionEvents - cleanupEventReserve)"
  by (auto simp: requireEventRoom_def Let_def)

lemma transitionLifecycle_Inr_iff:
  "transitionLifecycle dst co now s = Inr r \<longleftrightarrow>
     dst \<in> set (lifecycleTransitions (se_phase s)) \<and>
     (co \<or> dst \<noteq> PhaseDestroying \<and> dst \<noteq> PhaseDestroyed) \<and>
     requireEventRoom co s = None \<and>
     (\<exists>code message. lifecycleEvents dst = Some (code, message) \<and>
        r = appendEventLocked code message now (s\<lparr>se_phase := dst\<rparr>))"
  by (auto simp: transitionLifecycle_def split: option.splits prod.splits)

lemma transitionWorkflow_Inr_iff:
  "transitionWorkflow dst now s = Inr r \<longleftrightarrow>
     \<not> cleanupPhase (se_phase s) \<and>
     workflow_allows (workflowTransitions (se_role s)) (se_workflowState s) dst \<and>
     requireEventRoom False s = None \<and>
     r = appendEventLocked ''WORKFLOW_STATE_CHANGED'' ''Role workflow advanced.'' now
           (s\<lparr>se_workflowState := dst\<rparr>)"
  by (auto simp: transitionWorkflow_def split: option.splits)

text \<open>What a successful transition appends, and what it leaves alone.\<close>

lemma appendEventLocked_eq:
  assumes "appendEventLocked code message now s = (e, s')"
  shows "e = \<lparr>ev_Sequence = se_sequence s + 1, ev_Code = code, ev_Phase = se_phase s,
               ev_WorkflowState = se_workflowState s, ev_Message = message, ev_Time = now\<rparr>"
    and "s' = s\<lparr>se_sequence := se_sequence s + 1, se_updatedAt := now, se_events := se_events s @ [e]\<rparr>"
  using assms by (auto simp: appendEventLocked_def Let_def)

lemma lifecycle_step_known:
  "dst \<in> set (lifecycleTransitions ph) \<Longrightarrow> validPhase dst \<and> (\<exists>d. lifecycleEvents dst = Some d)"
  by (cases ph) auto

lemma lifecycleEvents_validated:
  "lifecycleEvents ph = Some (code, message) \<Longrightarrow>
     validateEvent code message = None \<and> code \<noteq> ''WORKFLOW_STATE_CHANGED''"
  by (cases ph; simp; elim conjE; hypsubst_thin; code_simp)

lemma workflow_event_validated:
  "validateEvent ''WORKFLOW_STATE_CHANGED'' ''Role workflow advanced.'' = None"
  by code_simp

lemma creation_event_validated:
  "validateEvent ''SESSION_CREATED'' ''Session record created.'' = None"
  by code_simp

section \<open>The journal checker, one event at a time\<close>

lemma validateEvent_workflow_iff:
  "validateEvent ''WORKFLOW_STATE_CHANGED'' m = None \<longleftrightarrow> m = ''Role workflow advanced.''"
proof -
  have "map_of safeEventMessages ''WORKFLOW_STATE_CHANGED'' = Some ''Role workflow advanced.''"
    by code_simp
  moreover have "eventCodePattern ''WORKFLOW_STATE_CHANGED''"
    by code_simp
  ultimately show ?thesis by (simp add: validateEvent_def)
qed

text \<open>The events the checker accepts after a journal that ended in \<open>ph\<close> and \<open>wfs\<close>.\<close>

definition event_follows :: "role \<Rightarrow> phase \<Rightarrow> string \<Rightarrow> event \<Rightarrow> bool" where
  "event_follows r ph wfs e \<longleftrightarrow>
     (if ev_Code e = ''WORKFLOW_STATE_CHANGED''
      then ev_Message e = ''Role workflow advanced.'' \<and> ev_Phase e = ph \<and> \<not> cleanupPhase ph \<and>
        workflow_allows (workflowTransitions r) wfs (ev_WorkflowState e)
      else lifecycleEvents (ev_Phase e) = Some (ev_Code e, ev_Message e) \<and>
        ev_WorkflowState e = wfs \<and> ev_Phase e \<in> set (lifecycleTransitions ph))"

lemma validateEvents_first:
  "validateEvents r upd 0 ph wfs prev (e # es) = Inr res \<longleftrightarrow>
     ev_Sequence e = 1 \<and> validateEvent (ev_Code e) (ev_Message e) = None \<and>
     prev \<le> ev_Time e \<and> ev_Time e \<le> upd \<and> validateEvents r upd 1 ph wfs prev es = Inr res"
  by (cases "validateEvent (ev_Code e) (ev_Message e)") auto

lemma validateEvents_next:
  assumes "0 < index"
  shows "validateEvents r upd index ph wfs prev (e # es) = Inr res \<longleftrightarrow>
     ev_Sequence e = of_nat (index + 1) \<and> prev \<le> ev_Time e \<and> ev_Time e \<le> upd \<and>
     event_follows r ph wfs e \<and>
     validateEvents r upd (index + 1) (ev_Phase e) (ev_WorkflowState e) (ev_Time e) es = Inr res"
proof (cases "ev_Code e = ''WORKFLOW_STATE_CHANGED''")
  case True
  with assms validateEvent_workflow_iff [of "ev_Message e"] show ?thesis
    by (cases "validateEvent ''WORKFLOW_STATE_CHANGED'' (ev_Message e)")
      (auto simp: event_follows_def)
next
  case False
  show ?thesis
  proof (cases "lifecycleEvents (ev_Phase e) = Some (ev_Code e, ev_Message e)")
    case True
    with False assms lifecycleEvents_validated [OF True] show ?thesis
      by (auto simp: event_follows_def)
  next
    case neq: False
    with False assms show ?thesis
      by (cases "validateEvent (ev_Code e) (ev_Message e)"; cases "lifecycleEvents (ev_Phase e)")
        (auto simp: event_follows_def split: if_splits)
  qed
qed

declare validateEvents.simps(2) [simp del]

text \<open>The time the checker compares the next event with.\<close>

fun journal_time :: "time \<Rightarrow> event list \<Rightarrow> time" where
  "journal_time prev [] = prev"
| "journal_time prev (e # es) = journal_time (ev_Time e) es"

lemma journal_time_last: "es \<noteq> [] \<Longrightarrow> journal_time prev es = ev_Time (last es)"
  by (induction es arbitrary: prev) auto

lemma validateEvents_append_pos:
  "0 < index \<Longrightarrow> validateEvents r upd index ph wfs prev (xs @ ys) = Inr res \<longleftrightarrow>
     (\<exists>ph' wfs'. validateEvents r upd index ph wfs prev xs = Inr (ph', wfs') \<and>
        validateEvents r upd (index + length xs) ph' wfs' (journal_time prev xs) ys = Inr res)"
proof (induction xs arbitrary: index ph wfs prev)
  case Nil
  then show ?case by simp
next
  case (Cons e es)
  then show ?case by (simp add: validateEvents_next)
qed

lemma validateEvents_append:
  assumes "ev_Time e0 = prev"
  shows "validateEvents r upd 0 ph wfs prev (e0 # xs @ ys) = Inr res \<longleftrightarrow>
     (\<exists>ph' wfs'. validateEvents r upd 0 ph wfs prev (e0 # xs) = Inr (ph', wfs') \<and>
        validateEvents r upd (Suc (length xs)) ph' wfs' (journal_time prev (e0 # xs)) ys = Inr res)"
  using assms by (auto simp: validateEvents_first validateEvents_append_pos)

text \<open>A later \<^verbatim>\<open>UpdatedAt\<close> never invalidates an event.\<close>

lemma validateEvents_upd_mono_pos:
  "0 < index \<Longrightarrow> validateEvents r upd index ph wfs prev es = Inr res \<Longrightarrow> upd \<le> upd' \<Longrightarrow>
   validateEvents r upd' index ph wfs prev es = Inr res"
proof (induction es arbitrary: index ph wfs prev)
  case Nil
  then show ?case by simp
next
  case (Cons e es)
  from Cons.prems(1,2) have
    "validateEvents r upd (index + 1) (ev_Phase e) (ev_WorkflowState e) (ev_Time e) es = Inr res"
    by (simp add: validateEvents_next)
  from Cons.IH [OF _ this Cons.prems(3)] Cons.prems show ?case
    by (simp add: validateEvents_next)
qed

lemma validateEvents_upd_mono:
  "validateEvents r upd index ph wfs prev es = Inr res \<Longrightarrow> upd \<le> upd' \<Longrightarrow>
   validateEvents r upd' index ph wfs prev es = Inr res"
  using validateEvents_upd_mono_pos [of index r upd ph wfs prev es res upd']
    validateEvents_upd_mono_pos [of 1 r upd ph wfs prev "tl es" res upd']
  by (cases "index = 0"; cases es) (simp_all add: validateEvents_first)

lemma validateEvents_times:
  "0 < index \<Longrightarrow> validateEvents r upd index ph wfs prev es = Inr res \<Longrightarrow> prev \<le> journal_time prev es"
proof (induction es arbitrary: index ph wfs prev)
  case Nil
  then show ?case by simp
next
  case (Cons e es)
  from Cons.prems have "prev \<le> ev_Time e"
    and rest: "validateEvents r upd (index + 1) (ev_Phase e) (ev_WorkflowState e) (ev_Time e) es = Inr res"
    by (simp_all add: validateEvents_next)
  with Cons.IH [OF _ rest] show ?case by simp
qed

lemma validateEvents_upd_tight_pos:
  "0 < index \<Longrightarrow> validateEvents r upd index ph wfs prev es = Inr res \<Longrightarrow>
   validateEvents r (journal_time prev es) index ph wfs prev es = Inr res"
proof (induction es arbitrary: index ph wfs prev)
  case Nil
  then show ?case by simp
next
  case (Cons e es)
  from Cons.prems have
    rest: "validateEvents r upd (index + 1) (ev_Phase e) (ev_WorkflowState e) (ev_Time e) es = Inr res"
    by (simp add: validateEvents_next)
  from Cons.IH [OF _ rest] validateEvents_times [OF _ rest] Cons.prems show ?case
    by (simp add: validateEvents_next)
qed

lemma validateEvents_upd_tight:
  assumes "ev_Time e0 = prev"
    and "validateEvents r upd 0 ph wfs prev (e0 # es) = Inr res"
  shows "validateEvents r (journal_time prev (e0 # es)) 0 ph wfs prev (e0 # es) = Inr res"
  using assms validateEvents_upd_tight_pos [of 1 r upd ph wfs prev es res]
    validateEvents_times [of 1 r upd ph wfs prev es res]
  by (simp add: validateEvents_first)

lemma validateEvents_last_sequence:
  "validateEvents r upd index ph wfs prev es = Inr res \<Longrightarrow> es \<noteq> [] \<Longrightarrow>
   ev_Sequence (last es) = of_nat (index + length es)"
proof (induction es arbitrary: index ph wfs prev)
  case Nil
  then show ?case by simp
next
  case (Cons e es)
  show ?case
  proof (cases "es = []")
    case True
    with Cons.prems show ?thesis
      by (cases "index = 0") (simp_all add: validateEvents_first validateEvents_next)
  next
    case False
    from Cons.prems obtain ph' wfs' prev' where
      "validateEvents r upd (index + 1) ph' wfs' prev' es = Inr res"
      by (cases "index = 0") (auto simp: validateEvents_first validateEvents_next)
    from Cons.IH [OF this False] False show ?thesis by simp
  qed
qed

lemma event_follows_validPhase: "event_follows r ph wfs e \<Longrightarrow> validPhase ph \<Longrightarrow> validPhase (ev_Phase e)"
  using lifecycle_step_known [of "ev_Phase e" ph]
  by (auto simp: event_follows_def split: if_splits)

lemma validateEvents_phase_valid:
  "validateEvents r upd index ph wfs prev es = Inr (ph', wfs') \<Longrightarrow> validPhase ph \<Longrightarrow> validPhase ph'"
proof (induction es arbitrary: index ph wfs prev)
  case Nil
  then show ?case by simp
next
  case (Cons e es)
  then show ?case
    by (cases "index = 0")
      (auto simp: validateEvents_first validateEvents_next dest: event_follows_validPhase)
qed

section \<open>The snapshot checker\<close>

definition creation_event :: "time \<Rightarrow> event" where
  "creation_event t = \<lparr>ev_Sequence = 1, ev_Code = ''SESSION_CREATED'', ev_Phase = PhaseCreated,
     ev_WorkflowState = '''', ev_Message = ''Session record created.'', ev_Time = t\<rparr>"

lemma creation_event_time [simp]: "ev_Time (creation_event t) = t"
  by (simp add: creation_event_def)

lemma creation_event_iff:
  "e = creation_event t \<longleftrightarrow>
     ev_Sequence e = 1 \<and> ev_Code e = ''SESSION_CREATED'' \<and> ev_Phase e = PhaseCreated \<and>
     ev_WorkflowState e = '''' \<and> ev_Message e = ''Session record created.'' \<and> ev_Time e = t"
  by (cases e) (auto simp: creation_event_def)

lemma validateSnapshot_None_iff:
  "validateSnapshot sn = None \<longleftrightarrow>
     sn_SchemaVersion sn = 1 \<and> ValidateID (sn_ID sn) = None \<and> ValidateRole (sn_Role sn) = None \<and>
     validPhase (sn_Phase sn) \<and> sn_CreatedAt sn \<noteq> 0 \<and> sn_CreatedAt sn \<le> sn_UpdatedAt sn \<and>
     (\<exists>es. sn_Events sn = creation_event (sn_CreatedAt sn) # es \<and>
        length (sn_Events sn) \<le> maxSessionEvents \<and>
        validateEvents (sn_Role sn) (sn_UpdatedAt sn) 0 PhaseCreated '''' (sn_CreatedAt sn)
          (sn_Events sn) = Inr (sn_Phase sn, sn_WorkflowState sn) \<and>
        sn_Sequence sn = ev_Sequence (last (sn_Events sn)) \<and>
        sn_UpdatedAt sn = ev_Time (last (sn_Events sn)))"
proof (cases "sn_Events sn")
  case Nil
  then show ?thesis
    by (auto simp: validateSnapshot_def split: option.splits)
next
  case (Cons e0 es)
  let ?V = "validateEvents (sn_Role sn) (sn_UpdatedAt sn) 0 PhaseCreated '''' (ev_Time e0) (e0 # es)"
  show ?thesis
  proof (cases "e0 = creation_event (sn_CreatedAt sn)")
    case True
    then show ?thesis
      using Cons
      by (cases "ValidateID (sn_ID sn)"; cases "ValidateRole (sn_Role sn)"; cases ?V)
        (auto simp: validateSnapshot_def Let_def creation_event_iff not_less split: if_splits)
  next
    case False
    then show ?thesis
      using Cons
      by (auto simp: validateSnapshot_def creation_event_iff split: option.splits)
  qed
qed

section \<open>Reachable sessions\<close>

text \<open>
  The sessions the manager can build: a new record, then lifecycle and workflow
  transitions under a clock that does not run backwards.  The cleanup owner only
  ever requests \<open>ABORTING\<close>, \<open>DESTROYING\<close> and \<open>DESTROYED\<close>.
\<close>

definition cleanupTarget :: "phase \<Rightarrow> bool" where
  "cleanupTarget ph \<longleftrightarrow> ph = PhaseAborting \<or> ph = PhaseDestroying \<or> ph = PhaseDestroyed"

inductive reachable_session :: "session \<Rightarrow> bool" where
  created: "newOwned i uid r now = Inr s \<Longrightarrow> reachable_session s"
| lifecycle: "reachable_session s \<Longrightarrow> se_updatedAt s \<le> now \<Longrightarrow> (co \<longrightarrow> cleanupTarget dst) \<Longrightarrow>
    transitionLifecycle dst co now s = Inr (e, s') \<Longrightarrow> reachable_session s'"
| workflow: "reachable_session s \<Longrightarrow> se_updatedAt s \<le> now \<Longrightarrow>
    transitionWorkflow dst now s = Inr (e, s') \<Longrightarrow> reachable_session s'"

text \<open>The session after one more event, as both transitions build it.\<close>

definition with_event :: "session \<Rightarrow> event \<Rightarrow> session" where
  "with_event s e = s\<lparr>se_phase := ev_Phase e, se_workflowState := ev_WorkflowState e,
     se_sequence := ev_Sequence e, se_updatedAt := ev_Time e, se_events := se_events s @ [e]\<rparr>"

lemma with_event_simps [simp]:
  "se_id (with_event s e) = se_id s" "se_ownerUID (with_event s e) = se_ownerUID s"
  "se_role (with_event s e) = se_role s" "se_phase (with_event s e) = ev_Phase e"
  "se_workflowState (with_event s e) = ev_WorkflowState e" "se_sequence (with_event s e) = ev_Sequence e"
  "se_createdAt (with_event s e) = se_createdAt s" "se_updatedAt (with_event s e) = ev_Time e"
  "se_events (with_event s e) = se_events s @ [e]"
  by (simp_all add: with_event_def)

lemma transitionLifecycle_extend:
  "transitionLifecycle dst co now s = Inr (e, s') \<longleftrightarrow>
     event_follows (se_role s) (se_phase s) (se_workflowState s) e \<and>
     ev_Code e \<noteq> ''WORKFLOW_STATE_CHANGED'' \<and> ev_Sequence e = se_sequence s + 1 \<and>
     ev_Time e = now \<and> ev_Phase e = dst \<and> s' = with_event s e \<and>
     (co \<or> dst \<noteq> PhaseDestroying \<and> dst \<noteq> PhaseDestroyed) \<and> requireEventRoom co s = None"
  (is "?L \<longleftrightarrow> ?R")
proof
  assume ?L
  then obtain code message where
    dst: "dst \<in> set (lifecycleTransitions (se_phase s))"
      "co \<or> dst \<noteq> PhaseDestroying \<and> dst \<noteq> PhaseDestroyed" "requireEventRoom co s = None"
    and ev: "lifecycleEvents dst = Some (code, message)"
    and app: "appendEventLocked code message now (s\<lparr>se_phase := dst\<rparr>) = (e, s')"
    by (auto simp: transitionLifecycle_Inr_iff)
  from appendEventLocked_eq [OF app] dst ev lifecycleEvents_validated [OF ev] show ?R
    by (simp add: event_follows_def with_event_def)
next
  assume ?R
  then have "dst \<in> set (lifecycleTransitions (se_phase s))"
    and "lifecycleEvents dst = Some (ev_Code e, ev_Message e)"
    and "appendEventLocked (ev_Code e) (ev_Message e) now (s\<lparr>se_phase := dst\<rparr>) = (e, s')"
    by (auto simp: event_follows_def appendEventLocked_def with_event_def Let_def)
  with \<open>?R\<close> show ?L by (simp add: transitionLifecycle_Inr_iff)
qed

lemma transitionWorkflow_extend:
  "transitionWorkflow dst now s = Inr (e, s') \<longleftrightarrow>
     event_follows (se_role s) (se_phase s) (se_workflowState s) e \<and>
     ev_Code e = ''WORKFLOW_STATE_CHANGED'' \<and> ev_Sequence e = se_sequence s + 1 \<and>
     ev_Time e = now \<and> ev_WorkflowState e = dst \<and> s' = with_event s e \<and> requireEventRoom False s = None"
  (is "?L \<longleftrightarrow> ?R")
proof
  assume ?L
  then have flow: "\<not> cleanupPhase (se_phase s)"
      "workflow_allows (workflowTransitions (se_role s)) (se_workflowState s) dst"
      "requireEventRoom False s = None"
    and app: "appendEventLocked ''WORKFLOW_STATE_CHANGED'' ''Role workflow advanced.'' now
      (s\<lparr>se_workflowState := dst\<rparr>) = (e, s')"
    by (auto simp: transitionWorkflow_Inr_iff)
  from appendEventLocked_eq [OF app] flow show ?R
    by (simp add: event_follows_def with_event_def)
next
  assume ?R
  then show ?L
    by (auto simp: transitionWorkflow_Inr_iff event_follows_def appendEventLocked_def with_event_def Let_def)
qed

lemma newOwned_Inr_iff:
  "newOwned i uid r now = Inr s \<longleftrightarrow>
     ValidateRole r = None \<and> ValidateID i = None \<and> now \<noteq> 0 \<and>
     s = \<lparr>se_id = i, se_ownerUID = uid, se_role = r, se_phase = PhaseCreated,
        se_workflowState = '''', se_sequence = 1, se_createdAt = now, se_updatedAt = now,
        se_events = [creation_event now]\<rparr>"
  by (auto simp: newOwned_def creation_event_def split: option.splits)

section \<open>Reachable sessions and valid journals are the same thing\<close>

lemma Snapshot_simps [simp]:
  "sn_SchemaVersion (Snapshot s) = 1" "sn_ID (Snapshot s) = se_id s"
  "sn_OwnerUID (Snapshot s) = se_ownerUID s" "sn_Role (Snapshot s) = se_role s"
  "sn_Phase (Snapshot s) = se_phase s" "sn_WorkflowState (Snapshot s) = se_workflowState s"
  "sn_Sequence (Snapshot s) = se_sequence s" "sn_CreatedAt (Snapshot s) = se_createdAt s"
  "sn_UpdatedAt (Snapshot s) = se_updatedAt s" "sn_Events (Snapshot s) = se_events s"
  by (simp_all add: Snapshot_def)

lemma restore_Snapshot:
  "se_id s' = se_id s \<Longrightarrow> se_ownerUID s' = se_ownerUID s \<Longrightarrow> se_role s' = se_role s \<Longrightarrow>
   se_createdAt s' = se_createdAt s \<Longrightarrow> restore (Snapshot s) s' = s"
  by (cases s; cases s') (simp add: restore_def)

lemma valid_journal_sequence:
  assumes "validateSnapshot (Snapshot s) = None"
  shows "se_sequence s = of_nat (length (se_events s))"
  using assms validateEvents_last_sequence [of "se_role s" "se_updatedAt s" 0 PhaseCreated "''''"
      "se_createdAt s" "se_events s"]
  by (auto simp: validateSnapshot_None_iff)

lemma valid_journal_extend:
  assumes valid: "validateSnapshot (Snapshot s) = None"
    and "event_follows (se_role s) (se_phase s) (se_workflowState s) e"
    and "ev_Sequence e = se_sequence s + 1" and "se_updatedAt s \<le> ev_Time e"
    and "length (se_events s) < maxSessionEvents"
  shows "validateSnapshot (Snapshot (with_event s e)) = None"
proof -
  from valid obtain es where es: "se_events s = creation_event (se_createdAt s) # es"
    and V: "validateEvents (se_role s) (se_updatedAt s) 0 PhaseCreated '''' (se_createdAt s) (se_events s)
        = Inr (se_phase s, se_workflowState s)"
    and upd: "se_updatedAt s = ev_Time (last (se_events s))" and "se_createdAt s \<le> se_updatedAt s"
    by (auto simp: validateSnapshot_None_iff)
  have time: "journal_time (se_createdAt s) (creation_event (se_createdAt s) # es) = se_updatedAt s"
    using es upd journal_time_last [of "se_events s"] by simp
  have "validateEvents (se_role s) (ev_Time e) 0 PhaseCreated '''' (se_createdAt s)
      (creation_event (se_createdAt s) # es @ [e]) = Inr (ev_Phase e, ev_WorkflowState e)"
    unfolding validateEvents_append [of "creation_event (se_createdAt s)" "se_createdAt s", simplified]
    using validateEvents_upd_mono [OF V, of "ev_Time e"] assms(2-4) valid_journal_sequence [OF valid]
      es time
    by (auto simp: validateEvents_next)
  with assms es \<open>se_createdAt s \<le> se_updatedAt s\<close> event_follows_validPhase [OF assms(2)] show ?thesis
    by (auto simp: validateSnapshot_None_iff)
qed

lemma reachable_journal_valid: "reachable_session s \<Longrightarrow> validateSnapshot (Snapshot s) = None"
proof (induction rule: reachable_session.induct)
  case (created i uid r now s)
  then show ?case
    by (auto simp: newOwned_Inr_iff validateSnapshot_None_iff validateEvents_first
        creation_event_def creation_event_validated session_limits)
next
  case (lifecycle s now co dst e s')
  then show ?case
    by (auto simp: transitionLifecycle_extend requireEventRoom_None_iff session_limits
        intro!: valid_journal_extend split: if_splits)
next
  case (workflow s now dst e s')
  then show ?case
    by (auto simp: transitionWorkflow_extend requireEventRoom_None_iff session_limits
        intro!: valid_journal_extend split: if_splits)
qed

text \<open>The session a valid snapshot describes.\<close>

definition session_of :: "snapshot \<Rightarrow> session" where
  "session_of sn = \<lparr>se_id = sn_ID sn, se_ownerUID = sn_OwnerUID sn, se_role = sn_Role sn,
     se_phase = sn_Phase sn, se_workflowState = sn_WorkflowState sn, se_sequence = sn_Sequence sn,
     se_createdAt = sn_CreatedAt sn, se_updatedAt = sn_UpdatedAt sn, se_events = sn_Events sn\<rparr>"

lemma Snapshot_session_of: "sn_SchemaVersion sn = 1 \<Longrightarrow> Snapshot (session_of sn) = sn"
  by (cases sn) (simp add: Snapshot_def session_of_def)

lemma valid_journal_unextend:
  assumes valid: "validateSnapshot (Snapshot t) = None"
    and events: "se_events t = creation_event (se_createdAt t) # es @ [e]"
  obtains s where "validateSnapshot (Snapshot s) = None" "t = with_event s e"
    "event_follows (se_role s) (se_phase s) (se_workflowState s) e"
    "ev_Sequence e = se_sequence s + 1" "se_updatedAt s \<le> ev_Time e"
proof -
  let ?c = "se_createdAt t" and ?r = "se_role t"
  let ?es = "creation_event ?c # es"
  from valid events have V: "validateEvents ?r (se_updatedAt t) 0 PhaseCreated '''' ?c (?es @ [e])
        = Inr (se_phase t, se_workflowState t)"
    and t: "se_sequence t = ev_Sequence e" "se_updatedAt t = ev_Time e"
    by (auto simp: validateSnapshot_None_iff)
  from V obtain ph wfs where
    pre: "validateEvents ?r (se_updatedAt t) 0 PhaseCreated '''' ?c ?es = Inr (ph, wfs)"
    and one: "validateEvents ?r (se_updatedAt t) (Suc (length es)) ph wfs (journal_time ?c ?es) [e]
        = Inr (se_phase t, se_workflowState t)"
    using validateEvents_append [of "creation_event ?c" ?c] by auto
  define s where "s = t\<lparr>se_phase := ph, se_workflowState := wfs,
    se_sequence := ev_Sequence (last ?es), se_updatedAt := journal_time ?c ?es, se_events := ?es\<rparr>"
  have tight: "validateEvents ?r (journal_time ?c ?es) 0 PhaseCreated '''' ?c ?es = Inr (ph, wfs)"
    by (rule validateEvents_upd_tight [OF _ pre]) simp
  have "?c \<le> journal_time ?c ?es"
    using validateEvents_times [of 1 ?r "se_updatedAt t" PhaseCreated "''''" ?c es "(ph, wfs)"] pre
    by (simp add: validateEvents_first)
  moreover have "validPhase ph"
    using validateEvents_phase_valid [OF pre] by simp
  ultimately have "validateSnapshot (Snapshot s) = None"
    using valid events tight journal_time_last [of ?es]
    by (auto simp: validateSnapshot_None_iff s_def)
  moreover have "ev_Sequence e = se_sequence s + 1"
    using one validateEvents_last_sequence [OF pre] by (simp add: validateEvents_next s_def)
  moreover have "event_follows (se_role s) (se_phase s) (se_workflowState s) e"
    and "se_updatedAt s \<le> ev_Time e" and "t = with_event s e"
    using one t events by (simp_all add: validateEvents_next s_def with_event_def)
  ultimately show thesis using that by blast
qed

lemma valid_journal_step:
  assumes "reachable_session s"
    and "event_follows (se_role s) (se_phase s) (se_workflowState s) e"
    and "ev_Sequence e = se_sequence s + 1" "se_updatedAt s \<le> ev_Time e"
    and "length (se_events s) < maxSessionEvents - cleanupEventReserve"
  shows "reachable_session (with_event s e)"
proof (cases "ev_Code e = ''WORKFLOW_STATE_CHANGED''")
  case True
  with assms have "transitionWorkflow (ev_WorkflowState e) (ev_Time e) s = Inr (e, with_event s e)"
    by (simp add: transitionWorkflow_extend requireEventRoom_None_iff)
  with assms show ?thesis by (blast intro: reachable_session.workflow)
next
  case False
  let ?co = "cleanupTarget (ev_Phase e)"
  from False assms have "transitionLifecycle (ev_Phase e) ?co (ev_Time e) s = Inr (e, with_event s e)"
    by (simp add: transitionLifecycle_extend requireEventRoom_None_iff cleanupTarget_def session_limits)
  with assms show ?thesis by (blast intro: reachable_session.lifecycle)
qed

lemma valid_journal_reachable:
  "validateSnapshot (Snapshot t) = None \<Longrightarrow>
   length (se_events t) \<le> maxSessionEvents - cleanupEventReserve \<Longrightarrow> reachable_session t"
proof (induction "length (se_events t)" arbitrary: t)
  case 0
  then show ?case by (auto simp: validateSnapshot_None_iff)
next
  case (Suc n)
  from Suc.prems obtain es where es: "se_events t = creation_event (se_createdAt t) # es"
    by (auto simp: validateSnapshot_None_iff)
  show ?case
  proof (cases es rule: rev_cases)
    case Nil
    with es Suc.prems have "newOwned (se_id t) (se_ownerUID t) (se_role t) (se_createdAt t) = Inr t"
      by (cases t) (auto simp: newOwned_Inr_iff validateSnapshot_None_iff validateEvents_first
          creation_event_def)
    then show ?thesis by (rule reachable_session.created)
  next
    case (snoc es' e)
    with es have "se_events t = creation_event (se_createdAt t) # es' @ [e]" by simp
    from valid_journal_unextend [OF Suc.prems(1) this] obtain s where
      s: "validateSnapshot (Snapshot s) = None" "t = with_event s e"
        "event_follows (se_role s) (se_phase s) (se_workflowState s) e"
        "ev_Sequence e = se_sequence s + 1" "se_updatedAt s \<le> ev_Time e" .
    with Suc have "reachable_session s" by simp
    with s Suc.prems(2) show ?thesis by (auto intro: valid_journal_step)
  qed
qed

section \<open>The lifecycle order\<close>

text \<open>
  Phases in the order the lifecycle visits them; strings outside the closed set
  come last, by their text.  The order is the library's \<open>linorder\<close>, so its
  automation applies to phases.
\<close>

fun phase_rank :: "phase \<Rightarrow> nat" where
  "phase_rank PhaseCreated = 0"
| "phase_rank PhasePreflighted = 1"
| "phase_rank PhaseImagesVerified = 2"
| "phase_rank PhaseStorageReady = 3"
| "phase_rank PhaseActive = 4"
| "phase_rank PhaseStopping = 5"
| "phase_rank PhaseAborting = 6"
| "phase_rank PhaseDestroying = 7"
| "phase_rank PhaseDestroyed = 8"
| "phase_rank (PhaseOther _) = 9"

fun phase_text :: "phase \<Rightarrow> string" where
  "phase_text (PhaseOther t) = t"
| "phase_text _ = ''''"

lemma phase_eq_iff: "p = q \<longleftrightarrow> phase_rank p = phase_rank q \<and> phase_text p = phase_text q"
  by (cases p; cases q) simp_all

instantiation phase :: linorder
begin

definition less_eq_phase :: "phase \<Rightarrow> phase \<Rightarrow> bool" where
  "p \<le> q \<longleftrightarrow> phase_rank p < phase_rank q \<or>
     phase_rank p = phase_rank q \<and> phase_text p \<le> phase_text q"

definition less_phase :: "phase \<Rightarrow> phase \<Rightarrow> bool" where
  "(p :: phase) < q \<longleftrightarrow> p \<le> q \<and> \<not> q \<le> p"

instance
  by standard (auto simp: less_eq_phase_def less_phase_def phase_eq_iff)

end

lemma phase_rank_less: "phase_rank p < phase_rank q \<Longrightarrow> p < q"
  by (simp add: less_phase_def less_eq_phase_def)

lemma lifecycle_increases: "dst \<in> set (lifecycleTransitions ph) \<Longrightarrow> ph < dst"
  by (rule phase_rank_less, cases ph) auto

section \<open>Room for cleanup\<close>

text \<open>How many events a session in each phase can hold: cleanup keeps three in reserve.\<close>

fun eventBudget :: "phase \<Rightarrow> nat" where
  "eventBudget PhaseAborting = maxSessionEvents - 2"
| "eventBudget PhaseDestroying = maxSessionEvents - 1"
| "eventBudget PhaseDestroyed = maxSessionEvents"
| "eventBudget _ = maxSessionEvents - cleanupEventReserve"

lemma eventBudget_bounds:
  "maxSessionEvents - cleanupEventReserve \<le> eventBudget p" "eventBudget p \<le> maxSessionEvents"
  by (cases p; simp add: session_limits)+

lemma lifecycle_budget:
  "dst \<in> set (lifecycleTransitions ph) \<Longrightarrow> cleanupTarget dst \<Longrightarrow> eventBudget ph < eventBudget dst"
  by (cases ph) (auto simp: session_limits cleanupTarget_def)

lemma reachable_room: "reachable_session s \<Longrightarrow> length (se_events s) \<le> eventBudget (se_phase s)"
proof (induction rule: reachable_session.induct)
  case (created i uid r now s)
  then show ?case by (auto simp: newOwned_Inr_iff session_limits)
next
  case (lifecycle s now co dst e s')
  then have dst: "dst \<in> set (lifecycleTransitions (se_phase s))"
    and s': "length (se_events s') = Suc (length (se_events s))" "se_phase s' = dst"
    and room: "requireEventRoom co s = None"
    by (auto simp: transitionLifecycle_extend event_follows_def)
  show ?case
  proof (cases co)
    case True
    with lifecycle have "cleanupTarget dst" by simp
    from lifecycle_budget [OF dst this] lifecycle.IH s' show ?thesis by simp
  next
    case False
    with room s' eventBudget_bounds(1) [of dst] show ?thesis
      by (simp add: requireEventRoom_None_iff)
  qed
next
  case (workflow s now dst e s')
  then show ?case
    using eventBudget_bounds(1) [of "se_phase s'"]
    by (auto simp: transitionWorkflow_extend requireEventRoom_None_iff)
qed

section \<open>Workflow gates\<close>

definition visited :: "session \<Rightarrow> string \<Rightarrow> bool" where
  "visited s state \<longleftrightarrow> state \<in> ev_WorkflowState ` set (se_events s)"

text \<open>Every edge of the table into \<open>after\<close> starts in \<open>after\<close> or enters it at \<open>gate\<close>.\<close>

definition gated :: "workflow \<Rightarrow> string \<Rightarrow> string list \<Rightarrow> bool" where
  "gated table gate after \<longleftrightarrow> '''' \<notin> set after \<and>
     list_all (\<lambda>(src, dsts). list_all (\<lambda>dst. dst \<in> set after \<longrightarrow> src \<in> set after \<or> dst = gate) dsts) table"

lemma gated_edge:
  assumes "gated table gate after" "workflow_allows table src dst" "dst \<in> set after"
  shows "src \<in> set after \<or> dst = gate"
proof -
  from assms(2) obtain dsts where "map_of table src = Some dsts" "dst \<in> set dsts"
    by (auto simp: workflow_allows_def split: option.splits)
  with assms(1,3) show ?thesis
    by (fastforce simp: gated_def list_all_iff dest: map_of_SomeD)
qed

lemma gate_visited:
  "reachable_session s \<Longrightarrow> gated (workflowTransitions (se_role s)) gate after \<Longrightarrow>
   se_workflowState s \<in> set after \<Longrightarrow> visited s gate"
proof (induction rule: reachable_session.induct)
  case (created i uid r now s)
  then show ?case by (auto simp: newOwned_Inr_iff gated_def)
next
  case (lifecycle s now co dst e s')
  then show ?case
    by (auto simp: transitionLifecycle_extend event_follows_def visited_def)
next
  case (workflow s now dst e s')
  then have allows: "workflow_allows (workflowTransitions (se_role s)) (se_workflowState s) dst"
    and s': "s' = with_event s e" "ev_WorkflowState e = dst"
    by (auto simp: transitionWorkflow_extend event_follows_def)
  with workflow.prems gated_edge [OF _ allows, of gate after] workflow.IH show ?case
    by (auto simp: visited_def)
qed

definition downloaderPayload :: "string list" where
  "downloaderPayload = [''DOWNLOADING'', ''DOWNLOAD_PAUSED'', ''DOWNLOAD_COMPLETE'',
     ''DOWNLOADER_STOPPED'', ''QUARANTINE_SEALED'']"

definition scannerQuarantine :: "string list" where
  "scannerQuarantine = [''QUARANTINE_ATTACHED_READ_ONLY'', ''INVENTORY_COMPLETE'',
     ''MALWARE_SCAN_COMPLETE'', ''RECONSTRUCTION_COMPLETE'', ''REPORT_COMPLETE'', ''POLICY_APPROVED'',
     ''POLICY_REJECTED'', ''SCAN_VM_STOPPED'']"

definition exporterStream :: "string list" where
  "exporterStream = [''STREAMING'', ''STREAM_COMPLETE'', ''FLUSHED'', ''POST_WRITE_VERIFIED'',
     ''USB_UNMOUNTED'', ''USB_DETACHED'', ''EXPORTER_STOPPED'']"

definition workstationDesk :: "string list" where
  "workstationDesk = [''DISPLAY_READY'', ''WORKING'', ''EXPORT_REQUIRED'', ''CLEAN'',
     ''STOP_REQUESTED'', ''OUTPUT_VERIFIED'', ''VM_STOPPED'', ''SESSION_DESTROYED'']"

lemma role_gates:
  "gated (workflowTransitions RoleDownloader) ''VPN_VERIFIED''
     (''VPN_VERIFIED'' # ''METADATA_FETCHING'' # ''METADATA_READY'' # ''FILE_SELECTION_REQUIRED''
       # ''CAPACITY_VERIFIED'' # downloaderPayload)"
  "gated (workflowTransitions RoleDownloader) ''CAPACITY_VERIFIED''
     (''CAPACITY_VERIFIED'' # downloaderPayload)"
  "gated (workflowTransitions RoleScanner) ''OFFLINE_VERIFIED''
     (''OFFLINE_VERIFIED'' # scannerQuarantine)"
  "gated (workflowTransitions RoleExporter) ''NO_NETWORK_VERIFIED''
     (''NO_NETWORK_VERIFIED'' # ''USB_ATTACHED'' # ''DESTINATION_PREPARED'' # exporterStream)"
  "gated (workflowTransitions RoleWorkstation) ''VPN_VERIFIED''
     (''VPN_VERIFIED'' # workstationDesk)"
  by code_simp+

section \<open>Runs of operations\<close>

datatype session_op = OpLifecycle phase bool | OpWorkflow string

fun run_ops :: "time \<Rightarrow> session_op list \<Rightarrow> session \<Rightarrow> session_error + session" where
  "run_ops now [] s = Inr s"
| "run_ops now (OpLifecycle dst co # ops) s =
     (case transitionLifecycle dst co now s of Inl e \<Rightarrow> Inl e | Inr (e, s') \<Rightarrow> run_ops now ops s')"
| "run_ops now (OpWorkflow dst # ops) s =
     (case transitionWorkflow dst now s of Inl e \<Rightarrow> Inl e | Inr (e, s') \<Rightarrow> run_ops now ops s')"

fun manager_op :: "session_op \<Rightarrow> bool" where
  "manager_op (OpLifecycle dst co) = (co \<longrightarrow> cleanupTarget dst)"
| "manager_op (OpWorkflow dst) = True"

lemma run_ops_reachable:
  "reachable_session s \<Longrightarrow> se_updatedAt s \<le> now \<Longrightarrow> list_all manager_op ops \<Longrightarrow>
   run_ops now ops s = Inr s' \<Longrightarrow> reachable_session s'"
proof (induction now ops s rule: run_ops.induct)
  case (1 now s)
  then show ?case by simp
next
  case (2 now dst co ops s)
  then obtain e t where t: "transitionLifecycle dst co now s = Inr (e, t)"
    and run: "run_ops now ops t = Inr s'"
    by (auto split: sum.splits)
  from 2 t have "reachable_session t" "se_updatedAt t \<le> now"
    by (auto intro: reachable_session.lifecycle simp: transitionLifecycle_extend)
  with 2 t run show ?case by simp
next
  case (3 now dst ops s)
  then obtain e t where t: "transitionWorkflow dst now s = Inr (e, t)"
    and run: "run_ops now ops t = Inr s'"
    by (auto split: sum.splits)
  from 3 t have "reachable_session t" "se_updatedAt t \<le> now"
    by (auto intro: reachable_session.workflow simp: transitionWorkflow_extend)
  with 3 t run show ?case by simp
qed

definition run_new :: "role \<Rightarrow> session_op list \<Rightarrow> session_error + session" where
  "run_new r ops =
     (case newOwned ''pvm-0123456789abcdef0123456789abcdef'' 1000 r 5 of
        Inl e \<Rightarrow> Inl e | Inr s \<Rightarrow> run_ops 7 ops s)"

lemma run_new_reachable:
  "run_new r ops = Inr s \<Longrightarrow> list_all manager_op ops \<Longrightarrow> reachable_session s"
proof -
  assume run: "run_new r ops = Inr s" and ops: "list_all manager_op ops"
  then obtain s0 where new: "newOwned ''pvm-0123456789abcdef0123456789abcdef'' 1000 r 5 = Inr s0"
    and "run_ops 7 ops s0 = Inr s"
    by (auto simp: run_new_def split: sum.splits)
  moreover from new have "reachable_session s0" by (rule reachable_session.created)
  moreover from new have "se_updatedAt s0 \<le> 7" by (auto simp: newOwned_Inr_iff)
  ultimately show "reachable_session s"
    using run_ops_reachable ops by blast
qed

section \<open>Properties\<close>



text \<open>C4: Journal completeness.  Conversely, a snapshot that passes \<^verbatim>\<open>validateSnapshot\<close> and
  leaves the cleanup reserve free is the snapshot of a session the transition functions reach:
  a forged or truncated journal that no run produces is rejected.\<close>

theorem valid_snapshot_reachable:
  assumes "validateSnapshot sn = None"
    and "length (sn_Events sn) \<le> maxSessionEvents - cleanupEventReserve"
  shows "\<exists>s. reachable_session s \<and> Snapshot s = sn"
proof -
  from assms(1) have sn: "Snapshot (session_of sn) = sn"
    by (intro Snapshot_session_of) (simp add: validateSnapshot_None_iff)
  with assms have "reachable_session (session_of sn)"
    by (intro valid_journal_reachable) (simp_all add: session_of_def)
  with sn show ?thesis by blast
qed

definition example_snapshot :: snapshot where
  "example_snapshot = \<lparr>sn_SchemaVersion = 1, sn_ID = ''pvm-0123456789abcdef0123456789abcdef'',
     sn_OwnerUID = 1000, sn_Role = RoleScanner, sn_Phase = PhasePreflighted,
     sn_WorkflowState = ''UPDATE_VM_BOOTING'', sn_Sequence = 3, sn_CreatedAt = 5, sn_UpdatedAt = 9,
     sn_Events = [creation_event 5,
       \<lparr>ev_Sequence = 2, ev_Code = ''WORKFLOW_STATE_CHANGED'', ev_Phase = PhaseCreated,
        ev_WorkflowState = ''UPDATE_VM_BOOTING'', ev_Message = ''Role workflow advanced.'',
        ev_Time = 6\<rparr>,
       \<lparr>ev_Sequence = 3, ev_Code = ''SESSION_PREFLIGHTED'', ev_Phase = PhasePreflighted,
        ev_WorkflowState = ''UPDATE_VM_BOOTING'', ev_Message = ''Host preflight completed.'',
        ev_Time = 9\<rparr>]\<rparr>"

theorem valid_snapshot_reachable_witness:
  "validateSnapshot example_snapshot = None \<and>
   (\<exists>s. reachable_session s \<and> Snapshot s = example_snapshot)"
proof -
  have 1: "validateSnapshot example_snapshot = None" by code_simp
  have 2: "length (sn_Events example_snapshot) \<le> maxSessionEvents - cleanupEventReserve"
    by code_simp
  show ?thesis using valid_snapshot_reachable [OF 1 2] 1 by simp
qed

text \<open>C5: Workflow gates.  A downloader is in a payload state only after the VPN and the
  capacity were verified, a scanner touches the quarantine only after it was proved offline, an
  exporter streams only after it was proved networkless, and a workstation shows a desktop only
  after its VPN was verified: each gate is an event of the session's own journal.\<close>

theorem workflow_gates:
  assumes "reachable_session s"
  shows "(se_role s = RoleDownloader \<and> se_workflowState s \<in> set downloaderPayload \<longrightarrow>
        visited s ''VPN_VERIFIED'' \<and> visited s ''CAPACITY_VERIFIED'') \<and>
    (se_role s = RoleScanner \<and> se_workflowState s \<in> set scannerQuarantine \<longrightarrow>
        visited s ''OFFLINE_VERIFIED'') \<and>
    (se_role s = RoleExporter \<and> se_workflowState s \<in> set exporterStream \<longrightarrow>
        visited s ''NO_NETWORK_VERIFIED'') \<and>
    (se_role s = RoleWorkstation \<and> se_workflowState s \<in> set workstationDesk \<longrightarrow>
        visited s ''VPN_VERIFIED'')"
  using gate_visited [OF assms] role_gates by auto

theorem workflow_gates_witness:
  "\<exists>s. run_new RoleExporter (map OpWorkflow [''PLANNED'', ''USB_IDENTIFIED'', ''USB_CLAIMED'',
      ''EXPORTER_BOOTING'', ''GUEST_AUTHENTICATED'', ''NO_NETWORK_VERIFIED'', ''USB_ATTACHED'',
      ''DESTINATION_PREPARED'', ''STREAMING'']) = Inr s \<and>
    se_role s = RoleExporter \<and> se_workflowState s = ''STREAMING'' \<and>
    visited s ''NO_NETWORK_VERIFIED''"
  (is "\<exists>s. run_new _ ?ops = Inr s \<and> _")
proof -
  have "case run_new RoleExporter ?ops of Inl _ \<Rightarrow> False
      | Inr s \<Rightarrow> se_role s = RoleExporter \<and> se_workflowState s = ''STREAMING''"
    by code_simp
  then obtain s where s: "run_new RoleExporter ?ops = Inr s" "se_role s = RoleExporter"
      "se_workflowState s = ''STREAMING''"
    by (auto split: sum.splits)
  have "reachable_session s" by (rule run_new_reachable [OF s(1)]) simp
  from workflow_gates [OF this] s show ?thesis by (simp add: exporterStream_def)
qed

text \<open>C23: The lifecycle only moves forward.  Every accepted lifecycle transition strictly
  increases the phase in the order \<open>CREATED < PREFLIGHTED < \<dots> < DESTROYED\<close>, and only the
  cleanup owner enters \<open>DESTROYING\<close> or \<open>DESTROYED\<close>.\<close>

theorem lifecycle_forward:
  assumes "transitionLifecycle dst cleanupOwned now s = Inr (e, s')"
  shows "se_phase s < se_phase s' \<and> se_phase s' = dst \<and>
    (se_phase s' \<ge> PhaseDestroying \<longrightarrow> cleanupOwned)"
proof -
  from assms have dst: "dst \<in> set (lifecycleTransitions (se_phase s))" "se_phase s' = dst"
    and own: "cleanupOwned \<or> dst \<noteq> PhaseDestroying \<and> dst \<noteq> PhaseDestroyed"
    by (auto simp: transitionLifecycle_extend event_follows_def)
  have "PhaseDestroying \<le> dst \<Longrightarrow> dst = PhaseDestroying \<or> dst = PhaseDestroyed"
    using lifecycle_step_known [OF dst(1)] by (cases dst) (auto simp: less_eq_phase_def)
  with dst own lifecycle_increases [OF dst(1)] show ?thesis by auto
qed

theorem lifecycle_forward_witness:
  "\<exists>s e s'. run_new RoleScanner [] = Inr s \<and>
     transitionLifecycle PhaseAborting True 9 s = Inr (e, s') \<and> se_phase s < se_phase s'"
proof -
  have "case run_new RoleScanner [] of Inl _ \<Rightarrow> False
      | Inr s \<Rightarrow> is_ok (transitionLifecycle PhaseAborting True 9 s)"
    by code_simp
  then obtain s e s' where s: "run_new RoleScanner [] = Inr s"
      "transitionLifecycle PhaseAborting True 9 s = Inr (e, s')"
    by (auto simp: is_ok_iff split: sum.splits)
  with lifecycle_forward [OF s(2)] show ?thesis by blast
qed

end
