(* ===== verification/Session_Store.thy ===== *)
theory Session_Store
  imports Session_Journal
begin

text \<open>
  The volatile journal store of \<^verbatim>\<open>internal/session/store.go\<close>: one directory per session
  under the runtime root, a record written to \<^verbatim>\<open>.metadata.tmp\<close> and renamed over
  \<^verbatim>\<open>metadata.json\<close>, and a removal that first isolates the directory.  System calls end as
  a script says, so every theorem covers a failure at every point.  A record is the
  snapshot itself: the JSON encoding and its duplicate-field check are not modelled, and
  their failures are outcomes of the script.
\<close>

section \<open>The runtime root\<close>

text \<open>A Go function that performs I/O and returns an error acts on a world \<open>'w\<close>.\<close>

type_synonym 'w action = "'w \<Rightarrow> 'w \<times> session_error option"

record session_dir =
  sd_meta :: "snapshot option"
  sd_temp :: bool
  sd_other :: "string list"

record fs_world =
  fw_root :: "(string \<times> session_dir) list"
  fw_script :: "session_error option list"

type_synonym 'x world = "'x fs_world_scheme"

text \<open>
  One group of system calls with no lasting effect of its own: the script says how the
  next group ends, and an exhausted script means success.
\<close>

definition sys :: "'x world action" where
  "sys w = (case fw_script w of [] \<Rightarrow> (w, None) | e # es \<Rightarrow> (w\<lparr>fw_script := es\<rparr>, e))"

definition dir_of :: "'x world \<Rightarrow> string \<Rightarrow> session_dir option" where
  "dir_of w name = map_of (fw_root w) name"

definition put_dir :: "string \<Rightarrow> session_dir \<Rightarrow> 'x world \<Rightarrow> 'x world" where
  "put_dir name d w = w\<lparr>fw_root := AList.update name d (fw_root w)\<rparr>"

definition del_dir :: "string \<Rightarrow> 'x world \<Rightarrow> 'x world" where
  "del_dir name w = w\<lparr>fw_root := AList.delete name (fw_root w)\<rparr>"

definition stored :: "'x world \<Rightarrow> string \<Rightarrow> snapshot option" where
  "stored w i = (case dir_of w i of None \<Rightarrow> None | Some d \<Rightarrow> sd_meta d)"

definition documentedSessionDirectories :: "string list" where
  "documentedSessionDirectories = [''qmp'', ''spice'', ''events'', ''secrets'', ''mount'', ''locks'']"

definition notExist :: session_error where
  "notExist = ErrText ''file does not exist''"

definition removing :: "string \<Rightarrow> string" where
  "removing i = ''.removing-'' @ i"

section \<open>Store operations\<close>

definition encodeSnapshot :: "snapshot \<Rightarrow> 'x world action" where
  "encodeSnapshot sn w =
     (case validateSnapshot sn of Some e \<Rightarrow> (w, Some e) | None \<Rightarrow> sys w)"

definition openRoot :: "'x world action" where
  "openRoot = sys"

definition openSession :: "string \<Rightarrow> 'x world \<Rightarrow> 'x world \<times> (session_error + session_dir)" where
  "openSession i w =
     (case ValidateID i of Some e \<Rightarrow> (w, Inl e)
      | None \<Rightarrow>
       (case dir_of w i of None \<Rightarrow> (w, Inl notExist)
        | Some d \<Rightarrow> (case sys w of (w1, Some e) \<Rightarrow> (w1, Inl e) | (w1, None) \<Rightarrow> (w1, Inr d))))"

definition verifySessionEntries ::
    "session_dir \<Rightarrow> bool \<Rightarrow> bool \<Rightarrow> 'x world action" where
  "verifySessionEntries d allowTemp allowResourceDirectories w =
     (if \<not> list_all (\<lambda>name. allowResourceDirectories \<and> name \<in> set documentedSessionDirectories)
           (sd_other d)
      then (w, Some (ErrText ''unexpected path in volatile session directory''))
      else if sd_temp d \<and> \<not> allowTemp
      then (w, Some (ErrText ''unexpected path in volatile session directory''))
      else sys w)"

text \<open>
  \<^verbatim>\<open>saveAt\<close>: clear a stale temporary record, write a new one, rename it over
  \<^verbatim>\<open>metadata.json\<close>, then make the rename durable.  The deferred unlink of the temporary
  record is best effort.
\<close>

definition unlinkTemp :: "string \<Rightarrow> 'x world \<Rightarrow> 'x world" where
  "unlinkTemp i w =
     (case sys w of
        (w1, Some _) \<Rightarrow> w1
      | (w1, None) \<Rightarrow> (case dir_of w1 i of None \<Rightarrow> w1 | Some d \<Rightarrow> put_dir i (d\<lparr>sd_temp := False\<rparr>) w1))"

definition saveAt :: "string \<Rightarrow> session_dir \<Rightarrow> snapshot \<Rightarrow> 'x world action" where
  "saveAt i d data w =
     (case sys w of (w1, Some e) \<Rightarrow> (w1, Some e)
      | (w1, None) \<Rightarrow>
     (case verifySessionEntries d True True w1 of (w2, Some e) \<Rightarrow> (w2, Some e)
      | (w2, None) \<Rightarrow>
     (case (if sd_temp d then sys w2 else (w2, None)) of
        (w3, Some e) \<Rightarrow> (w3, Some e)
      | (w3, None) \<Rightarrow>
     (let d1 = d\<lparr>sd_temp := False\<rparr>; w3 = put_dir i d1 w3 in
      case sys w3 of (w4, Some e) \<Rightarrow> (w4, Some e) \<comment> \<open>create \<^verbatim>\<open>.metadata.tmp\<close> exclusively\<close>
      | (w4, None) \<Rightarrow>
     (let w4 = put_dir i (d1\<lparr>sd_temp := True\<rparr>) w4 in
      case sys w4 of (w5, Some e) \<Rightarrow> (unlinkTemp i w5, Some e) \<comment> \<open>own, write, sync, close\<close>
      | (w5, None) \<Rightarrow>
     (case sys w5 of (w6, Some e) \<Rightarrow> (unlinkTemp i w6, Some e) \<comment> \<open>root identity, rename\<close>
      | (w6, None) \<Rightarrow> sys (put_dir i (d1\<lparr>sd_meta := Some data\<rparr>) w6)))))))"

definition Save :: "snapshot \<Rightarrow> 'x world action" where
  "Save sn w =
     (case encodeSnapshot sn w of (w1, Some e) \<Rightarrow> (w1, Some e)
      | (w1, None) \<Rightarrow>
     (case openRoot w1 of (w2, Some e) \<Rightarrow> (w2, Some e)
      | (w2, None) \<Rightarrow>
     (case openSession (sn_ID sn) w2 of (w3, Inl e) \<Rightarrow> (w3, Some e)
      | (w3, Inr d) \<Rightarrow> saveAt (sn_ID sn) d sn w3)))"

text \<open>The deferred rollback of a failed \<^verbatim>\<open>Create\<close>: records are unlinked, then the directory.\<close>

definition rollbackSessionCreate :: "string \<Rightarrow> 'x world action" where
  "rollbackSessionCreate i w =
     (case dir_of w i of
        None \<Rightarrow> sys w
      | Some d \<Rightarrow>
         (let (w1, opened) = sys w;
              d1 = (if opened = None then d\<lparr>sd_temp := False, sd_meta := None\<rparr> else d);
              w1 = put_dir i d1 w1
          in if sd_meta d1 \<noteq> None \<or> sd_temp d1 \<or> sd_other d1 \<noteq> []
             then (fst (sys w1), Some (ErrText ''directory not empty''))
             else (case sys w1 of
                 (w2, Some e) \<Rightarrow> (fst (sys w2), Some e)
               | (w2, None) \<Rightarrow> sys (del_dir i w2))))"

definition Create :: "snapshot \<Rightarrow> 'x world action" where
  "Create sn w =
     (case encodeSnapshot sn w of (w1, Some e) \<Rightarrow> (w1, Some e)
      | (w1, None) \<Rightarrow>
     (case openRoot w1 of (w2, Some e) \<Rightarrow> (w2, Some e)
      | (w2, None) \<Rightarrow>
      if dir_of w2 (sn_ID sn) \<noteq> None then (w2, Some ErrExist)
      else
     (case sys w2 of (w3, Some e) \<Rightarrow> (w3, Some e) \<comment> \<open>mkdirat\<close>
      | (w3, None) \<Rightarrow>
     (let fresh = \<lparr>sd_meta = None, sd_temp = False, sd_other = []\<rparr>;
          w4 = put_dir (sn_ID sn) fresh w3;
          (w5, r) = (case sys w4 of (w5, Some e) \<Rightarrow> (w5, Some e) \<comment> \<open>open and own the directory\<close>
            | (w5, None) \<Rightarrow>
             (case saveAt (sn_ID sn) fresh sn w5 of (w6, Some e) \<Rightarrow> (w6, Some e)
              | (w6, None) \<Rightarrow> sys w6)) \<comment> \<open>close, sync root, root identity\<close>
      in case r of
           None \<Rightarrow> (w5, None)
         | Some e \<Rightarrow>
            (case rollbackSessionCreate (sn_ID sn) w5 of
               (w6, None) \<Rightarrow> (w6, Some e)
             | (w6, Some e') \<Rightarrow> (w6, Some (ErrJoin e e')))))))"

definition Load :: "string \<Rightarrow> 'x world \<Rightarrow> 'x world \<times> (session_error + snapshot)" where
  "Load i w =
     (case ValidateID i of Some e \<Rightarrow> (w, Inl e)
      | None \<Rightarrow>
     (case openRoot w of (w1, Some e) \<Rightarrow> (w1, Inl e)
      | (w1, None) \<Rightarrow>
     (case openSession i w1 of (w2, Inl e) \<Rightarrow> (w2, Inl e)
      | (w2, Inr d) \<Rightarrow>
     (case verifySessionEntries d False True w2 of (w3, Some e) \<Rightarrow> (w3, Inl e)
      | (w3, None) \<Rightarrow>
     (case sd_meta d of
        None \<Rightarrow> (w3, Inl (ErrText ''volatile session directory does not contain metadata.json''))
      | Some sn \<Rightarrow>
     (case sys w3 of (w4, Some e) \<Rightarrow> (w4, Inl e) \<comment> \<open>open, stat, read, decode\<close>
      | (w4, None) \<Rightarrow>
     (case validateSnapshot sn of Some e \<Rightarrow> (w4, Inl e)
      | None \<Rightarrow>
        if sn_ID sn \<noteq> i
        then (w4, Inl (ErrText ''volatile session record identity does not match its directory''))
        else (case sys w4 of (w5, Some e) \<Rightarrow> (w5, Inl e) | (w5, None) \<Rightarrow> (w5, Inr sn)))))))))"

text \<open>The removal loop over the sorted entries \<^verbatim>\<open>.metadata.tmp\<close> and \<^verbatim>\<open>metadata.json\<close>.\<close>

definition unlinkEntries ::
    "string \<Rightarrow> session_dir \<Rightarrow> 'x world \<Rightarrow> 'x world \<times> session_dir \<times> session_error option" where
  "unlinkEntries name d w =
     (case (if sd_temp d then sys w else (w, None)) of
        (w1, Some e) \<Rightarrow> (w1, d, Some e)
      | (w1, None) \<Rightarrow>
         (let d1 = d\<lparr>sd_temp := False\<rparr>; w1 = put_dir name d1 w1 in
          case (if sd_meta d \<noteq> None then sys w1 else (w1, None)) of
            (w2, Some e) \<Rightarrow> (w2, d1, Some e)
          | (w2, None) \<Rightarrow>
             (let d2 = d1\<lparr>sd_meta := None\<rparr> in (put_dir name d2 w2, d2, None))))"

text \<open>The deferred rollback of a removal: the isolated directory is renamed back, best effort.\<close>

definition unisolate :: "string \<Rightarrow> session_dir \<Rightarrow> 'x world \<Rightarrow> 'x world" where
  "unisolate i d w =
     (case sys w of
        (w1, Some _) \<Rightarrow> w1
      | (w1, None) \<Rightarrow> put_dir i d (del_dir (removing i) w1))"

definition Remove :: "string \<Rightarrow> 'x world action" where
  "Remove i w =
     (case ValidateID i of Some e \<Rightarrow> (w, Some e)
      | None \<Rightarrow>
     (case openRoot w of (w1, Some e) \<Rightarrow> (w1, Some e)
      | (w1, None) \<Rightarrow>
      if dir_of w1 i = None then (w1, None)
      else
     (case openSession i w1 of (w2, Inl e) \<Rightarrow> (w2, Some e)
      | (w2, Inr d) \<Rightarrow>
     (case verifySessionEntries d True False w2 of (w3, Some e) \<Rightarrow> (w3, Some e)
      | (w3, None) \<Rightarrow>
      if dir_of w3 (removing i) \<noteq> None
      then (w3, Some (ErrText ''volatile session removal staging path already exists''))
      else
     (case sys w3 of (w4, Some e) \<Rightarrow> (w4, Some e) \<comment> \<open>renameat\<close>
      | (w4, None) \<Rightarrow>
     (case sys (put_dir (removing i) d (del_dir i w4)) of
        (w5, Some e) \<Rightarrow> (unisolate i d w5, Some e) \<comment> \<open>sync, root identity\<close>
      | (w5, None) \<Rightarrow>
     (case unlinkEntries (removing i) d w5 of
        (w6, d', Some e) \<Rightarrow> (unisolate i d' w6, Some e)
      | (w6, d', None) \<Rightarrow>
     (case sys w6 of (w7, Some e) \<Rightarrow> (unisolate i d' w7, Some e) \<comment> \<open>rmdir\<close>
      | (w7, None) \<Rightarrow> sys (del_dir (removing i) w7)))))))))"

section \<open>Effects\<close>

lemma sys_dirs: "sys w = (w', r) \<Longrightarrow> dir_of w' = dir_of w"
  by (auto simp: sys_def dir_of_def fun_eq_iff split: list.splits)

lemma dir_of_fst_sys [simp]: "dir_of (fst (sys w)) = dir_of w"
  by (metis prod.collapse sys_dirs)

lemma dir_of_put_dir [simp]: "dir_of (put_dir i d w) = (dir_of w)(i \<mapsto> d)"
  by (simp add: dir_of_def put_dir_def update_conv fun_eq_iff)

lemma dir_of_del_dir [simp]: "dir_of (del_dir i w) = (dir_of w)(i := None)"
  by (simp add: dir_of_def del_dir_def delete_conv fun_eq_iff)

lemma openSession_Inr:
  "openSession i w = (w', Inr d) \<Longrightarrow> dir_of w' = dir_of w \<and> dir_of w i = Some d \<and> ValidateID i = None"
  by (auto simp: openSession_def sys_dirs split: option.splits prod.splits)

lemma openSession_dirs: "openSession i w = (w', r) \<Longrightarrow> dir_of w' = dir_of w"
  by (auto simp: openSession_def split: option.splits prod.splits dest: sys_dirs)

lemma verifySessionEntries_dirs:
  "verifySessionEntries d t a w = (w', r) \<Longrightarrow> dir_of w' = dir_of w"
  by (auto simp: verifySessionEntries_def split: if_splits dest: sys_dirs)

lemma encodeSnapshot_dirs:
  "encodeSnapshot sn w = (w', r) \<Longrightarrow> dir_of w' = dir_of w \<and> (r = None \<longrightarrow> validateSnapshot sn = None)"
  by (auto simp: encodeSnapshot_def split: option.splits dest: sys_dirs)

text \<open>
  Worlds that differ only in the record of one session directory: its temporary
  flag may change, and its metadata is the old one or \<open>new\<close>.
\<close>

definition record_changed :: "string \<Rightarrow> snapshot \<Rightarrow> session_dir \<Rightarrow> 'x world \<Rightarrow> 'x world \<Rightarrow> bool" where
  "record_changed i new d w w' \<longleftrightarrow>
     (\<exists>d'. dir_of w' = (dir_of w)(i \<mapsto> d') \<and> sd_other d' = sd_other d \<and>
        (sd_meta d' = sd_meta d \<or> sd_meta d' = Some new))"

lemma record_changed_same: "dir_of w i = Some d \<Longrightarrow> dir_of w' = dir_of w \<Longrightarrow> record_changed i new d w w'"
  by (auto simp: record_changed_def fun_upd_idem intro!: exI [of _ d])

lemma record_changed_put:
  "dir_of w' = (dir_of w)(i \<mapsto> d') \<Longrightarrow> sd_other d' = sd_other d \<Longrightarrow> sd_meta d' = sd_meta d \<Longrightarrow>
   record_changed i new d w w'"
  by (auto simp: record_changed_def)

lemma unlinkTemp_changed:
  "dir_of w1 = (dir_of w)(i \<mapsto> d') \<Longrightarrow> sd_other d' = sd_other d \<Longrightarrow> sd_meta d' = sd_meta d \<Longrightarrow>
   record_changed i new d w (unlinkTemp i w1)"
  by (auto simp: unlinkTemp_def record_changed_def split: option.splits prod.splits dest!: sys_dirs)

lemma stored_dirs: "stored w i = Option.bind (dir_of w i) sd_meta"
  by (simp add: stored_def bind_split split: option.splits)

text \<open>What a save can leave behind: the old record or, once the rename happened, the new one.\<close>

lemma saveAt_effect:
  assumes "saveAt i d data w = (w', r)" "dir_of w i = Some d"
  shows "record_changed i data d w w' \<and>
    (r = None \<longrightarrow> dir_of w' = (dir_of w)(i \<mapsto> d\<lparr>sd_temp := False, sd_meta := Some data\<rparr>))"
proof -
  have keep: "\<And>v. dir_of v = dir_of w \<Longrightarrow> record_changed i data d w v"
    using assms(2) by (rule record_changed_same)
  obtain w1 r1 where 1: "sys w = (w1, r1)" by fastforce
  obtain w2 r2 where 2: "verifySessionEntries d True True w1 = (w2, r2)" by fastforce
  obtain w3 r3 where 3: "(if sd_temp d then sys w2 else (w2, None)) = (w3, r3)" by fastforce
  let ?w3 = "put_dir i (d\<lparr>sd_temp := False\<rparr>) w3"
  obtain w4 r4 where 4: "sys ?w3 = (w4, r4)" by fastforce
  let ?w4 = "put_dir i (d\<lparr>sd_temp := True\<rparr>) w4"
  obtain w5 r5 where 5: "sys ?w4 = (w5, r5)" by fastforce
  obtain w6 r6 where 6: "sys w5 = (w6, r6)" by fastforce
  let ?w6 = "put_dir i (d\<lparr>sd_temp := False, sd_meta := Some data\<rparr>) w6"
  obtain w7 r7 where 7: "sys ?w6 = (w7, r7)" by fastforce
  note dirs = sys_dirs [OF 1] verifySessionEntries_dirs [OF 2]
    sys_dirs [OF 4] sys_dirs [OF 5] sys_dirs [OF 6] sys_dirs [OF 7]
  have d3: "dir_of w3 = dir_of w"
    using 3 dirs by (auto split: if_splits dest: sys_dirs)
  have d7: "dir_of w7 = (dir_of w)(i \<mapsto> d\<lparr>sd_temp := False, sd_meta := Some data\<rparr>)"
    using dirs d3 by simp
  have c4: "record_changed i data d w w4"
    by (rule record_changed_put [where d' = "d\<lparr>sd_temp := False\<rparr>"]) (simp_all add: dirs d3)
  have c5: "record_changed i data d w (unlinkTemp i w5)" "record_changed i data d w (unlinkTemp i w6)"
    by (rule unlinkTemp_changed [where d' = "d\<lparr>sd_temp := True\<rparr>"]; simp add: dirs d3)+
  have c7: "record_changed i data d w w7"
    using d7 by (auto simp: record_changed_def)
  show ?thesis
    using assms(1) keep dirs d3 d7 c4 c5 c7
    by (simp add: saveAt_def Let_def 1 2 3 4 5 6 7 split: option.splits) auto
qed

lemma stored_dir_eq: "dir_of w' = dir_of w \<Longrightarrow> stored w' = stored w"
  by (simp add: stored_dirs fun_eq_iff)

lemma stored_put: "dir_of w' = (dir_of w)(i \<mapsto> d) \<Longrightarrow> stored w' = (stored w)(i := sd_meta d)"
  by (simp add: stored_dirs fun_eq_iff)

lemma record_changed_stored:
  assumes "record_changed i new d w w'" "dir_of w i = Some d"
  shows "stored w' = stored w \<or> stored w' = (stored w)(i \<mapsto> new)"
proof -
  from assms(1) obtain d' where d': "dir_of w' = (dir_of w)(i \<mapsto> d')"
    "sd_meta d' = sd_meta d \<or> sd_meta d' = Some new"
    by (auto simp: record_changed_def)
  moreover have "(stored w)(i := sd_meta d) = stored w"
    using assms(2) by (simp add: stored_dirs fun_upd_idem)
  ultimately show ?thesis using stored_put [OF d'(1)] by auto
qed

lemma Save_effect:
  assumes "Save sn w = (w', r)"
  shows "(stored w' = stored w \<or> stored w' = (stored w)(sn_ID sn \<mapsto> sn)) \<and>
    (r = None \<longrightarrow> validateSnapshot sn = None \<and> stored w' = (stored w)(sn_ID sn \<mapsto> sn))"
proof -
  obtain w1 r1 where 1: "encodeSnapshot sn w = (w1, r1)" by fastforce
  obtain w2 r2 where 2: "openRoot w1 = (w2, r2)" by fastforce
  obtain w3 r3 where 3: "openSession (sn_ID sn) w2 = (w3, r3)" by fastforce
  have dirs: "dir_of w1 = dir_of w" "dir_of w2 = dir_of w" "dir_of w3 = dir_of w"
    using encodeSnapshot_dirs [OF 1] sys_dirs [OF 2 [unfolded openRoot_def]] openSession_dirs [OF 3]
    by simp_all
  note keep = stored_dir_eq [OF dirs(1)] stored_dir_eq [OF dirs(2)] stored_dir_eq [OF dirs(3)]
  show ?thesis
  proof (cases "r1 = None \<and> r2 = None \<and> is_ok r3")
    case True
    then obtain d where d: "r3 = Inr d" by (auto simp: is_ok_iff)
    with openSession_Inr [of "sn_ID sn" w2 w3 d] 3 dirs have "dir_of w3 (sn_ID sn) = Some d" by simp
    moreover from True d assms 1 2 3 have save: "saveAt (sn_ID sn) d sn w3 = (w', r)"
      by (simp add: Save_def)
    ultimately have "record_changed (sn_ID sn) sn d w3 w'"
      and "r = None \<Longrightarrow>
        dir_of w' = (dir_of w3)(sn_ID sn \<mapsto> d\<lparr>sd_temp := False, sd_meta := Some sn\<rparr>)"
      using saveAt_effect by blast+
    with \<open>dir_of w3 (sn_ID sn) = Some d\<close> keep True encodeSnapshot_dirs [OF 1] show ?thesis
      using record_changed_stored [of "sn_ID sn" sn d w3 w'] stored_put [of w' w3] by auto
  next
    case False
    then have "r \<noteq> None \<and> (w' = w1 \<or> w' = w2 \<or> w' = w3)"
      using assms 1 2 3 by (auto simp: Save_def is_ok_def split: option.splits sum.splits)
    with keep show ?thesis by auto
  qed
qed

lemma rollback_frame:
  "rollbackSessionCreate i w = (w', r) \<Longrightarrow> j \<noteq> i \<Longrightarrow> dir_of w' j = dir_of w j"
  by (auto simp: rollbackSessionCreate_def Let_def split: option.splits prod.splits if_splits
      dest!: sys_dirs)

lemma record_changed_frame: "record_changed i new d w w' \<Longrightarrow> j \<noteq> i \<Longrightarrow> dir_of w' j = dir_of w j"
  by (auto simp: record_changed_def)

lemma Create_effect:
  assumes "Create sn w = (w', r)"
  shows "(\<forall>j. j \<noteq> sn_ID sn \<longrightarrow> stored w' j = stored w j) \<and>
    (r = None \<longrightarrow> validateSnapshot sn = None \<and> dir_of w (sn_ID sn) = None \<and>
       stored w' = (stored w)(sn_ID sn \<mapsto> sn))"
proof -
  let ?i = "sn_ID sn" and ?fresh = "\<lparr>sd_meta = None, sd_temp = False, sd_other = []\<rparr>"
  obtain w1 r1 where 1: "encodeSnapshot sn w = (w1, r1)" by fastforce
  obtain w2 r2 where 2: "sys w1 = (w2, r2)" by fastforce
  obtain w3 r3 where 3: "sys w2 = (w3, r3)" by fastforce
  obtain w4 r4 where 4: "sys (put_dir ?i ?fresh w3) = (w4, r4)" by fastforce
  obtain w5 r5 where 5: "saveAt ?i ?fresh sn w4 = (w5, r5)" by fastforce
  obtain w6 r6 where 6: "sys w5 = (w6, r6)" by fastforce
  have dirs: "dir_of w1 = dir_of w" "dir_of w2 = dir_of w" "dir_of w3 = dir_of w"
      "dir_of w4 = (dir_of w)(?i \<mapsto> ?fresh)"
    using encodeSnapshot_dirs [OF 1] sys_dirs [OF 2] sys_dirs [OF 3] sys_dirs [OF 4] by simp_all
  have save: "record_changed ?i sn ?fresh w4 w5"
    "r5 = None \<Longrightarrow> dir_of w5 = (dir_of w)(?i \<mapsto> ?fresh\<lparr>sd_meta := Some sn\<rparr>)"
    using saveAt_effect [OF 5] dirs by simp_all
  have frame: "\<And>j. j \<noteq> ?i \<Longrightarrow> dir_of w5 j = dir_of w j" "dir_of w6 = dir_of w5"
    using record_changed_frame [OF save(1)] dirs sys_dirs [OF 6] by simp_all
  have roll: "\<And>v v' e j. rollbackSessionCreate ?i v = (v', e) \<Longrightarrow> j \<noteq> ?i \<Longrightarrow>
      dir_of v j = dir_of w j \<Longrightarrow> stored v' j = stored w j"
    by (simp add: stored_dirs rollback_frame)
  have "j \<noteq> ?i \<Longrightarrow> stored w' j = stored w j" for j
    using assms dirs frame roll [of _ _ _ j]
    by (auto simp: Create_def openRoot_def Let_def 1 2 3 4 5 6 stored_dirs
        split: option.splits if_splits prod.splits)
  moreover have "validateSnapshot sn = None \<and> dir_of w ?i = None \<and> dir_of w' = dir_of w5 \<and> r5 = None"
    if "r = None"
    using assms that dirs frame encodeSnapshot_dirs [OF 1]
    by (auto simp: Create_def openRoot_def Let_def 1 2 3 4 5 6 split: option.splits if_splits prod.splits)
  ultimately show ?thesis
    using save(2) stored_put [of w' w ?i "?fresh\<lparr>sd_meta := Some sn\<rparr>"] by auto
qed

lemma removing_neq [simp]: "removing i \<noteq> i" "i \<noteq> removing i"
  by (simp_all add: removing_def)

lemma unlinkEntries_frame:
  "unlinkEntries name d w = (w', d', r) \<Longrightarrow> j \<noteq> name \<Longrightarrow> dir_of w' j = dir_of w j"
  by (auto simp: unlinkEntries_def Let_def split: option.splits prod.splits if_splits dest!: sys_dirs)

lemma unisolate_frame: "j \<noteq> i \<Longrightarrow> j \<noteq> removing i \<Longrightarrow> dir_of (unisolate i d w) j = dir_of w j"
  by (auto simp: unisolate_def split: option.splits prod.splits dest!: sys_dirs)

lemma Remove_effect:
  assumes "Remove i w = (w', r)"
  shows "(\<forall>j. j \<noteq> i \<and> j \<noteq> removing i \<longrightarrow> stored w' j = stored w j) \<and>
    (r = None \<longrightarrow> dir_of w' i = None)"
proof -
  obtain w1 r1 where 1: "sys w = (w1, r1)" by fastforce
  obtain w2 r2 where 2: "openSession i w1 = (w2, r2)" by fastforce
  show ?thesis
  proof (cases r2)
    case (Inl e)
    then show ?thesis
      using assms sys_dirs [OF 1] openSession_dirs [OF 2]
      by (auto simp: Remove_def openRoot_def 1 2 stored_dirs split: option.splits if_splits)
  next
    case (Inr d)
    obtain w3 r3 where 3: "verifySessionEntries d True False w2 = (w3, r3)" by fastforce
    obtain w4 r4 where 4: "sys w3 = (w4, r4)" by fastforce
    obtain w5 r5 where 5: "sys (put_dir (removing i) d (del_dir i w4)) = (w5, r5)" by fastforce
    obtain w6 d' r6 where 6: "unlinkEntries (removing i) d w5 = (w6, d', r6)" using prod_cases3 by blast
    obtain w7 r7 where 7: "sys w6 = (w7, r7)" by fastforce
    have dirs: "dir_of w1 = dir_of w" "dir_of w2 = dir_of w" "dir_of w3 = dir_of w" "dir_of w4 = dir_of w"
        "dir_of w5 = (dir_of w)(i := None, removing i \<mapsto> d)"
      using sys_dirs [OF 1] openSession_dirs [OF 2] verifySessionEntries_dirs [OF 3] sys_dirs [OF 4]
        sys_dirs [OF 5] by simp_all
    have d6: "\<And>j. j \<noteq> removing i \<Longrightarrow> dir_of w6 j = dir_of w5 j" "dir_of w7 = dir_of w6"
      using unlinkEntries_frame [OF 6] sys_dirs [OF 7] by simp_all
    have "r = None \<Longrightarrow> dir_of w' i = None"
      using assms dirs d6
      by (auto simp: Remove_def openRoot_def 1 2 3 4 5 6 7 Inr split: option.splits if_splits
          dest!: sys_dirs)
    moreover have "j \<noteq> i \<Longrightarrow> j \<noteq> removing i \<Longrightarrow> dir_of w' j = dir_of w j" for j
      using assms dirs d6
      by (auto simp: Remove_def openRoot_def 1 2 3 4 5 6 7 Inr unisolate_frame
          split: option.splits if_splits dest!: sys_dirs)
    ultimately show ?thesis by (simp add: stored_dirs)
  qed
qed

section \<open>The store as the manager sees it\<close>

text \<open>
  What the session manager relies on: a successful save or create recorded a journal that
  passes the checker, a failed save left the old or the new record and nothing else, and a
  successful removal left no record.
\<close>

locale journal_store =
  fixes create save :: "snapshot \<Rightarrow> 'w action"
    and remove :: "string \<Rightarrow> 'w action"
    and record_of :: "'w \<Rightarrow> string \<Rightarrow> snapshot option"
  assumes save_ok: "save sn w = (w', None) \<Longrightarrow>
      validateSnapshot sn = None \<and> record_of w' = (record_of w)(sn_ID sn \<mapsto> sn)"
    and save_failed: "save sn w = (w', Some e) \<Longrightarrow>
      record_of w' = record_of w \<or> record_of w' = (record_of w)(sn_ID sn \<mapsto> sn)"
    and create_ok: "create sn w = (w', None) \<Longrightarrow>
      validateSnapshot sn = None \<and> record_of w' = (record_of w)(sn_ID sn \<mapsto> sn)"
    and remove_ok: "remove i w = (w', None) \<Longrightarrow> record_of w' i = None"

interpretation store: journal_store Create Save Remove stored
proof unfold_locales
  fix sn :: snapshot and w w' :: "'x world" and e i
  show "Save sn w = (w', None) \<Longrightarrow>
      validateSnapshot sn = None \<and> stored w' = (stored w)(sn_ID sn \<mapsto> sn)"
    by (drule Save_effect) simp
  show "Save sn w = (w', Some e) \<Longrightarrow> stored w' = stored w \<or> stored w' = (stored w)(sn_ID sn \<mapsto> sn)"
    by (drule Save_effect) simp
  show "Create sn w = (w', None) \<Longrightarrow>
      validateSnapshot sn = None \<and> stored w' = (stored w)(sn_ID sn \<mapsto> sn)"
    by (drule Create_effect) simp
  show "Remove i w = (w', None) \<Longrightarrow> stored w' i = None"
    by (drule Remove_effect) (simp add: stored_dirs)
qed

section \<open>Properties\<close>

lemma sys_quiet: "fw_script w = [] \<Longrightarrow> sys w = (w, None)"
  by (simp add: sys_def)


definition example_world :: "session_error option list \<Rightarrow> fs_world" where
  "example_world script = \<lparr>fw_root = [(sn_ID example_snapshot,
     \<lparr>sd_meta = None, sd_temp = True, sd_other = [''qmp'', ''locks'']\<rparr>)], fw_script = script\<rparr>"




end
