(* ===== verification/Session_Manager.thy ===== *)
theory Session_Manager
  imports Session_Store "HOL-Library.Product_Lexorder"
begin

text \<open>
  The session actors of \<^verbatim>\<open>internal/session/manager.go\<close>: one entry per live session with its
  command queue, cleanup steps and subscribers; the operations its actor runs; the manager's
  exported methods; and the interleaving of all of them as a step relation.  The journal, the
  clock and the identifier source are the fields the Go struct holds, so every operation is
  parameterised by the manager it runs under.
\<close>


section \<open>Data\<close>

text \<open>
  The environment a manager acts on (file system, clock, guests, devices) is a type
  parameter \<open>'w\<close>; a Go function that performs I/O and returns an error is a function
  from the world to the world and an optional error.
\<close>


record 'w cleanupStep =
  st_name :: string
  st_cleanup :: "'w action"
  st_audit :: "'w action"
  st_done :: bool

text \<open>
  The channel of a subscriber: the events buffered and not yet received, and those
  the client has received so far.
\<close>

record subscriberState =
  ss_events :: "event list"
  ss_received :: "event list"
  ss_cancel :: bool
  ss_done :: bool
  ss_err :: "session_error option"

record Subscription =
  sub_snapshot :: snapshot
  sub_replay :: "event list"
  sub_id :: nat

type_synonym 'w allocateFunc =
  "'w \<Rightarrow> 'w \<times> 'w action option \<times> 'w action option \<times> session_error option"

datatype 'w command =
    CmdTransition phase
  | CmdWorkflow string
  | CmdAcquire string "'w allocateFunc" "'w \<Rightarrow> session_error option"
  | CmdSubscribe u64
  | CmdCleanup

record 'w entry =
  en_session :: session
  en_steps :: "'w cleanupStep list"
  en_accepting :: bool
  en_subscribers :: "nat list"
  en_states :: "(nat \<times> subscriberState) list"
  en_nextSubID :: nat
  en_commands :: "'w command list"
  en_cleanup :: bool
  en_admitting :: bool

record 'w Manager =
  mg_create :: "snapshot \<Rightarrow> 'w action"
  mg_save :: "snapshot \<Rightarrow> 'w action"
  mg_remove :: "string \<Rightarrow> 'w action"
  mg_now :: "'w \<Rightarrow> 'w \<times> time"
  mg_newID :: "'w \<Rightarrow> 'w \<times> (session_error + string)"
  mg_maxPerOwner :: nat
  mg_entries :: "(string \<times> 'w entry) list"
  mg_destroyed :: "(string \<times> snapshot) list"
  mg_shuttingDown :: bool

definition maxCommandQueue :: nat where "maxCommandQueue = 64"
definition maxSubscribersPerSession :: nat where "maxSubscribersPerSession = 32"
definition maxSubscriberQueue :: nat where "maxSubscriberQueue = 64"
definition maxIDAttempts :: nat where "maxIDAttempts = 8"
definition maxTombstones :: nat where "maxTombstones = 1024"

section \<open>Subscribers\<close>

definition finish_subscriber :: "session_error option \<Rightarrow> subscriberState \<Rightarrow> subscriberState" where
  "finish_subscriber err st = (if ss_done st then st else st\<lparr>ss_err := err, ss_done := True\<rparr>)"

definition removeSubscriber :: "nat \<Rightarrow> session_error option \<Rightarrow> 'w entry \<Rightarrow> 'w entry" where
  "removeSubscriber i err it =
     (if i \<notin> set (en_subscribers it) then it
      else it\<lparr>en_subscribers := remove1 i (en_subscribers it),
              en_states := AList.map_entry i (finish_subscriber err) (en_states it)\<rparr>)"

definition publish_one :: "event \<Rightarrow> nat \<Rightarrow> 'w entry \<Rightarrow> 'w entry" where
  "publish_one event i it =
     (case map_of (en_states it) i of
        None \<Rightarrow> it
      | Some st \<Rightarrow>
          if ss_cancel st then removeSubscriber i None it
          else if length (ss_events st) < maxSubscriberQueue
          then it\<lparr>en_states := AList.map_entry i
                   (\<lambda>st. st\<lparr>ss_events := ss_events st @ [event]\<rparr>) (en_states it)\<rparr>
          else removeSubscriber i (Some ErrSubscriberSlow) it)"

definition publish :: "event \<Rightarrow> 'w entry \<Rightarrow> 'w entry" where
  "publish event it = fold (publish_one event) (en_subscribers it) it"

definition closeSubscribers :: "session_error option \<Rightarrow> 'w entry \<Rightarrow> 'w entry" where
  "closeSubscribers err it = fold (\<lambda>i. removeSubscriber i err) (en_subscribers it) it"

definition subscribe :: "u64 \<Rightarrow> 'w entry \<Rightarrow> 'w entry \<times> (session_error + Subscription)" where
  "subscribe after it =
     (let snapshot = Snapshot (en_session it) in
      if after > sn_Sequence snapshot then (it, Inl ErrEventCursor)
      else if length (en_subscribers it) \<ge> maxSubscribersPerSession then (it, Inl ErrSubscriberSlow)
      else let i = en_nextSubID it + 1;
               st = \<lparr>ss_events = [], ss_received = [], ss_cancel = False, ss_done = False, ss_err = None\<rparr>
           in (it\<lparr>en_nextSubID := i, en_subscribers := en_subscribers it @ [i],
                  en_states := (i, st) # en_states it\<rparr>,
               Inr \<lparr>sub_snapshot = snapshot,
                    sub_replay = filter (\<lambda>e. ev_Sequence e > after) (sn_Events snapshot),
                    sub_id = i\<rparr>))"

section \<open>Transitions and resources\<close>

definition transition ::
    "'w Manager \<Rightarrow> phase \<Rightarrow> bool \<Rightarrow> 'w entry \<Rightarrow> 'w \<Rightarrow> (snapshot \<times> session_error option) \<times> 'w entry \<times> 'w" where
  "transition m dst cleanupOwned it w =
     (let before = Snapshot (en_session it); (w1, now) = mg_now m w in
      case transitionLifecycle dst cleanupOwned now (en_session it) of
        Inl e \<Rightarrow> ((before, Some e), it, w1)
      | Inr (event, s') \<Rightarrow>
         (case mg_save m (Snapshot s') w1 of
            (w2, Some e) \<Rightarrow> ((before, Some e), it\<lparr>en_session := restore before s'\<rparr>, w2)
          | (w2, None) \<Rightarrow> ((Snapshot s', None), publish event (it\<lparr>en_session := s'\<rparr>), w2)))"

definition workflow ::
    "'w Manager \<Rightarrow> string \<Rightarrow> 'w entry \<Rightarrow> 'w \<Rightarrow> (snapshot \<times> session_error option) \<times> 'w entry \<times> 'w" where
  "workflow m dst it w =
     (let before = Snapshot (en_session it); (w1, now) = mg_now m w in
      case transitionWorkflow dst now (en_session it) of
        Inl e \<Rightarrow> ((before, Some e), it, w1)
      | Inr (event, s') \<Rightarrow>
         (case mg_save m (Snapshot s') w1 of
            (w2, Some e) \<Rightarrow> ((before, Some e), it\<lparr>en_session := restore before s'\<rparr>, w2)
          | (w2, None) \<Rightarrow> ((Snapshot s', None), publish event (it\<lparr>en_session := s'\<rparr>), w2)))"

definition new_step :: "string \<Rightarrow> 'w action \<Rightarrow> 'w action \<Rightarrow> 'w cleanupStep" where
  "new_step name cleanup audit = \<lparr>st_name = name, st_cleanup = cleanup, st_audit = audit, st_done = False\<rparr>"

definition acquire ::
    "string \<Rightarrow> 'w allocateFunc \<Rightarrow> ('w \<Rightarrow> session_error option) \<Rightarrow> 'w entry \<Rightarrow> 'w \<Rightarrow>
     session_error option \<times> 'w entry \<times> 'w" where
  "acquire resource allocate ctxErr it w =
     (if \<not> en_accepting it then (Some ErrResourceRegistrationEnd, it, w)
      else if cleanupPhase (se_phase (en_session it)) then (Some ErrResourceRegistrationEnd, it, w)
      else if list_ex (\<lambda>step. st_name step = resource) (en_steps it)
      then (Some ErrDuplicateResource, it, w)
      else (case allocate w of
          (w1, None, None, Some err) \<Rightarrow> (Some err, it, w1)
        | (w1, Some cleanup, Some audit, Some err) \<Rightarrow>
            (Some (ErrJoin err ErrCleanupIncomplete),
             it\<lparr>en_steps := en_steps it @ [new_step resource cleanup audit]\<rparr>, w1)
        | (w1, _, _, Some err) \<Rightarrow>
            (Some (ErrJoin err
               (ErrText ''allocator returned an incomplete partial-resource contract'')), it, w1)
        | (w1, Some cleanup, Some audit, None) \<Rightarrow>
            (let step = new_step resource cleanup audit;
                 registered = it\<lparr>en_steps := en_steps it @ [step]\<rparr>
             in case ctxErr w1 of
                  Some err \<Rightarrow>
                   (case cleanup w1 of
                      (w2, Some _) \<Rightarrow> (Some ErrCleanupIncomplete, registered, w2)
                    | (w2, None) \<Rightarrow>
                     (case audit w2 of
                        (w3, Some _) \<Rightarrow> (Some ErrCleanupIncomplete, registered, w3)
                      | (w3, None) \<Rightarrow> (Some err, it, w3)))
                | None \<Rightarrow> (None, registered, w1))
        | (w1, _, _, None) \<Rightarrow>
            (Some (ErrText ''allocator returned an incomplete resource contract''), it, w1)))"

section \<open>Cleanup\<close>

text \<open>The reverse loop over the registered steps; the flag says whether it reached the end.\<close>

fun cleanupSteps :: "nat \<Rightarrow> 'w cleanupStep list \<Rightarrow> 'w \<Rightarrow> bool \<times> 'w cleanupStep list \<times> 'w" where
  "cleanupSteps 0 steps w = (True, steps, w)"
| "cleanupSteps (Suc index) steps w =
     (let step = steps ! index in
      if st_done step then cleanupSteps index steps w
      else (case st_cleanup step w of
          (w1, Some _) \<Rightarrow> (False, steps, w1)
        | (w1, None) \<Rightarrow>
         (case st_audit step w1 of
            (w2, Some _) \<Rightarrow> (False, steps, w2)
          | (w2, None) \<Rightarrow> cleanupSteps index (steps[index := step\<lparr>st_done := True\<rparr>]) w2)))"

definition cleanup_resources ::
    "'w Manager \<Rightarrow> 'w entry \<Rightarrow> 'w \<Rightarrow> (snapshot \<times> session_error option) \<times> 'w entry \<times> 'w" where
  "cleanup_resources m it w =
     (case cleanupSteps (length (en_steps it)) (en_steps it) w of
        (False, steps, w1) \<Rightarrow>
          ((Snapshot (en_session it), Some ErrCleanupIncomplete), it\<lparr>en_steps := steps\<rparr>, w1)
      | (True, steps, w1) \<Rightarrow>
          let it1 = it\<lparr>en_steps := steps\<rparr> in
          (case mg_remove m (se_id (en_session it)) w1 of
             (w2, Some _) \<Rightarrow> ((Snapshot (en_session it1), Some ErrCleanupIncomplete), it1, w2)
           | (w2, None) \<Rightarrow>
              let (w3, now) = mg_now m w2 in
              (case transitionLifecycle PhaseDestroyed True now (en_session it1) of
                 Inl e \<Rightarrow> ((Snapshot (en_session it1), Some e), it1, w3)
               | Inr (event, s') \<Rightarrow>
                   ((Snapshot s', None), publish event (it1\<lparr>en_session := s'\<rparr>), w3))))"

definition cleanupEntry ::
    "'w Manager \<Rightarrow> 'w entry \<Rightarrow> 'w \<Rightarrow> (snapshot \<times> session_error option) \<times> 'w entry \<times> 'w" where
  "cleanupEntry m it w =
     (let it0 = it\<lparr>en_accepting := False\<rparr>; ph = se_phase (en_session it) in
      if ph = PhaseDestroying then cleanup_resources m it0 w
      else let (r1, it1, w1) =
             (if ph \<noteq> PhaseStopping \<and> ph \<noteq> PhaseAborting then transition m PhaseAborting True it0 w
              else ((Snapshot (en_session it0), None), it0, w))
           in case snd r1 of
                Some e \<Rightarrow> (r1, it1, w1)
              | None \<Rightarrow>
                 (case transition m PhaseDestroying True it1 w1 of
                    ((sn, Some e), it2, w2) \<Rightarrow> ((sn, Some e), it2, w2)
                  | ((sn, None), it2, w2) \<Rightarrow> cleanup_resources m it2 w2))"

section \<open>The actor\<close>

record commandResult =
  cr_snapshot :: snapshot
  cr_subscription :: "Subscription option"
  cr_err :: "session_error option"

fun run_command ::
    "'w Manager \<Rightarrow> 'w command \<Rightarrow> 'w entry \<Rightarrow> 'w \<Rightarrow> commandResult \<times> 'w entry \<times> 'w" where
  "run_command m (CmdTransition dst) it w =
     (let (r, it1, w1) = transition m dst False it w
      in (\<lparr>cr_snapshot = fst r, cr_subscription = None, cr_err = snd r\<rparr>, it1, w1))"
| "run_command m (CmdWorkflow dst) it w =
     (let (r, it1, w1) = workflow m dst it w
      in (\<lparr>cr_snapshot = fst r, cr_subscription = None, cr_err = snd r\<rparr>, it1, w1))"
| "run_command m (CmdAcquire resource allocate ctxErr) it w =
     (let (err, it1, w1) = acquire resource allocate ctxErr it w
      in (\<lparr>cr_snapshot = Snapshot (en_session it1), cr_subscription = None, cr_err = err\<rparr>, it1, w1))"
| "run_command m (CmdSubscribe after) it w =
     (let (it1, r) = subscribe after it
      in (\<lparr>cr_snapshot = Snapshot (en_session it1),
           cr_subscription = (case r of Inl _ \<Rightarrow> None | Inr sub \<Rightarrow> Some sub),
           cr_err = (case r of Inl e \<Rightarrow> Some e | Inr _ \<Rightarrow> None)\<rparr>, it1, w))"
| "run_command m CmdCleanup it w =
     (let (r, it1, w1) = cleanupEntry m it w
      in (\<lparr>cr_snapshot = fst r, cr_subscription = None, cr_err = snd r\<rparr>, it1, w1))"

definition put_entry :: "string \<Rightarrow> 'w entry \<Rightarrow> 'w Manager \<Rightarrow> 'w Manager" where
  "put_entry i it m = m\<lparr>mg_entries := AList.update i it (mg_entries m)\<rparr>"

definition oldest_tombstone :: "(string \<times> snapshot) list \<Rightarrow> string" where
  "oldest_tombstone ts = fst (fold (\<lambda>(i, candidate) (oldestID, oldest).
      if oldestID = '''' \<or> sn_UpdatedAt candidate < oldest then (i, sn_UpdatedAt candidate)
      else (oldestID, oldest)) ts ('''', 0))"

definition finish :: "snapshot \<Rightarrow> 'w Manager \<Rightarrow> 'w Manager" where
  "finish snapshot m =
     (let i = sn_ID snapshot;
          destroyed = (if length (mg_destroyed m) \<ge> maxTombstones
            then AList.delete (oldest_tombstone (mg_destroyed m)) (mg_destroyed m)
            else mg_destroyed m)
      in m\<lparr>mg_entries := AList.delete i (mg_entries m),
           mg_destroyed := AList.update i (snapshot\<lparr>sn_Events := []\<rparr>) destroyed\<rparr>)"

definition process :: "'w Manager \<Rightarrow> string \<Rightarrow> 'w \<Rightarrow> 'w Manager \<times> 'w" where
  "process m i w =
     (case map_of (mg_entries m) i of
        None \<Rightarrow> (m, w)
      | Some it \<Rightarrow>
         (case en_commands it of
            [] \<Rightarrow> (m, w)
          | cmd # rest \<Rightarrow>
             (let (r, it1, w1) = run_command m cmd (it\<lparr>en_commands := rest\<rparr>) w
              in case cmd of
                   CmdCleanup \<Rightarrow>
                    (case cr_err r of
                       None \<Rightarrow> (finish (cr_snapshot r) m, w1)
                     | Some _ \<Rightarrow> (put_entry i (it1\<lparr>en_cleanup := False\<rparr>) m, w1))
                 | _ \<Rightarrow> (put_entry i it1 m, w1))))"

section \<open>The manager\<close>

definition NewManager ::
    "(snapshot \<Rightarrow> 'w action) \<Rightarrow> (snapshot \<Rightarrow> 'w action) \<Rightarrow> (string \<Rightarrow> 'w action) \<Rightarrow> ('w \<Rightarrow> 'w \<times> time) \<Rightarrow>
     ('w \<Rightarrow> 'w \<times> (session_error + string)) \<Rightarrow> nat \<Rightarrow> session_error + 'w Manager" where
  "NewManager create save remove now newID maxPerOwner =
     (if maxPerOwner < 1 \<or> maxPerOwner > 64
      then Inl (ErrText ''per-owner session quota must be between 1 and 64'')
      else Inr \<lparr>mg_create = create, mg_save = save, mg_remove = remove, mg_now = now,
        mg_newID = newID, mg_maxPerOwner = maxPerOwner, mg_entries = [], mg_destroyed = [],
        mg_shuttingDown = False\<rparr>)"

definition owned_entries :: "u32 \<Rightarrow> 'w Manager \<Rightarrow> (string \<times> 'w entry) list" where
  "owned_entries uid m = filter (\<lambda>(i, it). se_ownerUID (en_session it) = uid) (mg_entries m)"

definition new_entry :: "session \<Rightarrow> 'w entry" where
  "new_entry s = \<lparr>en_session = s, en_steps = [], en_accepting = True, en_subscribers = [],
     en_states = [], en_nextSubID = 0, en_commands = [], en_cleanup = False, en_admitting = False\<rparr>"

fun errIs_exist :: "session_error \<Rightarrow> bool" where
  "errIs_exist ErrExist = True"
| "errIs_exist (ErrJoin a b) = (errIs_exist a \<or> errIs_exist b)"
| "errIs_exist _ = False"

fun create_attempt ::
    "nat \<Rightarrow> 'w Manager \<Rightarrow> u32 \<Rightarrow> role \<Rightarrow> 'w \<Rightarrow> (session_error + snapshot) \<times> 'w Manager \<times> 'w" where
  "create_attempt 0 m uid r w =
     (Inl (ErrText ''could not allocate a collision-free session identifier''), m, w)"
| "create_attempt (Suc attempts) m uid r w =
     (case mg_newID m w of
        (w1, Inl e) \<Rightarrow> (Inl e, m, w1)
      | (w1, Inr i) \<Rightarrow>
          if map_of (mg_entries m) i \<noteq> None then create_attempt attempts m uid r w1
          else
           (let (w2, now) = mg_now m w1 in
            case newOwned i uid r now of
              Inl e \<Rightarrow> (Inl e, m, w2)
            | Inr s \<Rightarrow>
               (case mg_create m (Snapshot s) w2 of
                  (w3, Some e) \<Rightarrow>
                    if errIs_exist e then create_attempt attempts m uid r w3 else (Inl e, m, w3)
                | (w3, None) \<Rightarrow> (Inr (Snapshot s), put_entry i (new_entry s) m, w3))))"

definition CreateSession ::
    "'w Manager \<Rightarrow> u32 \<Rightarrow> role \<Rightarrow> 'w \<Rightarrow> (session_error + snapshot) \<times> 'w Manager \<times> 'w" where
  "CreateSession m uid r w =
     (case ValidateRole r of Some e \<Rightarrow> (Inl e, m, w)
      | None \<Rightarrow>
        if mg_shuttingDown m then (Inl ErrManagerShuttingDown, m, w)
        else if length (owned_entries uid m) \<ge> mg_maxPerOwner m then (Inl ErrQuotaExceeded, m, w)
        else create_attempt maxIDAttempts m uid r w)"

definition authorizedEntry :: "'w Manager \<Rightarrow> string \<Rightarrow> u32 \<Rightarrow> session_error + 'w entry" where
  "authorizedEntry m i uid =
     (case ValidateID i of Some _ \<Rightarrow> Inl ErrNotFound
      | None \<Rightarrow>
       (case map_of (mg_entries m) i of
          None \<Rightarrow> Inl ErrNotFound
        | Some it \<Rightarrow>
            if uid \<noteq> 0 \<and> uid \<noteq> se_ownerUID (en_session it) then Inl ErrUnauthorized else Inr it))"

definition destroyedSnapshot :: "'w Manager \<Rightarrow> string \<Rightarrow> u32 \<Rightarrow> snapshot option" where
  "destroyedSnapshot m i uid =
     (case map_of (mg_destroyed m) i of
        None \<Rightarrow> None
      | Some sn \<Rightarrow> if uid \<noteq> 0 \<and> uid \<noteq> sn_OwnerUID sn then None else Some sn)"

definition Get :: "'w Manager \<Rightarrow> string \<Rightarrow> u32 \<Rightarrow> session_error + snapshot" where
  "Get m i uid =
     (case authorizedEntry m i uid of
        Inr it \<Rightarrow> Inr (Snapshot (en_session it))
      | Inl e \<Rightarrow>
          if e = ErrNotFound
          then (case destroyedSnapshot m i uid of Some sn \<Rightarrow> Inr sn | None \<Rightarrow> Inl e)
          else Inl e)"

definition ListSessions :: "'w Manager \<Rightarrow> u32 \<Rightarrow> snapshot list" where
  "ListSessions m uid =
     sort_key (\<lambda>sn. (sn_CreatedAt sn, sn_ID sn))
       (filter (\<lambda>sn. uid = 0 \<or> sn_OwnerUID sn = uid)
         (map (\<lambda>(i, it). Snapshot (en_session it)) (mg_entries m)))"

text \<open>
  \<^verbatim>\<open>beginCleanup\<close> and the admission goroutine of \<^verbatim>\<open>requestCleanup\<close>: at most one attempt is
  pending, and its command enters the queue on its own once there is room.
\<close>

definition requestCleanup :: "'w entry \<Rightarrow> 'w entry" where
  "requestCleanup it = (if en_cleanup it then it else it\<lparr>en_cleanup := True, en_admitting := True\<rparr>)"

definition Shutdown :: "'w Manager \<Rightarrow> 'w Manager" where
  "Shutdown m = m\<lparr>mg_shuttingDown := True,
     mg_entries := map (\<lambda>(i, it). (i, requestCleanup it)) (mg_entries m)\<rparr>"

definition resourceNamePattern :: "string \<Rightarrow> bool" where
  \<comment> \<open>\<^verbatim>\<open>^[a-z][a-z0-9.-]{0,63}$\<close>\<close>
  "resourceNamePattern name =
     (case name of [] \<Rightarrow> False
      | c # cs \<Rightarrow> is_lower c \<and> length cs \<le> 63 \<and>
          list_all (\<lambda>d. is_lower d \<or> is_digit d \<or> d = CHR ''.'' \<or> d = CHR ''-'') cs)"

text \<open>The commands the exported methods send, with the checks they make before sending.\<close>

fun client_command :: "'w command \<Rightarrow> bool" where
  "client_command (CmdTransition dst) = True"
| "client_command (CmdWorkflow dst) = eventCodePattern dst"
| "client_command (CmdAcquire resource allocate ctxErr) = resourceNamePattern resource"
| "client_command (CmdSubscribe after) = True"
| "client_command CmdCleanup = False"

text \<open>Receiving from, and cancelling, one subscription; both act on the subscriber object only.\<close>

definition receive :: "nat \<Rightarrow> 'w entry \<Rightarrow> 'w entry" where
  "receive i it = it\<lparr>en_states := AList.map_entry i (\<lambda>st. case ss_events st of [] \<Rightarrow> st
      | e # es \<Rightarrow> st\<lparr>ss_events := es, ss_received := ss_received st @ [e]\<rparr>) (en_states it)\<rparr>"

definition cancel :: "nat \<Rightarrow> 'w entry \<Rightarrow> 'w entry" where
  "cancel i it = it\<lparr>en_states := AList.map_entry i (\<lambda>st. st\<lparr>ss_cancel := True\<rparr>) (en_states it)\<rparr>"

text \<open>
  One step of the manager and its environment.  A client step is one call of an exported
  method by a kernel-authenticated user; everything else the daemon or its environment does
  on its own: admitting a cleanup, one actor taking its next command, a subscriber reading,
  the world changing.
\<close>

datatype label = Client u32 | Internal

inductive mgr_step :: "label \<Rightarrow> 'w Manager \<times> 'w \<Rightarrow> 'w Manager \<times> 'w \<Rightarrow> bool" where
  create: "CreateSession m uid r w = (res, m', w') \<Longrightarrow> mgr_step (Client uid) (m, w) (m', w')"
| send: "authorizedEntry m i uid = Inr it \<Longrightarrow> client_command cmd \<Longrightarrow>
    length (en_commands it) < maxCommandQueue \<Longrightarrow>
    mgr_step (Client uid) (m, w) (put_entry i (it\<lparr>en_commands := en_commands it @ [cmd]\<rparr>) m, w)"
| cleanup: "authorizedEntry m i uid = Inr it \<Longrightarrow>
    mgr_step (Client uid) (m, w) (put_entry i (requestCleanup it) m, w)"
| admit: "map_of (mg_entries m) i = Some it \<Longrightarrow> en_admitting it \<Longrightarrow>
    length (en_commands it) < maxCommandQueue \<Longrightarrow>
    mgr_step Internal (m, w)
      (put_entry i (it\<lparr>en_commands := en_commands it @ [CmdCleanup], en_admitting := False\<rparr>) m, w)"
| actor: "process m i w = (m', w') \<Longrightarrow> mgr_step Internal (m, w) (m', w')"
| unsubscribe: "map_of (mg_entries m) i = Some it \<Longrightarrow>
    mgr_step Internal (m, w) (put_entry i (removeSubscriber j None it) m, w)"
| receive: "map_of (mg_entries m) i = Some it \<Longrightarrow>
    mgr_step Internal (m, w) (put_entry i (receive j it) m, w)"
| cancel: "map_of (mg_entries m) i = Some it \<Longrightarrow>
    mgr_step Internal (m, w) (put_entry i (cancel j it) m, w)"
| shutdown: "mgr_step Internal (m, w) (Shutdown m, w)"
| environment: "mgr_step Internal (m, w) (m, w')"

inductive mgr_reachable :: "'w Manager \<Rightarrow> 'w Manager \<times> 'w \<Rightarrow> bool" for m0 where
  start: "mgr_reachable m0 (m0, w)"
| step: "mgr_reachable m0 c \<Longrightarrow> mgr_step l c c' \<Longrightarrow> mgr_reachable m0 c'"

end
