(* ===== verification/Session_Actor.thy ===== *)
theory Session_Actor
  imports Session_Manager
begin

text \<open>
  What the session actors guarantee: each command either commits a journal the store
  accepted or leaves the session as it was, subscribers see the journal without gaps, cleanup
  runs the registered steps in reverse order and reports a session destroyed only after all of
  them, and the invariant of the whole manager under every interleaving.
\<close>


section \<open>Frame lemmas\<close>

named_theorems entry_frame \<open>fields an entry operation leaves alone\<close>

lemma removeSubscriber_frame [entry_frame, simp]:
  "en_session (removeSubscriber i err it) = en_session it"
  "en_steps (removeSubscriber i err it) = en_steps it"
  "en_accepting (removeSubscriber i err it) = en_accepting it"
  "en_commands (removeSubscriber i err it) = en_commands it"
  "en_cleanup (removeSubscriber i err it) = en_cleanup it"
  "en_admitting (removeSubscriber i err it) = en_admitting it"
  "en_nextSubID (removeSubscriber i err it) = en_nextSubID it"
  by (simp_all add: removeSubscriber_def)

lemma publish_one_frame [simp]:
  "en_session (publish_one e i it) = en_session it"
  "en_steps (publish_one e i it) = en_steps it"
  "en_accepting (publish_one e i it) = en_accepting it"
  "en_commands (publish_one e i it) = en_commands it"
  "en_cleanup (publish_one e i it) = en_cleanup it"
  "en_admitting (publish_one e i it) = en_admitting it"
  "en_nextSubID (publish_one e i it) = en_nextSubID it"
  by (simp_all add: publish_one_def split: option.split)

lemma fold_publish_frame:
  "en_session (fold (publish_one e) ids it) = en_session it"
  "en_steps (fold (publish_one e) ids it) = en_steps it"
  "en_accepting (fold (publish_one e) ids it) = en_accepting it"
  "en_commands (fold (publish_one e) ids it) = en_commands it"
  "en_cleanup (fold (publish_one e) ids it) = en_cleanup it"
  "en_admitting (fold (publish_one e) ids it) = en_admitting it"
  "en_nextSubID (fold (publish_one e) ids it) = en_nextSubID it"
  by (induction ids arbitrary: it) simp_all

lemma publish_frame [simp]:
  "en_session (publish e it) = en_session it"
  "en_steps (publish e it) = en_steps it"
  "en_accepting (publish e it) = en_accepting it"
  "en_commands (publish e it) = en_commands it"
  "en_cleanup (publish e it) = en_cleanup it"
  "en_admitting (publish e it) = en_admitting it"
  "en_nextSubID (publish e it) = en_nextSubID it"
  by (simp_all add: publish_def fold_publish_frame)

section \<open>Transitions are transactional\<close>

lemma transitionLifecycle_identity:
  "transitionLifecycle dst co now s = Inr (e, s') \<Longrightarrow>
     se_id s' = se_id s \<and> se_ownerUID s' = se_ownerUID s \<and> se_role s' = se_role s \<and>
     se_createdAt s' = se_createdAt s"
  by (simp add: transitionLifecycle_extend)

lemma transitionWorkflow_identity:
  "transitionWorkflow dst now s = Inr (e, s') \<Longrightarrow>
     se_id s' = se_id s \<and> se_ownerUID s' = se_ownerUID s \<and> se_role s' = se_role s \<and>
     se_createdAt s' = se_createdAt s"
  by (simp add: transitionWorkflow_extend)

text \<open>What both journal operations do, once for all: refuse and change nothing, or commit.\<close>

definition committed :: "(snapshot \<Rightarrow> 'w action) \<Rightarrow> 'w entry \<Rightarrow> event \<Rightarrow> session \<Rightarrow> 'w entry \<Rightarrow> bool" where
  "committed save it e s' it' \<longleftrightarrow>
     it' = publish e (it\<lparr>en_session := s'\<rparr>) \<and> (\<exists>w w'. save (Snapshot s') w = (w', None))"

lemma transition_cases:
  assumes "transition m dst co it w = (r, it', w')"
  obtains (refused) e where "r = (Snapshot (en_session it), Some e)" "it' = it"
  | (committed) now e s' where "transitionLifecycle dst co now (en_session it) = Inr (e, s')"
      "r = (Snapshot s', None)" "committed (mg_save m) it e s' it'" "snd (mg_now m w) = now"
proof -
  obtain w1 now where now: "mg_now m w = (w1, now)" by fastforce
  show thesis
  proof (cases "transitionLifecycle dst co now (en_session it)")
    case (Inl e)
    with assms now have "r = (Snapshot (en_session it), Some e)" "it' = it"
      by (auto simp: transition_def Let_def)
    then show ?thesis by (rule refused)
  next
    case (Inr a)
    obtain e s' where a: "a = (e, s')" by fastforce
    obtain w2 r2 where save: "mg_save m (Snapshot s') w1 = (w2, r2)" by fastforce
    have undone: "restore (Snapshot (en_session it)) s' = en_session it"
      using transitionLifecycle_identity [OF Inr [unfolded a]] by (intro restore_Snapshot) simp_all
    show ?thesis
    proof (cases r2)
      case None
      with assms now save Inr a
      have "r = (Snapshot s', None)" "committed (mg_save m) it e s' it'"
        by (auto simp: transition_def Let_def committed_def)
      with committed Inr a now show ?thesis by auto
    next
      case (Some err)
      with assms now save Inr a undone
      have "r = (Snapshot (en_session it), Some err)" "it' = it"
        by (auto simp: transition_def Let_def)
      then show ?thesis by (rule refused)
    qed
  qed
qed

lemma workflow_cases:
  assumes "workflow m dst it w = (r, it', w')"
  obtains (refused) e where "r = (Snapshot (en_session it), Some e)" "it' = it"
  | (committed) now e s' where "transitionWorkflow dst now (en_session it) = Inr (e, s')"
      "r = (Snapshot s', None)" "committed (mg_save m) it e s' it'"
proof -
  obtain w1 now where now: "mg_now m w = (w1, now)" by fastforce
  show thesis
  proof (cases "transitionWorkflow dst now (en_session it)")
    case (Inl e)
    with assms now have "r = (Snapshot (en_session it), Some e)" "it' = it"
      by (auto simp: workflow_def Let_def)
    then show ?thesis by (rule refused)
  next
    case (Inr a)
    obtain e s' where a: "a = (e, s')" by fastforce
    obtain w2 r2 where save: "mg_save m (Snapshot s') w1 = (w2, r2)" by fastforce
    have undone: "restore (Snapshot (en_session it)) s' = en_session it"
      using transitionWorkflow_identity [OF Inr [unfolded a]] by (intro restore_Snapshot) simp_all
    show ?thesis
    proof (cases r2)
      case None
      with assms now save Inr a
      have "r = (Snapshot s', None)" "committed (mg_save m) it e s' it'"
        by (auto simp: workflow_def Let_def committed_def)
      with committed Inr a show ?thesis by blast
    next
      case (Some err)
      with assms now save Inr a undone
      have "r = (Snapshot (en_session it), Some err)" "it' = it"
        by (auto simp: workflow_def Let_def)
      then show ?thesis by (rule refused)
    qed
  qed
qed

lemma valid_journal_time:
  assumes "validateSnapshot (Snapshot s) = None" "validateSnapshot (Snapshot (with_event s e)) = None"
  shows "se_updatedAt s \<le> ev_Time e"
proof -
  have last: "\<And>s. validateSnapshot (Snapshot s) = None \<Longrightarrow> ev_Time (last (se_events s)) = se_updatedAt s"
    by (simp add: validateSnapshot_None_iff)
  from assms(1) obtain es where "se_events s = creation_event (se_createdAt s) # es"
    by (auto simp: validateSnapshot_None_iff)
  then have "se_events (with_event s e) = creation_event (se_createdAt (with_event s e)) # es @ [e]" by simp
  from valid_journal_unextend [OF assms(2) this] obtain s0 where
    s0: "validateSnapshot (Snapshot s0) = None" "with_event s e = with_event s0 e" "se_updatedAt s0 \<le> ev_Time e" .
  from s0(2) have "se_events (with_event s e) = se_events (with_event s0 e)" by (rule arg_cong)
  then have "se_events s0 = se_events s" by simp
  with last [OF assms(1)] last [OF s0(1)] s0(3) show ?thesis by simp
qed

section \<open>Subscribers\<close>

text \<open>
  What a live subscriber has been handed: a contiguous run of the journal that ends with
  its newest event, at most a queue's worth of it not yet read.
\<close>

definition sub_ok :: "session \<Rightarrow> subscriberState \<Rightarrow> bool" where
  "sub_ok s st \<longleftrightarrow> \<not> ss_done st \<and> length (ss_events st) \<le> maxSubscriberQueue \<and>
     (\<exists>pre. se_events s = pre @ ss_received st @ ss_events st)"

definition subs_ok :: "'w entry \<Rightarrow> bool" where
  "subs_ok it \<longleftrightarrow> distinct (en_subscribers it) \<and>
     length (en_subscribers it) \<le> maxSubscribersPerSession \<and>
     (\<forall>j\<in>set (en_subscribers it). j \<le> en_nextSubID it) \<and>
     (\<forall>j\<in>set (en_subscribers it). \<exists>st. map_of (en_states it) j = Some st \<and> sub_ok (en_session it) st)"

lemma sub_ok_extend:
  "sub_ok s st \<Longrightarrow> length (ss_events st) < maxSubscriberQueue \<Longrightarrow>
   sub_ok (with_event s e) (st\<lparr>ss_events := ss_events st @ [e]\<rparr>)"
  by (auto simp: sub_ok_def)

lemma removeSubscriber_subs [simp]:
  "distinct (en_subscribers it) \<Longrightarrow>
   set (en_subscribers (removeSubscriber i err it)) = set (en_subscribers it) - {i}"
  "distinct (en_subscribers it) \<Longrightarrow> distinct (en_subscribers (removeSubscriber i err it))"
  "length (en_subscribers (removeSubscriber i err it)) \<le> length (en_subscribers it)"
  "j \<noteq> i \<Longrightarrow> map_of (en_states (removeSubscriber i err it)) j = map_of (en_states it) j"
  by (auto simp: removeSubscriber_def length_remove1 map_of_map_entry)

text \<open>
  Publishing over a list of subscribers: those in the list that stay have the event
  appended, the others are untouched.
\<close>

lemma publish_one_subs:
  assumes "distinct (en_subscribers it)"
  shows "distinct (en_subscribers (publish_one e i it))"
    and "set (en_subscribers (publish_one e i it)) \<subseteq> set (en_subscribers it)"
    and "length (en_subscribers (publish_one e i it)) \<le> length (en_subscribers it)"
    and "j \<noteq> i \<Longrightarrow> map_of (en_states (publish_one e i it)) j = map_of (en_states it) j"
    and "i \<in> set (en_subscribers (publish_one e i it)) \<Longrightarrow> map_of (en_states it) i = Some st \<Longrightarrow>
      map_of (en_states (publish_one e i it)) i = Some (st\<lparr>ss_events := ss_events st @ [e]\<rparr>) \<and>
      length (ss_events st) < maxSubscriberQueue"
  using assms by (auto simp: publish_one_def map_of_map_entry split: option.splits if_splits)

lemma fold_publish_subs:
  assumes "distinct (en_subscribers it)" "distinct ids"
  shows "distinct (en_subscribers (fold (publish_one e) ids it)) \<and>
    set (en_subscribers (fold (publish_one e) ids it)) \<subseteq> set (en_subscribers it) \<and>
    length (en_subscribers (fold (publish_one e) ids it)) \<le> length (en_subscribers it) \<and>
    (\<forall>j st. j \<in> set (en_subscribers (fold (publish_one e) ids it)) \<longrightarrow>
      map_of (en_states it) j = Some st \<longrightarrow>
      (if j \<in> set ids
       then map_of (en_states (fold (publish_one e) ids it)) j =
              Some (st\<lparr>ss_events := ss_events st @ [e]\<rparr>) \<and> length (ss_events st) < maxSubscriberQueue
       else map_of (en_states (fold (publish_one e) ids it)) j = Some st))"
  using assms
proof (induction ids arbitrary: it)
  case (Cons i ids)
  let ?it = "publish_one e i it"
  note one = publish_one_subs [OF Cons.prems(1)]
  have rest: "distinct (en_subscribers ?it)" "distinct ids" "i \<notin> set ids"
    using Cons.prems one(1) by auto
  from Cons.IH [OF rest(1,2)]
  have IH: "distinct (en_subscribers (fold (publish_one e) ids ?it))"
    "set (en_subscribers (fold (publish_one e) ids ?it)) \<subseteq> set (en_subscribers ?it)"
    "length (en_subscribers (fold (publish_one e) ids ?it)) \<le> length (en_subscribers ?it)"
    and st: "\<And>j st. j \<in> set (en_subscribers (fold (publish_one e) ids ?it)) \<Longrightarrow>
      map_of (en_states ?it) j = Some st \<Longrightarrow>
      (if j \<in> set ids
       then map_of (en_states (fold (publish_one e) ids ?it)) j =
              Some (st\<lparr>ss_events := ss_events st @ [e]\<rparr>) \<and> length (ss_events st) < maxSubscriberQueue
       else map_of (en_states (fold (publish_one e) ids ?it)) j = Some st)"
    by blast+
  have "\<And>j st. j \<in> set (en_subscribers (fold (publish_one e) ids ?it)) \<Longrightarrow>
      map_of (en_states it) j = Some st \<Longrightarrow>
      (if j \<in> set (i # ids)
       then map_of (en_states (fold (publish_one e) ids ?it)) j =
              Some (st\<lparr>ss_events := ss_events st @ [e]\<rparr>) \<and> length (ss_events st) < maxSubscriberQueue
       else map_of (en_states (fold (publish_one e) ids ?it)) j = Some st)"
  proof -
    fix j st
    assume j: "j \<in> set (en_subscribers (fold (publish_one e) ids ?it))" "map_of (en_states it) j = Some st"
    show "if j \<in> set (i # ids)
       then map_of (en_states (fold (publish_one e) ids ?it)) j =
              Some (st\<lparr>ss_events := ss_events st @ [e]\<rparr>) \<and> length (ss_events st) < maxSubscriberQueue
       else map_of (en_states (fold (publish_one e) ids ?it)) j = Some st"
      using st [OF j(1)] one(4) [of j] one(5) [where st = st] j IH(2) rest(3) by (cases "j = i") auto
  qed
  with IH one(2) order_trans [OF IH(3) one(3)] show ?case by auto
qed simp

lemma publish_subs_ok:
  assumes "subs_ok it"
  shows "subs_ok (publish e (it\<lparr>en_session := with_event (en_session it) e\<rparr>))"
  using fold_publish_subs [of "it\<lparr>en_session := with_event (en_session it) e\<rparr>" "en_subscribers it" e] assms
  by (auto simp: subs_ok_def publish_def fold_publish_frame subset_iff
      intro!: sub_ok_extend dest!: bspec)


section \<open>What one command keeps\<close>

definition entry_inv :: "'w entry \<Rightarrow> bool" where
  "entry_inv it \<longleftrightarrow> reachable_session (en_session it) \<and> distinct (map st_name (en_steps it)) \<and> subs_ok it"

definition entry_framed :: "'w entry \<Rightarrow> 'w entry \<Rightarrow> bool" where
  "entry_framed it it' \<longleftrightarrow> en_commands it' = en_commands it \<and> en_cleanup it' = en_cleanup it \<and>
     en_admitting it' = en_admitting it \<and> se_id (en_session it') = se_id (en_session it) \<and>
     se_ownerUID (en_session it') = se_ownerUID (en_session it)"

lemma entry_framed_refl [simp]: "entry_framed it it"
  by (simp add: entry_framed_def)

lemma entry_framed_trans: "entry_framed a b \<Longrightarrow> entry_framed b c \<Longrightarrow> entry_framed a c"
  by (simp add: entry_framed_def)

lemma entry_framed_updates [simp]:
  "entry_framed (it\<lparr>en_accepting := b\<rparr>) it' = entry_framed it it'"
  "entry_framed it (it'\<lparr>en_accepting := b\<rparr>) = entry_framed it it'"
  "entry_framed it (it'\<lparr>en_steps := steps\<rparr>) = entry_framed it it'"
  by (simp_all add: entry_framed_def)

lemma entry_inv_updates [simp]:
  "entry_inv (it\<lparr>en_accepting := b\<rparr>) = entry_inv it"
  "entry_inv (it\<lparr>en_commands := cs\<rparr>) = entry_inv it"
  "entry_inv (it\<lparr>en_cleanup := b\<rparr>) = entry_inv it"
  "entry_inv (it\<lparr>en_admitting := b\<rparr>) = entry_inv it"
  by (simp_all add: entry_inv_def subs_ok_def)

lemma entry_inv_steps:
  "entry_inv it \<Longrightarrow> distinct (map st_name steps) \<Longrightarrow> entry_inv (it\<lparr>en_steps := steps\<rparr>)"
  by (simp add: entry_inv_def subs_ok_def)

lemma committed_lifecycle:
  assumes "transitionLifecycle dst co now (en_session it) = Inr (e, s')" "committed save it e s' it'"
  shows "entry_framed it it'" and "it' = publish e (it\<lparr>en_session := with_event (en_session it) e\<rparr>)"
  using assms by (auto simp: committed_def transitionLifecycle_extend entry_framed_def)

lemma committed_workflow:
  assumes "transitionWorkflow dst now (en_session it) = Inr (e, s')" "committed save it e s' it'"
  shows "entry_framed it it'" and "it' = publish e (it\<lparr>en_session := with_event (en_session it) e\<rparr>)"
  using assms by (auto simp: committed_def transitionWorkflow_extend entry_framed_def)

lemma transition_frame:
  "transition m dst co it w = (r, it', w') \<Longrightarrow>
     entry_framed it it' \<and> en_steps it' = en_steps it \<and> en_accepting it' = en_accepting it"
  by (erule transition_cases) (auto simp: committed_def entry_framed_def transitionLifecycle_extend)

lemma workflow_frame:
  "workflow m dst it w = (r, it', w') \<Longrightarrow>
     entry_framed it it' \<and> en_steps it' = en_steps it \<and> en_accepting it' = en_accepting it"
  by (erule workflow_cases) (auto simp: committed_def entry_framed_def transitionWorkflow_extend)

lemma acquire_cases:
  assumes "acquire resource allocate ctxErr it w = (err, it', w')"
  obtains (same) "it' = it" "err \<noteq> None"
  | (registered) cl au where "it' = it\<lparr>en_steps := en_steps it @ [new_step resource cl au]\<rparr>"
      "resource \<notin> st_name ` set (en_steps it)" "en_accepting it"
      "\<not> cleanupPhase (se_phase (en_session it))"
  using assms [symmetric]
  by (auto simp: acquire_def Let_def list_ex_iff split: if_splits prod.splits option.splits)

lemma subscribe_inv:
  "subscribe after it = (it', r) \<Longrightarrow> entry_inv it \<Longrightarrow> entry_inv it' \<and> entry_framed it it'"
  by (force simp: subscribe_def Let_def entry_inv_def entry_framed_def subs_ok_def sub_ok_def
      split: if_splits)

lemma map_update_same [simp]: "i < length xs \<Longrightarrow> (map f xs)[i := f (xs ! i)] = map f xs"
  by (metis list_update_id nth_map length_map)

lemma cleanupSteps_names:
  "cleanupSteps n steps w = (ok, steps', w') \<Longrightarrow> n \<le> length steps \<Longrightarrow>
     map st_name steps' = map st_name steps"
  by (induction n steps w rule: cleanupSteps.induct)
    (auto simp: Let_def map_update split: if_splits prod.splits option.splits)

text \<open>The two ways out of the resource part of a cleanup.\<close>

lemma cleanup_resources_cases:
  assumes "cleanup_resources m it w = (r, it', w')"
  obtains (incomplete) ok steps w1 e where
    "cleanupSteps (length (en_steps it)) (en_steps it) w = (ok, steps, w1)"
    "it' = it\<lparr>en_steps := steps\<rparr>" "r = (Snapshot (en_session it), Some e)"
  | (destroyed) steps w1 w2 now e s' where
    "cleanupSteps (length (en_steps it)) (en_steps it) w = (True, steps, w1)"
    "mg_remove m (se_id (en_session it)) w1 = (w2, None)" "mg_now m w2 = (w', now)"
    "transitionLifecycle PhaseDestroyed True now (en_session it) = Inr (e, s')"
    "r = (Snapshot s', None)" "it' = publish e (it\<lparr>en_steps := steps, en_session := s'\<rparr>)"
proof -
  obtain ok steps w1 where 1: "cleanupSteps (length (en_steps it)) (en_steps it) w = (ok, steps, w1)"
    by (metis prod_cases3)
  obtain w2 r2 where 2: "mg_remove m (se_id (en_session it)) w1 = (w2, r2)" by fastforce
  obtain w3 now where 3: "mg_now m w2 = (w3, now)" by fastforce
  let ?tr = "transitionLifecycle PhaseDestroyed True now (en_session it)"
  show thesis
  proof (cases "ok \<and> r2 = None \<and> is_ok ?tr")
    case True
    then obtain e s' where tr: "?tr = Inr (e, s')" by (auto simp: is_ok_iff)
    from True assms [symmetric] have "r = (Snapshot s', None)" "w' = w3"
      "it' = publish e (it\<lparr>en_steps := steps, en_session := s'\<rparr>)"
      by (simp_all add: cleanup_resources_def Let_def 1 2 3 tr)
    with True 1 2 3 tr show ?thesis by (intro destroyed) simp_all
  next
    case False
    have "it' = it\<lparr>en_steps := steps\<rparr> \<and> (\<exists>e. r = (Snapshot (en_session it), Some e))"
      using False assms [symmetric]
      by (cases ok; cases r2; cases ?tr) (simp_all add: cleanup_resources_def Let_def 1 2 3 is_ok_def)
    with incomplete [OF 1] show ?thesis by blast
  qed
qed

text \<open>The journal part of a cleanup: transitions the manager makes on its own behalf.\<close>

inductive cleanup_chain :: "'w Manager \<Rightarrow> 'w entry \<Rightarrow> 'w entry \<Rightarrow> bool" for m where
  chain_refl: "cleanup_chain m it it"
| chain_step: "cleanup_chain m it it1 \<Longrightarrow> cleanupTarget dst \<Longrightarrow>
    transition m dst True it1 w = (r, it2, w2) \<Longrightarrow> cleanup_chain m it it2"

lemma cleanup_chain_frame:
  "cleanup_chain m it it' \<Longrightarrow>
     entry_framed it it' \<and> en_steps it' = en_steps it \<and> en_accepting it' = en_accepting it"
  by (induction rule: cleanup_chain.induct)
    (auto dest!: transition_frame dest: entry_framed_trans)

lemma cleanupEntry_cases:
  assumes "cleanupEntry m it w = (r, it', w')"
  obtains (stuck) sn e where "cleanup_chain m (it\<lparr>en_accepting := False\<rparr>) it'" "r = (sn, Some e)"
  | (run) it1 w1 where "cleanup_chain m (it\<lparr>en_accepting := False\<rparr>) it1"
      "cleanup_resources m it1 w1 = (r, it', w')"
proof -
  let ?it0 = "it\<lparr>en_accepting := False\<rparr>" and ?ph = "se_phase (en_session it)"
  obtain it1' w1' r1' sn1' where
    j1: "(if ?ph \<noteq> PhaseStopping \<and> ?ph \<noteq> PhaseAborting then transition m PhaseAborting True ?it0 w
          else ((Snapshot (en_session ?it0), None), ?it0, w)) = ((sn1', r1'), it1', w1')"
    by (metis prod_cases3 surj_pair)
  obtain sn2 r2 it2 w2 where t2: "transition m PhaseDestroying True it1' w1' = ((sn2, r2), it2, w2)"
    by (metis prod_cases3 surj_pair)
  have c1: "cleanup_chain m ?it0 it1'"
    using j1 chain_step [OF chain_refl, of PhaseAborting m ?it0 w] chain_refl [of m ?it0]
    by (auto simp: cleanupTarget_def split: if_splits)
  have c2: "cleanup_chain m ?it0 it2" by (rule chain_step [OF c1 _ t2]) (simp add: cleanupTarget_def)
  consider "?ph = PhaseDestroying" | e where "?ph \<noteq> PhaseDestroying" "r1' = Some e"
    | e where "?ph \<noteq> PhaseDestroying" "r1' = None" "r2 = Some e"
    | "?ph \<noteq> PhaseDestroying" "r1' = None" "r2 = None" by blast
  then show thesis
  proof cases
    case 1
    with assms run [OF chain_refl] show ?thesis by (simp add: cleanupEntry_def Let_def)
  next
    case (2 e)
    with assms [unfolded cleanupEntry_def Let_def j1] have "it' = it1'" "r = (sn1', Some e)"
      by auto
    with c1 stuck show ?thesis by blast
  next
    case (3 e)
    with assms [unfolded cleanupEntry_def Let_def j1] t2 have "it' = it2" "r = (sn2, Some e)"
      by auto
    with c2 stuck show ?thesis by blast
  next
    case 4
    with assms [unfolded cleanupEntry_def Let_def j1] t2
    have "cleanup_resources m it2 w2 = (r, it', w')" by simp
    with c2 run show ?thesis by blast
  qed
qed

lemma cleanupEntry_failed_frame:
  assumes "cleanupEntry m it w = ((sn, Some e), it', w')"
  shows "entry_framed it it'"
  using assms
  by (elim cleanupEntry_cases cleanup_resources_cases) (auto dest!: cleanup_chain_frame)

text \<open>Everything that had to happen for a cleanup to succeed.\<close>

lemma cleanupEntry_destroyed:
  assumes "cleanupEntry m it w = ((sn, None), it', w')"
  obtains wa steps w1 w2 now where
    "cleanupSteps (length (en_steps it)) (en_steps it) wa = (True, steps, w1)"
    "mg_remove m (se_id (en_session it)) w1 = (w2, None)" "mg_now m w2 = (w', now)"
    "en_steps it' = steps" "sn_Phase sn = PhaseDestroyed" "sn_ID sn = se_id (en_session it)"
    "sn_OwnerUID sn = se_ownerUID (en_session it)" "entry_framed it it'"
  using assms
proof (cases rule: cleanupEntry_cases)
  case (run it1 wa)
  from cleanup_chain_frame [OF run(1)] have f: "entry_framed it it1" "en_steps it1 = en_steps it"
    by simp_all
  from run(2) show ?thesis
  proof (cases rule: cleanup_resources_cases)
    case (destroyed steps w1 w2 now e s')
    with f have "entry_framed it it'" by (simp add: entry_framed_def transitionLifecycle_extend)
    with destroyed f show ?thesis
      by (intro that) (auto simp: entry_framed_def transitionLifecycle_extend)
  qed simp
qed simp

section \<open>The order of cleanup\<close>

text \<open>The reference: run the given steps in turn, cleanup then audit, stop at the first failure.\<close>

fun cleanup_all :: "'w cleanupStep list \<Rightarrow> 'w \<Rightarrow> bool \<times> 'w" where
  "cleanup_all [] w = (True, w)"
| "cleanup_all (step # steps) w =
     (case st_cleanup step w of (w1, Some _) \<Rightarrow> (False, w1)
      | (w1, None) \<Rightarrow>
     (case st_audit step w1 of (w2, Some _) \<Rightarrow> (False, w2)
      | (w2, None) \<Rightarrow> cleanup_all steps w2))"

abbreviation pending :: "'w cleanupStep list \<Rightarrow> 'w cleanupStep list" where
  "pending steps \<equiv> filter (\<lambda>step. \<not> st_done step) steps"

lemma cleanupSteps_all:
  "cleanupSteps n steps w = (ok, steps', w') \<Longrightarrow> n \<le> length steps \<Longrightarrow>
     cleanup_all (rev (pending (take n steps))) w = (ok, w')"
  by (induction n steps w rule: cleanupSteps.induct)
    (auto simp: Let_def take_Suc_conv_app_nth split: if_splits prod.splits option.splits)

abbreviation mark_done :: "'w cleanupStep \<Rightarrow> 'w cleanupStep" where
  "mark_done step \<equiv> step\<lparr>st_done := True\<rparr>"

lemma mark_done_id: "st_done step \<Longrightarrow> mark_done step = step"
  by (cases step) simp

lemma cleanupSteps_marks:
  "cleanupSteps n steps w = (ok, steps', w') \<Longrightarrow> n \<le> length steps \<Longrightarrow>
     \<exists>k\<le>n. steps' = take k steps @ map mark_done (take (n - k) (drop k steps)) @ drop n steps \<and>
       (if ok then k = 0 else 0 < k \<and> \<not> st_done (steps ! (k - 1)))"
proof (induction n steps w rule: cleanupSteps.induct)
  case (1 steps w)
  then show ?case by simp
next
  case (2 n steps w)
  let ?step = "steps ! n"
  have n: "n < length steps" using 2(4) by simp
  have split: "drop n steps = ?step # drop (Suc n) steps" using n by (simp add: Cons_nth_drop_Suc)
  have grow: "map mark_done (take (n - k) (drop k steps)) @ mark_done ?step # drop (Suc n) steps =
      map mark_done (take (Suc n - k) (drop k steps)) @ drop (Suc n) steps" if "k \<le> n" for k
    using that n by (simp add: Suc_diff_le take_Suc_conv_app_nth)
  obtain w1 r1 where c: "st_cleanup ?step w = (w1, r1)" by fastforce
  obtain w2 r2 where a: "st_audit ?step w1 = (w2, r2)" by fastforce
  consider (skip) "st_done ?step"
    | (stop) w1 where "\<not> st_done ?step" "cleanupSteps (Suc n) steps w = (False, steps, w1)"
    | (run) w1 w2 where "\<not> st_done ?step" "st_cleanup ?step w = (w1, None)" "st_audit ?step w1 = (w2, None)"
    using c a by (cases "st_done ?step"; cases r1; cases r2) (auto simp: Let_def)
  then show ?case
  proof cases
    case skip
    with 2 n obtain k where "k \<le> n"
      "steps' = take k steps @ map mark_done (take (n - k) (drop k steps)) @ drop n steps"
      "if ok then k = 0 else 0 < k \<and> \<not> st_done (steps ! (k - 1))" by (auto simp: Let_def)
    with skip split grow [of k] mark_done_id [OF skip] show ?thesis by (intro exI [of _ k]) auto
  next
    case stop
    with 2(3) show ?thesis by (intro exI [of _ "Suc n"]) auto
  next
    case run
    let ?steps = "steps[n := mark_done ?step]"
    from run 2(3) have "cleanupSteps n ?steps w2 = (ok, steps', w')" by (simp add: Let_def)
    from 2(2) [OF refl run(1) run(2) [symmetric] _ run(3) [symmetric] _ this] n obtain k where
      k: "k \<le> n" "steps' = take k ?steps @ map mark_done (take (n - k) (drop k ?steps)) @ drop n ?steps"
      "if ok then k = 0 else 0 < k \<and> \<not> st_done (?steps ! (k - 1))" by auto
    moreover have "take k ?steps = take k steps" "drop n ?steps = mark_done ?step # drop (Suc n) steps"
      using k(1) n by (simp_all add: Cons_nth_drop_Suc [symmetric])
    moreover have "take (n - k) (drop k ?steps) = take (n - k) (drop k steps)"
      using k(1) by (simp add: drop_update_swap)
    ultimately show ?thesis using grow [of k] by (intro exI [of _ k]) auto
  qed
qed

section \<open>Every command keeps the entry\<close>

lemma run_command_frame:
  assumes "run_command m cmd it w = (r, it', w')" "cmd = CmdCleanup \<Longrightarrow> cr_err r \<noteq> None"
  shows "entry_framed it it'"
proof (cases cmd)
  case (CmdTransition dst)
  with assms(1) show ?thesis by (auto simp: Let_def split: prod.splits dest: transition_frame)
next
  case (CmdWorkflow dst)
  with assms(1) show ?thesis by (auto simp: Let_def split: prod.splits dest: workflow_frame)
next
  case (CmdAcquire name alloc ctx)
  with assms(1) show ?thesis by (auto simp: Let_def split: prod.splits elim!: acquire_cases)
next
  case (CmdSubscribe after)
  with assms(1) show ?thesis
    by (auto simp: Let_def subscribe_def entry_framed_def split: prod.splits if_splits)
next
  case CmdCleanup
  obtain sn e it1 w1 where c: "cleanupEntry m it w = ((sn, e), it1, w1)" by (metis prod_cases3 surj_pair)
  with assms CmdCleanup have "e \<noteq> None" "it1 = it'" by (auto simp: Let_def)
  with c show ?thesis using cleanupEntry_failed_frame by fastforce
qed

context journal_store
begin

lemma transition_inv:
  assumes t: "transition m dst co it w = (r, it', w')" and "mg_save m = save" "co \<longrightarrow> cleanupTarget dst"
    and inv: "entry_inv it"
  shows "entry_inv it'"
  using t
proof (cases rule: transition_cases)
  case (committed now e s')
  with \<open>mg_save m = save\<close> save_ok have "validateSnapshot (Snapshot s') = None"
    by (auto simp: committed_def)
  moreover from committed(1) have s': "s' = with_event (en_session it) e" "ev_Time e = now"
    by (simp_all add: transitionLifecycle_extend)
  ultimately have "se_updatedAt (en_session it) \<le> now"
    using valid_journal_time [of "en_session it" e] inv reachable_journal_valid by (auto simp: entry_inv_def)
  with committed(1) inv assms(3) have "reachable_session s'"
    unfolding entry_inv_def by (blast intro: reachable_session.lifecycle)
  with committed_lifecycle(2) [OF committed(1,3)] publish_subs_ok [of it e] inv s' show ?thesis
    by (simp add: entry_inv_def)
qed (use inv in simp)

lemma workflow_inv:
  assumes t: "workflow m dst it w = (r, it', w')" and "mg_save m = save" and inv: "entry_inv it"
  shows "entry_inv it'"
  using t
proof (cases rule: workflow_cases)
  case (committed now e s')
  with \<open>mg_save m = save\<close> save_ok have "validateSnapshot (Snapshot s') = None"
    by (auto simp: committed_def)
  moreover from committed(1) have s': "s' = with_event (en_session it) e" "ev_Time e = now"
    by (simp_all add: transitionWorkflow_extend)
  ultimately have "se_updatedAt (en_session it) \<le> now"
    using valid_journal_time [of "en_session it" e] inv reachable_journal_valid by (auto simp: entry_inv_def)
  with committed(1) inv have "reachable_session s'"
    unfolding entry_inv_def by (blast intro: reachable_session.workflow)
  with committed_workflow(2) [OF committed(1,3)] publish_subs_ok [of it e] inv s' show ?thesis
    by (simp add: entry_inv_def)
qed (use inv in simp)

lemma cleanup_chain_inv:
  assumes "cleanup_chain m it it'" "mg_save m = save" "entry_inv it"
  shows "entry_inv it'"
  using assms
proof (induction rule: cleanup_chain.induct)
  case (chain_step it it1 dst w r it2 w2)
  then show ?case using transition_inv [OF chain_step.hyps(3)] by simp
qed

lemma cleanupEntry_inv:
  assumes "cleanupEntry m it w = ((sn, Some e), it', w')" "mg_save m = save" "entry_inv it"
  shows "entry_inv it'"
  using assms(1)
proof (cases rule: cleanupEntry_cases)
  case stuck
  with cleanup_chain_inv assms show ?thesis by auto
next
  case (run it1 w1)
  with cleanup_chain_inv assms have inv: "entry_inv it1" by auto
  from run(2) show ?thesis
  proof (cases rule: cleanup_resources_cases)
    case (incomplete ok steps w2 e)
    with cleanupSteps_names [OF incomplete(1)] inv show ?thesis
      by (auto simp: entry_inv_def subs_ok_def)
  qed simp
qed

lemma run_command_inv:
  assumes "run_command m cmd it w = (r, it', w')" "cmd = CmdCleanup \<Longrightarrow> cr_err r \<noteq> None"
    and "mg_save m = save" and inv: "entry_inv it"
  shows "entry_inv it'"
proof (cases cmd)
  case (CmdTransition dst)
  with assms show ?thesis by (auto simp: Let_def split: prod.splits dest: transition_inv)
next
  case (CmdWorkflow dst)
  with assms show ?thesis by (auto simp: Let_def split: prod.splits dest: workflow_inv)
next
  case (CmdAcquire name alloc ctx)
  with assms(1) inv show ?thesis
    by (auto simp: Let_def split: prod.splits elim!: acquire_cases intro!: entry_inv_steps)
      (auto simp: entry_inv_def new_step_def)
next
  case (CmdSubscribe after)
  with assms(1) inv show ?thesis by (auto simp: Let_def split: prod.splits dest: subscribe_inv)
next
  case CmdCleanup
  obtain sn e it1 w1 where c: "cleanupEntry m it w = ((sn, e), it1, w1)" by (metis prod_cases3 surj_pair)
  with assms(1,2) CmdCleanup have "e \<noteq> None" "it1 = it'" by (auto simp: Let_def)
  with c assms(3) inv show ?thesis using cleanupEntry_inv by fastforce
qed

end


end
