(* ===== verification/Session_Safety.thy ===== *)
theory Session_Safety
  imports Session_Actor
begin

text \<open>
  The invariant of the whole session manager under every interleaving of client calls, actors,
  subscribers, shutdown and a changing environment, and the properties it gives for a manager
  that journals to the volatile store.
\<close>

section \<open>The invariant of the manager\<close>

fun is_cleanup :: "'w command \<Rightarrow> bool" where
  "is_cleanup CmdCleanup = True"
| "is_cleanup _ = False"

lemma client_command_not_cleanup: "client_command cmd \<Longrightarrow> \<not> is_cleanup cmd"
  by (cases cmd) auto

text \<open>
  A live entry: filed under its own identifier, its session one the state machines allow, its
  queue bounded, and at most one cleanup attempt either waiting for the queue or in it.
\<close>

definition entry_ok :: "string \<Rightarrow> 'w entry \<Rightarrow> bool" where
  "entry_ok i it \<longleftrightarrow> se_id (en_session it) = i \<and> entry_inv it \<and>
     length (en_commands it) \<le> maxCommandQueue \<and>
     length (filter is_cleanup (en_commands it)) + of_bool (en_admitting it) = of_bool (en_cleanup it)"

definition mgr_inv :: "'w Manager \<Rightarrow> bool" where
  "mgr_inv m \<longleftrightarrow> distinct (map fst (mg_entries m)) \<and>
     (\<forall>(i, it) \<in> set (mg_entries m). entry_ok i it) \<and>
     (\<forall>uid. length (owned_entries uid m) \<le> mg_maxPerOwner m) \<and>
     distinct (map fst (mg_destroyed m)) \<and> length (mg_destroyed m) \<le> maxTombstones"

definition same_config :: "'w Manager \<Rightarrow> 'w Manager \<Rightarrow> bool" where
  "same_config m m' \<longleftrightarrow> mg_create m' = mg_create m \<and> mg_save m' = mg_save m \<and> mg_remove m' = mg_remove m \<and>
     mg_now m' = mg_now m \<and> mg_newID m' = mg_newID m \<and> mg_maxPerOwner m' = mg_maxPerOwner m"

subsection \<open>Replacing one entry\<close>

lemma mgr_inv_lookup: "mgr_inv m \<Longrightarrow> map_of (mg_entries m) i = Some it \<Longrightarrow> entry_ok i it"
  by (auto simp: mgr_inv_def dest!: map_of_SomeD)

lemma put_entry_inv:
  assumes inv: "mgr_inv m" and old: "map_of (mg_entries m) i = Some it"
    and new: "entry_ok i it'" "se_ownerUID (en_session it') = se_ownerUID (en_session it)"
  shows "mgr_inv (put_entry i it' m)"
proof -
  have "length (owned_entries uid (put_entry i it' m)) = length (owned_entries uid m)" for uid
    using inv old new(2) unfolding owned_entries_def put_entry_def
    by (simp add: mgr_inv_def filter_update_existing)
  with inv new(1) show ?thesis
    using set_update_subset [of i it' "mg_entries m"]
    by (auto simp: mgr_inv_def put_entry_def distinct_update)
qed

lemma put_entry_config: "same_config m (put_entry i it m)"
  by (simp add: same_config_def put_entry_def)

lemma put_entry_step:
  assumes "mgr_inv m" "map_of (mg_entries m) i = Some it"
    and "entry_ok i it \<Longrightarrow> entry_ok i it'" "se_ownerUID (en_session it') = se_ownerUID (en_session it)"
  shows "mgr_inv (put_entry i it' m) \<and> same_config m (put_entry i it' m)"
  using put_entry_inv [OF assms(1,2)] put_entry_config [of m i it'] mgr_inv_lookup [OF assms(1,2)] assms(3,4)
  by simp

lemma oldest_tombstone_fold:
  "fst (fold (\<lambda>(i, candidate) (oldestID, oldest).
      if oldestID = '''' \<or> sn_UpdatedAt candidate < oldest then (i, sn_UpdatedAt candidate)
      else (oldestID, oldest)) ts acc) \<in> insert (fst acc) (fst ` set ts)"
  by (induction ts arbitrary: acc) (auto split: if_splits prod.splits, force+)

lemma oldest_tombstone_in:
  assumes "ts \<noteq> []"
  shows "oldest_tombstone ts \<in> fst ` set ts"
proof -
  from assms obtain i sn rest where ts: "ts = (i, sn) # rest" by (cases ts) auto
  show ?thesis
    using oldest_tombstone_fold [of rest "(i, sn_UpdatedAt sn)"] by (auto simp: oldest_tombstone_def ts)
qed

lemma finish_inv:
  assumes "mgr_inv m"
  shows "mgr_inv (finish sn m)"
proof -
  let ?d = "if length (mg_destroyed m) \<ge> maxTombstones
    then AList.delete (oldest_tombstone (mg_destroyed m)) (mg_destroyed m) else mg_destroyed m"
  have d: "length ?d < maxTombstones \<and> distinct (map fst ?d)"
  proof (cases "length (mg_destroyed m) \<ge> maxTombstones")
    case True
    then have "mg_destroyed m \<noteq> []" by (auto simp: maxTombstones_def)
    from length_delete_less [OF oldest_tombstone_in [OF this]] assms True show ?thesis
      by (auto simp: mgr_inv_def distinct_delete)
  qed (use assms in \<open>auto simp: mgr_inv_def\<close>)
  have "length (AList.update (sn_ID sn) (sn\<lparr>sn_Events := []\<rparr>) ?d) \<le> maxTombstones"
    using length_update_le [of "sn_ID sn" "sn\<lparr>sn_Events := []\<rparr>" ?d] d by linarith
  moreover have "length (owned_entries uid (finish sn m)) \<le> mg_maxPerOwner m" for uid
    using assms length_delete_le [of "\<lambda>(i, it). se_ownerUID (en_session it) = uid" "sn_ID sn" "mg_entries m"]
    by (auto simp: mgr_inv_def owned_entries_def finish_def Let_def intro: order_trans)
  ultimately show ?thesis using assms d set_delete_subset [of "sn_ID sn" "mg_entries m"]
    by (auto simp: mgr_inv_def finish_def Let_def distinct_update distinct_delete)
qed

subsection \<open>Client operations\<close>

lemma authorizedEntry_Inr:
  "authorizedEntry m i uid = Inr it \<longleftrightarrow>
     ValidateID i = None \<and> map_of (mg_entries m) i = Some it \<and> (uid = 0 \<or> uid = se_ownerUID (en_session it))"
  by (auto simp: authorizedEntry_def split: option.splits)

lemma create_attempt_result:
  "create_attempt n m uid r w = (res, m', w') \<Longrightarrow>
     (m' = m \<and> (\<exists>e. res = Inl e)) \<or>
     (\<exists>i s now. map_of (mg_entries m) i = None \<and> newOwned i uid r now = Inr s \<and>
        m' = put_entry i (new_entry s) m \<and> res = Inr (Snapshot s))"
proof (induction n arbitrary: w)
  case (Suc n)
  show ?case
  proof (rule ccontr)
    assume no: "\<not> ?thesis"
    have again: "create_attempt n m uid r v \<noteq> (res, m', w')" for v
      using no Suc.IH [of v] by blast
    from Suc.prems no show False
      by (simp add: Let_def again split: prod.splits sum.splits if_splits option.splits) (auto simp: again, (metis option.distinct(1))+)
  qed
qed auto

lemma new_entry_ok:
  assumes "newOwned i uid r now = Inr s"
  shows "entry_ok i (new_entry s)" "se_ownerUID (en_session (new_entry s)) = uid"
  using assms reachable_session.created [OF assms]
  by (auto simp: entry_ok_def entry_inv_def subs_ok_def new_entry_def newOwned_Inr_iff)

lemma CreateSession_inv:
  assumes "CreateSession m uid r w = (res, m', w')" and inv: "mgr_inv m"
  shows "mgr_inv m' \<and> same_config m m'"
proof (cases "m' = m")
  case True
  with inv show ?thesis by (simp add: same_config_def)
next
  case False
  with assms(1) have room: "length (owned_entries uid m) < mg_maxPerOwner m"
    and c: "create_attempt maxIDAttempts m uid r w = (res, m', w')"
    by (auto simp: CreateSession_def split: option.splits if_splits)
  from False obtain i s now where new: "map_of (mg_entries m) i = None"
    "newOwned i uid r now = Inr s" "m' = put_entry i (new_entry s) m"
    using create_attempt_result [OF c] by metis
  note ok = new_entry_ok [OF new(2)]
  have "length (owned_entries u m') \<le> mg_maxPerOwner m" for u
    using Suc_leI [OF room] inv ok(2) new(1)
    by (auto simp: new(3) put_entry_def owned_entries_def mgr_inv_def filter_update_new)
  moreover have "distinct (map fst (mg_entries m'))"
    using inv by (simp add: new(3) put_entry_def mgr_inv_def distinct_update)
  ultimately show ?thesis using inv ok(1) new(1)
    by (auto simp: mgr_inv_def new(3) put_entry_def filter_update_new same_config_def)
qed

lemma requestCleanup_ok: "entry_ok i it \<Longrightarrow> entry_ok i (requestCleanup it)"
  by (auto simp: entry_ok_def requestCleanup_def entry_inv_def subs_ok_def)

lemma requestCleanup_session [simp]: "en_session (requestCleanup it) = en_session it"
  by (simp add: requestCleanup_def)

lemma Shutdown_inv: "mgr_inv m \<Longrightarrow> mgr_inv (Shutdown m)"
proof -
  assume inv: "mgr_inv m"
  have "length (owned_entries uid (Shutdown m)) = length (owned_entries uid m)" for uid
    by (simp add: owned_entries_def Shutdown_def filter_map o_def split_def)
  with inv show ?thesis
    by (auto simp: mgr_inv_def Shutdown_def o_def case_prod_beta intro: requestCleanup_ok)
qed

subsection \<open>Subscriber steps\<close>

lemma removeSubscriber_ok: "entry_ok i it \<Longrightarrow> entry_ok i (removeSubscriber j err it)"
  by (auto simp: entry_ok_def entry_inv_def subs_ok_def
      intro: order_trans [OF removeSubscriber_subs(3)])

lemma subs_ok_states:
  assumes "\<And>st. sub_ok (en_session it) st \<Longrightarrow> sub_ok (en_session it) (f st)" "entry_ok i it"
  shows "entry_ok i (it\<lparr>en_states := AList.map_entry j f (en_states it)\<rparr>)"
  using assms by (auto simp: entry_ok_def entry_inv_def subs_ok_def map_of_map_entry)

lemma receive_ok: "entry_ok i it \<Longrightarrow> entry_ok i (receive j it)"
  unfolding receive_def by (rule subs_ok_states) (auto simp: sub_ok_def split: list.splits)

lemma cancel_ok: "entry_ok i it \<Longrightarrow> entry_ok i (cancel j it)"
  unfolding cancel_def by (rule subs_ok_states) (auto simp: sub_ok_def)

lemma subscriber_step_session [simp]:
  "en_session (receive j it) = en_session it" "en_session (cancel j it) = en_session it"
  by (simp_all add: receive_def cancel_def)

subsection \<open>The actor\<close>

lemma process_cases:
  assumes "process m i w = (m', w')"
  obtains (idle) "m' = m" "w' = w"
  | (kept) it cmd rest r it1 where "map_of (mg_entries m) i = Some it" "en_commands it = cmd # rest"
      "run_command m cmd (it\<lparr>en_commands := rest\<rparr>) w = (r, it1, w')"
      "cmd = CmdCleanup \<Longrightarrow> cr_err r \<noteq> None"
      "m' = put_entry i (if cmd = CmdCleanup then it1\<lparr>en_cleanup := False\<rparr> else it1) m"
  | (finished) it rest sn it1 where "map_of (mg_entries m) i = Some it" "en_commands it = CmdCleanup # rest"
      "cleanupEntry m (it\<lparr>en_commands := rest\<rparr>) w = ((sn, None), it1, w')" "m' = finish sn m"
proof (cases "map_of (mg_entries m) i")
  case None
  with assms idle show thesis by (simp add: process_def)
next
  case it: (Some it)
  show thesis
  proof (cases "en_commands it")
    case Nil
    with it assms idle show thesis by (simp add: process_def)
  next
    case cmd: (Cons cmd rest)
    obtain r it1 w1 where r: "run_command m cmd (it\<lparr>en_commands := rest\<rparr>) w = (r, it1, w1)"
      by (metis prod_cases3)
    show thesis
    proof (cases "cmd = CmdCleanup \<and> cr_err r = None")
      case True
      with it cmd r assms show thesis
        by (intro finished [of it rest "cr_snapshot r" it1]) (auto simp: process_def split: prod.splits)
    next
      case False
      with it cmd r assms show thesis
        by (intro kept [of it cmd rest r it1])
          (auto simp: process_def split: prod.splits option.splits command.splits)
    qed
  qed
qed

context journal_store
begin

lemma process_inv:
  assumes "process m i w = (m', w')" "mg_save m = save" and inv: "mgr_inv m"
  shows "mgr_inv m' \<and> same_config m m'"
  using assms(1)
proof (cases rule: process_cases)
  case (kept it cmd rest r it1)
  from mgr_inv_lookup [OF inv kept(1)] have ok: "entry_ok i it" .
  from run_command_frame [OF kept(3,4)] have fr: "entry_framed (it\<lparr>en_commands := rest\<rparr>) it1" .
  have "entry_inv it1"
    using run_command_inv [OF kept(3,4) assms(2)] ok by (simp add: entry_ok_def)
  with ok fr kept(2) have "entry_ok i (if cmd = CmdCleanup then it1\<lparr>en_cleanup := False\<rparr> else it1)"
    by (cases cmd) (auto simp: entry_ok_def entry_framed_def)
  with put_entry_inv [OF inv kept(1)] fr kept(5) put_entry_config show ?thesis
    by (auto simp: entry_framed_def)
next
  case finished
  with finish_inv [OF inv] show ?thesis by (simp add: same_config_def finish_def Let_def)
qed (use inv in \<open>simp add: same_config_def\<close>)

text \<open>Every step, whoever takes it, keeps the invariant and the manager's configuration.\<close>

lemma mgr_step_inv:
  assumes "mgr_step l (m, w) (m', w')" "mg_save m = save" "mgr_inv m"
  shows "mgr_inv m' \<and> same_config m m'"
  using assms
proof (cases rule: mgr_step.cases)
  case (create uid r res)
  show ?thesis by (rule CreateSession_inv [OF create(2) assms(3)])
next
  case (send i uid it cmd)
  then have "map_of (mg_entries m) i = Some it" by (simp add: authorizedEntry_Inr)
  from put_entry_step [OF assms(3) this] send show ?thesis
    by (simp add: entry_ok_def client_command_not_cleanup)
next
  case (cleanup i uid it)
  then have "map_of (mg_entries m) i = Some it" by (simp add: authorizedEntry_Inr)
  from put_entry_step [OF assms(3) this requestCleanup_ok] cleanup show ?thesis by simp
next
  case (admit i it)
  from put_entry_step [OF assms(3) admit(4)] admit show ?thesis by (simp add: entry_ok_def)
next
  case (actor i)
  show ?thesis by (rule process_inv [OF actor(2) assms(2,3)])
next
  case (unsubscribe i it j)
  from put_entry_step [OF assms(3) unsubscribe(4) removeSubscriber_ok] unsubscribe show ?thesis by simp
next
  case (receive i it j)
  from put_entry_step [OF assms(3) receive(4) receive_ok] receive show ?thesis by simp
next
  case (cancel i it j)
  from put_entry_step [OF assms(3) cancel(4) cancel_ok] cancel show ?thesis by simp
next
  case shutdown
  with Shutdown_inv assms show ?thesis by (simp add: same_config_def Shutdown_def)
next
  case environment
  with assms show ?thesis by (simp add: same_config_def)
qed

lemma mgr_reachable_inv:
  assumes "mgr_reachable m0 c" "mg_save m0 = save" "mgr_inv m0"
  shows "mgr_inv (fst c) \<and> same_config m0 (fst c)"
  using assms
proof (induction rule: mgr_reachable.induct)
  case (start w)
  then show ?case by (simp add: same_config_def)
next
  case (step c l c')
  then show ?case using mgr_step_inv [of l "fst c" "snd c" "fst c'" "snd c'"]
    by (auto simp: same_config_def)
qed

end


section \<open>Properties of the manager\<close>

lemma NewManager_inv:
  assumes "NewManager create save remove now newID quota = Inr m0"
  shows "mgr_inv m0" "mg_create m0 = create" "mg_save m0 = save" "mg_remove m0 = remove"
    "mg_maxPerOwner m0 = quota"
  using assms by (auto simp: NewManager_def mgr_inv_def owned_entries_def split: if_splits)

text \<open>A manager whose journal is the volatile store, whatever the clock and the identifiers do.\<close>

definition store_manager ::
    "('x world \<Rightarrow> 'x world \<times> time) \<Rightarrow> ('x world \<Rightarrow> 'x world \<times> (session_error + string)) \<Rightarrow> nat \<Rightarrow>
     'x world Manager \<Rightarrow> bool" where
  "store_manager now newID quota m \<longleftrightarrow> NewManager Create Save Remove now newID quota = Inr m"

lemma store_reachable_inv:
  assumes "store_manager now newID quota m0" "mgr_reachable m0 (m, w)"
  shows "mgr_inv m" "mg_maxPerOwner m = quota" "mg_save m = Save" "mg_remove m = Remove"
  using store.mgr_reachable_inv [OF assms(2)] assms(1) NewManager_inv [of Create Save Remove now newID quota m0]
  by (auto simp: store_manager_def same_config_def)

subsection \<open>A concrete manager\<close>

definition tick :: "int world \<Rightarrow> int world \<times> time" where
  "tick w = (w\<lparr>fs_world.more := fs_world.more w + 1\<rparr>, fs_world.more w)"

definition example_id :: string where
  "example_id = ''pvm-0123456789abcdef0123456789abcdef''"

definition example_newID :: "int world \<Rightarrow> int world \<times> (session_error + string)" where
  "example_newID w = (w, Inr (if fs_world.more w = 100 then example_id
     else ''pvm-fedcba9876543210fedcba9876543210''))"

definition example_manager :: "int world Manager" where
  "example_manager = \<lparr>mg_create = Create, mg_save = Save, mg_remove = Remove, mg_now = tick,
     mg_newID = example_newID, mg_maxPerOwner = 2, mg_entries = [],
     mg_destroyed = [], mg_shuttingDown = False\<rparr>"

definition example_start :: "int world" where
  "example_start = \<lparr>fw_root = [], fw_script = [], \<dots> = 100\<rparr>"

definition example_created :: "int world Manager \<times> int world" where
  "example_created = snd (CreateSession example_manager 1000 RoleWorkstation example_start)"

lemma example_store_manager: "store_manager tick example_newID 2 example_manager"
  by (simp add: store_manager_def NewManager_def example_manager_def)

lemma example_created_reachable:
  "mgr_reachable example_manager (fst example_created, snd example_created)"
  by (rule mgr_reachable.step [OF mgr_reachable.start mgr_step.create [of _ 1000 RoleWorkstation example_start
        "fst (CreateSession example_manager 1000 RoleWorkstation example_start)"]])
    (simp add: example_created_def)

definition client_send :: "string \<Rightarrow> u32 \<Rightarrow> 'w command \<Rightarrow> 'w Manager \<times> 'w \<Rightarrow> 'w Manager \<times> 'w" where
  "client_send i uid cmd c =
     (case authorizedEntry (fst c) i uid of Inl _ \<Rightarrow> c
      | Inr it \<Rightarrow> if client_command cmd \<and> length (en_commands it) < maxCommandQueue
          then (put_entry i (it\<lparr>en_commands := en_commands it @ [cmd]\<rparr>) (fst c), snd c) else c)"

definition actor_run :: "string \<Rightarrow> 'w Manager \<times> 'w \<Rightarrow> 'w Manager \<times> 'w" where
  "actor_run i c = process (fst c) i (snd c)"

lemma client_send_reachable: "mgr_reachable m0 c \<Longrightarrow> mgr_reachable m0 (client_send i uid cmd c)"
  by (cases c) (auto simp: client_send_def split: sum.split intro: mgr_reachable.step mgr_step.send)

lemma actor_run_reachable: "mgr_reachable m0 c \<Longrightarrow> mgr_reachable m0 (actor_run i c)"
  by (cases c; cases "actor_run i c") (auto simp: actor_run_def intro: mgr_reachable.step mgr_step.actor)

definition example_run :: "int world Manager \<times> int world" where
  "example_run = (actor_run example_id ^^ 2)
     (client_send example_id 1000 (CmdTransition PhasePreflighted)
       (client_send example_id 1000 (CmdSubscribe 1) example_created))"

lemma example_run_reachable: "mgr_reachable example_manager (fst example_run, snd example_run)"
  using example_created_reachable
  by (simp add: example_run_def numeral_2_eq_2 client_send_reachable actor_run_reachable)

lemma example_run_entry:
  "case map_of (mg_entries (fst example_run)) example_id of None \<Rightarrow> False
   | Some it \<Rightarrow> se_phase (en_session it) = PhasePreflighted \<and> en_subscribers it = [1] \<and>
       (case map_of (en_states it) 1 of None \<Rightarrow> False | Some st \<Rightarrow> map ev_Sequence (ss_events st) = [2])"
  by code_simp

lemma example_run_lookup:
  obtains it st where "map_of (mg_entries (fst example_run)) example_id = Some it"
    "se_phase (en_session it) = PhasePreflighted" "1 \<in> set (en_subscribers it)"
    "map_of (en_states it) 1 = Some st" "map ev_Sequence (ss_events st) = [2]"
  using example_run_entry that by (auto split: option.splits)

subsection \<open>Statements\<close>



text \<open>C20: Per-owner quota.  In every reachable state of the manager no user owns more live
  sessions than the configured quota.\<close>

theorem owner_quota:
  assumes "store_manager now newID quota m0" "mgr_reachable m0 (m, w)"
  shows "length (owned_entries uid m) \<le> quota"
  using store_reachable_inv [OF assms] by (simp add: mgr_inv_def)

theorem owner_quota_witness:
  "length (owned_entries 1000 (fst example_run)) \<le> 2 \<and>
   map_of (mg_entries (fst example_run)) example_id \<noteq> None"
  using owner_quota [OF example_store_manager example_run_reachable] example_run_lookup
  by (metis option.distinct(1))

text \<open>C21: One cleanup attempt at a time.  A session's bounded command queue never holds two
  cleanup commands, none at all unless a cleanup attempt is open, and none while the open
  attempt is still waiting to be admitted.\<close>

theorem single_cleanup_attempt:
  assumes "store_manager now newID quota m0" "mgr_reachable m0 (m, w)"
    and "map_of (mg_entries m) i = Some it"
  shows "length (en_commands it) \<le> maxCommandQueue \<and>
    length (filter is_cleanup (en_commands it)) = of_bool (en_cleanup it \<and> \<not> en_admitting it) \<and>
    (en_admitting it \<longrightarrow> en_cleanup it)"
  using mgr_inv_lookup [OF store_reachable_inv(1) [OF assms(1,2)] assms(3)]
  by (auto simp: entry_ok_def of_bool_def split: if_splits)

theorem single_cleanup_attempt_witness:
  "\<exists>it. map_of (mg_entries (fst example_run)) example_id = Some it \<and>
     length (filter is_cleanup (en_commands it)) = of_bool (en_cleanup it \<and> \<not> en_admitting it)"
  by (rule example_run_lookup)
    (use single_cleanup_attempt [OF example_store_manager example_run_reachable, of example_id] in blast)

text \<open>C22: Subscribers see no gaps.  What a live subscriber has read and what waits in its
  channel is, in order, a contiguous run of the session's journal up to its newest event, and
  never more than a channel's worth is waiting.\<close>

theorem subscriber_contiguous:
  assumes "store_manager now newID quota m0" "mgr_reachable m0 (m, w)"
    and "map_of (mg_entries m) i = Some it"
    and "j \<in> set (en_subscribers it)" "map_of (en_states it) j = Some st"
  shows "(\<exists>k. ss_received st @ ss_events st = drop k (se_events (en_session it))) \<and>
    length (ss_events st) \<le> maxSubscriberQueue"
proof -
  have "sub_ok (en_session it) st"
    using mgr_inv_lookup [OF store_reachable_inv(1) [OF assms(1,2)] assms(3)] assms(4,5)
    by (auto simp: entry_ok_def entry_inv_def subs_ok_def)
  then show ?thesis by (metis sub_ok_def append_eq_conv_conj)
qed

theorem subscriber_contiguous_witness:
  "\<exists>it st. map_of (mg_entries (fst example_run)) example_id = Some it \<and>
     map_of (en_states it) 1 = Some st \<and> map ev_Sequence (ss_events st) = [2] \<and>
     (\<exists>k. ss_received st @ ss_events st = drop k (se_events (en_session it)))"
  by (rule example_run_lookup)
    (use subscriber_contiguous [OF example_store_manager example_run_reachable, of example_id _ 1] in metis)

text \<open>C17: Journal operations are transactions.  If a lifecycle transition reports an error,
  from the state machine or from the store, the entry is exactly what it was and the reported
  snapshot is the old one; if it succeeds, the session is the old one plus one event, that
  session is what the store now holds, and it is what the caller gets.\<close>

theorem transition_transactional:
  assumes "transition m dst co it w = ((sn, err), it', w')" "mg_save m = Save"
  shows "(case err of
      Some e \<Rightarrow> it' = it \<and> sn = Snapshot (en_session it)
    | None \<Rightarrow> (\<exists>e. en_session it' = with_event (en_session it) e \<and> ev_Phase e = dst \<and>
        sn = Snapshot (en_session it') \<and> stored w' (se_id (en_session it)) = Some sn))"
proof (cases err)
  case (Some e)
  with assms(1) show ?thesis by (auto elim!: transition_cases)
next
  case None
  obtain w1 now where now: "mg_now m w = (w1, now)" by fastforce
  from None assms(1) now obtain e s' where t: "transitionLifecycle dst co now (en_session it) = Inr (e, s')"
    by (auto simp: transition_def Let_def split: sum.splits)
  with None assms now have "Save (Snapshot s') w1 = (w', None)" "sn = Snapshot s'" "en_session it' = s'"
    by (auto simp: transition_def Let_def split: prod.splits option.splits)
  with store.save_ok [of "Snapshot s'" w1 w'] t None show ?thesis by (auto simp: transitionLifecycle_extend)
qed

definition example_entry :: "int world entry" where
  "example_entry = the (map_of (mg_entries (fst example_run)) example_id)"

lemma example_entry_lookup: "map_of (mg_entries (fst example_run)) example_id = Some example_entry"
  unfolding example_entry_def by (rule example_run_lookup) simp

theorem transition_transactional_witness:
  "\<exists>sn it' w'. transition (fst example_run) PhaseAborting True example_entry (snd example_run) = ((sn, None), it', w') \<and>
     sn = Snapshot (en_session it') \<and> stored w' (se_id (en_session example_entry)) = Some sn"
proof -
  let ?t = "transition (fst example_run) PhaseAborting True example_entry (snd example_run)"
  have "snd (fst ?t) = None" by code_simp
  then obtain sn it' w' where t: "?t = ((sn, None), it', w')" by (metis prod.collapse)
  moreover have "mg_save (fst example_run) = Save"
    by (rule store_reachable_inv(3) [OF example_store_manager example_run_reachable])
  ultimately show ?thesis using transition_transactional [OF t] by auto
qed

text \<open>C6: Isolation between users.  One call by an unprivileged user never changes a session
  another user owns: not its journal, its queue, its resources or its subscribers.\<close>

theorem foreign_sessions_untouched:
  assumes "mgr_step (Client uid) (m, w) (m', w')" "uid \<noteq> 0"
    and "map_of (mg_entries m) i = Some it" "se_ownerUID (en_session it) \<noteq> uid"
  shows "map_of (mg_entries m') i = Some it"
  using assms(1)
proof (cases rule: mgr_step.cases)
  case (create r res)
  then have "m' = m \<or> (\<exists>j s. map_of (mg_entries m) j = None \<and> m' = put_entry j (new_entry s) m)"
    using create_attempt_result [of maxIDAttempts m uid r w res m' w']
    by (auto simp: CreateSession_def split: option.splits if_splits)
  with assms(3) show ?thesis by (auto simp: put_entry_def update_conv')
next
  case (send j it' cmd)
  with assms(2-) show ?thesis by (auto simp: authorizedEntry_Inr put_entry_def update_conv')
next
  case (cleanup j it')
  with assms(2-) show ?thesis by (auto simp: authorizedEntry_Inr put_entry_def update_conv')
qed

theorem foreign_sessions_untouched_witness:
  "\<exists>sn c. CreateSession (fst example_run) 1001 RoleScanner (snd example_run) = (Inr sn, c) \<and>
     mgr_step (Client 1001) (fst example_run, snd example_run) (fst c, snd c) \<and>
     map_of (mg_entries (fst c)) example_id = Some example_entry"
proof -
  let ?c = "CreateSession (fst example_run) 1001 RoleScanner (snd example_run)"
  have "is_ok (fst ?c)" "se_ownerUID (en_session example_entry) = 1000" by code_simp+
  then obtain sn where sn: "?c = (Inr sn, fst (snd ?c), snd (snd ?c))" by (auto simp: is_ok_iff prod_eq_iff)
  then have "mgr_step (Client 1001) (fst example_run, snd example_run) (fst (snd ?c), snd (snd ?c))"
    by (rule mgr_step.create)
  moreover from foreign_sessions_untouched [OF this _ example_entry_lookup]
    \<open>se_ownerUID (en_session example_entry) = 1000\<close>
  have "map_of (mg_entries (fst (snd ?c))) example_id = Some example_entry" by simp
  ultimately show ?thesis using sn by (metis fst_conv snd_conv)
qed

section \<open>Cleanup\<close>

text \<open>C8: Cleanup order.  The index loop of a cleanup does what the reference does: it runs
  the steps not yet done, last registered first, each one's cleanup and then its audit, and
  stops at the first failure.\<close>

theorem cleanup_reverse_order:
  "(\<lambda>(ok, steps', w'). (ok, w')) (cleanupSteps (length steps) steps w) =
     cleanup_all (rev (filter (\<lambda>step. \<not> st_done step) steps)) w"
  using cleanupSteps_all [of "length steps" steps w] by (cases "cleanupSteps (length steps) steps w") simp

text \<open>C9: Cleanup progress is kept.  After a cleanup attempt the steps from some index on are
  marked done and those before it are as they were; the attempt got through exactly when that
  index is the first step, and otherwise the step just before it is the one that failed, so a
  retry resumes there and repeats no step that completed.\<close>

theorem cleanup_resumes:
  assumes "cleanupSteps (length steps) steps w = (ok, steps', w')"
  shows "\<exists>k\<le>length steps. steps' = take k steps @ map mark_done (drop k steps) \<and>
    (if ok then k = 0 else 0 < k \<and> \<not> st_done (steps ! (k - 1)))"
  using cleanupSteps_marks [OF assms] by auto

definition logging_step :: "string \<Rightarrow> bool \<Rightarrow> string list cleanupStep" where
  "logging_step name fails = \<lparr>st_name = name, st_cleanup = (\<lambda>w. (w @ [name], if fails then Some notExist else None)),
     st_audit = (\<lambda>w. (w, None)), st_done = False\<rparr>"

definition example_steps :: "string list cleanupStep list" where
  "example_steps = [logging_step ''a'' False, logging_step ''b'' True, logging_step ''c'' False]"

theorem cleanup_resumes_witness:
  "\<exists>k steps'. cleanupSteps (length example_steps) example_steps [] = (False, steps', [''c'', ''b'']) \<and>
    0 < k \<and> k \<le> length example_steps \<and> steps' = take k example_steps @ map mark_done (drop k example_steps)"
proof -
  have run: "cleanupSteps (length example_steps) example_steps [] =
      (False, example_steps[2 := mark_done (logging_step ''c'' False)], [''c'', ''b''])"
    by (simp add: example_steps_def logging_step_def eval_nat_numeral)
  from cleanup_resumes [OF run] run show ?thesis by auto
qed

text \<open>C2: Destroyed means gone.  If a cleanup reports success then every registered step is done,
  the volatile record was removed before the final clock reading, and the snapshot handed out
  is that session in phase DESTROYED.\<close>

theorem destroyed_after_everything:
  assumes "cleanupEntry m it w = ((sn, None), it', w')" "mg_remove m = Remove"
  shows "list_all st_done (en_steps it') \<and> map st_name (en_steps it') = map st_name (en_steps it) \<and>
    sn_Phase sn = PhaseDestroyed \<and> sn_ID sn = se_id (en_session it) \<and>
    (\<exists>w2. stored w2 (se_id (en_session it)) = None \<and> w' = fst (mg_now m w2))"
  using assms(1)
proof (rule cleanupEntry_destroyed)
  fix wa steps w1 w2 now
  assume s: "cleanupSteps (length (en_steps it)) (en_steps it) wa = (True, steps, w1)"
    and rm: "mg_remove m (se_id (en_session it)) w1 = (w2, None)" "mg_now m w2 = (w', now)"
    and fin: "en_steps it' = steps" "sn_Phase sn = PhaseDestroyed" "sn_ID sn = se_id (en_session it)"
  have "stored w2 (se_id (en_session it)) = None" using rm(1) assms(2) store.remove_ok by metis
  moreover have "w' = fst (mg_now m w2)" using rm(2) by simp
  moreover have "list_all st_done (en_steps it')"
    using cleanupSteps_marks [OF s] fin(1) by (auto simp: list_all_iff)
  moreover have "map st_name (en_steps it') = map st_name (en_steps it)"
    using cleanupSteps_names [OF s] fin(1) by simp
  ultimately show ?thesis using fin by blast
qed

theorem destroyed_after_everything_witness:
  "\<exists>sn it' w'. cleanupEntry (fst example_run) example_entry (snd example_run) = ((sn, None), it', w') \<and>
     sn_Phase sn = PhaseDestroyed \<and> list_all st_done (en_steps it')"
proof -
  let ?t = "cleanupEntry (fst example_run) example_entry (snd example_run)"
  have "snd (fst ?t) = None" by code_simp
  then obtain sn it' w' where t: "?t = ((sn, None), it', w')" by (metis prod.collapse)
  moreover have "mg_remove (fst example_run) = Remove"
    by (rule store_reachable_inv(4) [OF example_store_manager example_run_reachable])
  ultimately show ?thesis using destroyed_after_everything [OF t] by auto
qed


end
