(* ===== verification/Session_Cleanup.thy ===== *)
theory Session_Cleanup
  imports Session_Safety
begin

text \<open>
  When a cleanup is accepted, when it is blocked and when it completes: the event reserve, a
  clock behind the journal, and convergence on a journal that works.  The contract of such a
  journal extends that of \<open>journal_store\<close>; the volatile store on a quiet file system meets it.
\<close>

lemma reachable_sequences:
  "reachable_session s \<Longrightarrow> k < length (se_events s) \<Longrightarrow> ev_Sequence (se_events s ! k) = of_nat (Suc k)"
proof (induction arbitrary: k rule: reachable_session.induct)
  case (created i uid r now s)
  then show ?case by (auto simp: newOwned_Inr_iff creation_event_def)
next
  case (lifecycle s now co dst e s')
  from valid_journal_sequence [OF reachable_journal_valid [OF lifecycle.hyps(1)]] lifecycle show ?case
    by (auto simp: transitionLifecycle_extend nth_append less_Suc_eq)
next
  case (workflow s now dst e s')
  from valid_journal_sequence [OF reachable_journal_valid [OF workflow.hyps(1)]] workflow show ?case
    by (auto simp: transitionWorkflow_extend nth_append less_Suc_eq)
qed

lemma filter_eq_drop:
  assumes "\<And>k. k < length xs \<Longrightarrow> P (xs ! k) \<longleftrightarrow> n \<le> k"
  shows "filter P xs = drop n xs"
proof -
  have "filter P (take n xs) = []" "filter P (drop n xs) = drop n xs"
    using assms by (auto simp: filter_empty_conv filter_id_conv in_set_conv_nth)
  then show ?thesis using filter_append [of P "take n xs" "drop n xs"] by simp
qed

text \<open>Replay from a cursor.  Subscribing after sequence number \<open>n\<close> replays exactly the events
  \<open>n + 1, n + 2, \<dots>\<close> of the journal, and the new subscriber starts with an empty channel.\<close>

theorem subscribe_replay:
  assumes "subscribe after it = (it', Inr sub)" "reachable_session (en_session it)"
  shows "sub_replay sub = drop (unat after) (se_events (en_session it)) \<and>
    map_option (\<lambda>st. (ss_received st, ss_events st)) (map_of (en_states it') (sub_id sub)) = Some ([], []) \<and>
    after \<le> se_sequence (en_session it)"
proof -
  have len: "length (se_events (en_session it)) \<le> 4096"
    using reachable_journal_valid [OF assms(2)] by (simp add: validateSnapshot_None_iff session_limits)
  have "filter (\<lambda>e. ev_Sequence e > after) (se_events (en_session it)) = drop (unat after) (se_events (en_session it))"
  proof (rule filter_eq_drop)
    fix k assume k: "k < length (se_events (en_session it))"
    then have "unat (of_nat (Suc k) :: u64) = Suc k" using len by (intro unat_of_nat_small) simp
    then show "after < ev_Sequence (se_events (en_session it) ! k) \<longleftrightarrow> unat after \<le> k"
      by (simp add: reachable_sequences [OF assms(2) k] word_less_nat_alt less_Suc_eq_le del: of_nat_Suc)
  qed
  with assms(1) show ?thesis by (auto simp: subscribe_def Let_def split: if_splits)
qed

theorem subscribe_replay_witness:
  "\<exists>it' sub. subscribe 1 example_entry = (it', Inr sub) \<and>
     sub_replay sub = drop (unat (1 :: u64)) (se_events (en_session example_entry)) \<and> length (sub_replay sub) = 1"
proof -
  have "case subscribe 1 example_entry of (_, Inl _) \<Rightarrow> False | (_, Inr sub) \<Rightarrow> length (sub_replay sub) = 1"
    by code_simp
  then obtain it' sub where s: "subscribe 1 example_entry = (it', Inr sub)" "length (sub_replay sub) = 1"
    by (auto split: prod.splits sum.splits)
  have "reachable_session (en_session example_entry)"
    using mgr_inv_lookup [OF store_reachable_inv(1) [OF example_store_manager example_run_reachable]
      example_entry_lookup] by (simp add: entry_ok_def entry_inv_def)
  with s subscribe_replay [OF s(1)] show ?thesis by blast
qed

text \<open>The phase a cleanup moves a session to next.\<close>

definition cleanup_next :: "phase \<Rightarrow> phase" where
  "cleanup_next ph = (if ph = PhaseDestroying then PhaseDestroyed
     else if ph = PhaseStopping \<or> ph = PhaseAborting then PhaseDestroying else PhaseAborting)"

lemma reachable_known: "reachable_session s \<Longrightarrow> validPhase (se_phase s)"
  using reachable_journal_valid [of s] by (simp add: validateSnapshot_None_iff)

lemma cleanup_next_allowed:
  "validPhase ph \<Longrightarrow> ph \<noteq> PhaseDestroyed \<Longrightarrow>
   cleanup_next ph \<in> set (lifecycleTransitions ph) \<and> eventBudget ph < maxSessionEvents"
  by (cases ph) (auto simp: cleanup_next_def session_limits)

lemma cleanup_accepted:
  assumes "reachable_session s" "se_phase s \<noteq> PhaseDestroyed"
  shows "is_ok (transitionLifecycle (cleanup_next (se_phase s)) True now s)"
proof -
  have "length (se_events s) < maxSessionEvents"
    using reachable_room [OF assms(1)] cleanup_next_allowed [OF reachable_known [OF assms(1)] assms(2)]
    by linarith
  then have "requireEventRoom True s = None" by (simp add: requireEventRoom_None_iff)
  moreover obtain code message where "lifecycleEvents (cleanup_next (se_phase s)) = Some (code, message)"
    using lifecycle_step_known cleanup_next_allowed [OF reachable_known [OF assms(1)] assms(2)] by fast
  ultimately show ?thesis
    using cleanup_next_allowed [OF reachable_known [OF assms(1)] assms(2)]
    by (auto simp: is_ok_iff transitionLifecycle_Inr_iff)
qed


text \<open>C10: Cleanup is never refused.  However long a session's history is, the state machine
  accepts the next cleanup transition of every session that is not destroyed yet: the
  reserve that other events leave free always has room for it.\<close>

theorem cleanup_never_refused:
  assumes "reachable_session s" "se_phase s \<noteq> PhaseDestroyed"
  shows "is_ok (transitionLifecycle (cleanup_next (se_phase s)) True now s)"
  using assms by (rule cleanup_accepted)

theorem cleanup_never_refused_witness:
  "\<exists>s. run_new RoleExporter [OpLifecycle PhasePreflighted False, OpLifecycle PhaseAborting True] = Inr s \<and>
     is_ok (transitionLifecycle (cleanup_next (se_phase s)) True 3 s)"
proof -
  let ?ops = "[OpLifecycle PhasePreflighted False, OpLifecycle PhaseAborting True]"
  have "case run_new RoleExporter ?ops of Inl _ \<Rightarrow> False | Inr s \<Rightarrow> se_phase s \<noteq> PhaseDestroyed" by code_simp
  then obtain s where s: "run_new RoleExporter ?ops = Inr s" "se_phase s \<noteq> PhaseDestroyed"
    by (auto split: sum.splits)
  have "reachable_session s" by (rule run_new_reachable [OF s(1)]) (simp add: cleanupTarget_def)
  from cleanup_never_refused [OF this s(2)] s(1) show ?thesis by blast
qed

text \<open>C24: A clock behind the journal blocks cleanup.  While the wall clock reads earlier than the
  session's newest event, every cleanup attempt of a session that is not yet in phase
  DESTROYING ends with an error before its first step: the store refuses the record the attempt
  tries to save, so no resource is released and the session keeps its phase.\<close>

theorem clock_regression_blocks_cleanup:
  assumes "mg_save m = Save" "reachable_session (en_session it)"
    and "se_phase (en_session it) \<noteq> PhaseDestroying"
    and "\<And>w. snd (mg_now m w) < se_updatedAt (en_session it)"
  shows "\<exists>e. snd (fst (cleanupEntry m it w)) = Some e \<and>
    fst (snd (cleanupEntry m it w)) = it\<lparr>en_accepting := False\<rparr>"
proof -
  let ?it = "it\<lparr>en_accepting := False\<rparr>"
  have fails: "\<exists>sn e w'. transition m dst True ?it v = ((sn, Some e), ?it, w')" for dst v
  proof -
    obtain r it' w' where t: "transition m dst True ?it v = (r, it', w')" by (metis prod_cases3)
    from t show ?thesis
    proof (cases rule: transition_cases)
      case (committed now' e s')
      then have s': "s' = with_event (en_session it) e" by (simp add: transitionLifecycle_extend)
      with committed assms(1) store.save_ok have "validateSnapshot (Snapshot (with_event (en_session it) e)) = None"
        by (auto simp: committed_def)
      with valid_journal_time reachable_journal_valid [OF assms(2)]
      have "se_updatedAt (en_session it) \<le> ev_Time e" by blast
      moreover from committed have "ev_Time e = snd (mg_now m v)" by (simp add: transitionLifecycle_extend)
      ultimately show ?thesis using assms(4) [of v] by simp
    qed (use t in simp)
  qed
  show ?thesis
    using fails [of PhaseAborting w] fails [of PhaseDestroying w] assms(3)
    by (cases "se_phase (en_session it) \<noteq> PhaseStopping \<and> se_phase (en_session it) \<noteq> PhaseAborting")
      (auto simp: cleanupEntry_def Let_def)
qed

theorem clock_regression_blocks_cleanup_witness:
  "\<exists>s e. run_new RoleExporter [OpLifecycle PhasePreflighted False] = Inr s \<and>
     fst (snd (cleanupEntry (example_manager\<lparr>mg_now := (\<lambda>w. (w, 6))\<rparr>) (new_entry s) example_start)) =
       new_entry s\<lparr>en_accepting := False\<rparr> \<and>
     snd (fst (cleanupEntry (example_manager\<lparr>mg_now := (\<lambda>w. (w, 6))\<rparr>) (new_entry s) example_start)) = Some e"
proof -
  have "case run_new RoleExporter [OpLifecycle PhasePreflighted False] of Inl _ \<Rightarrow> False
    | Inr s \<Rightarrow> se_phase s \<noteq> PhaseDestroying \<and> se_updatedAt s = 7" by code_simp
  then obtain s where s: "run_new RoleExporter [OpLifecycle PhasePreflighted False] = Inr s"
    "se_phase s \<noteq> PhaseDestroying" "se_updatedAt s = 7" by (auto split: sum.splits)
  have "reachable_session s" by (rule run_new_reachable [OF s(1)]) simp
  with clock_regression_blocks_cleanup [of "example_manager\<lparr>mg_now := (\<lambda>w. (w, 6))\<rparr>" "new_entry s" example_start] s
  show ?thesis by (auto simp: example_manager_def new_entry_def)
qed

section \<open>Liveness\<close>

text \<open>
  A journal that works: in a world that is \<open>ready\<close> for a session, saving a valid record and
  removing the session succeed, and saving neither spoils readiness nor turns the clock back.
\<close>

locale journal_store_live = journal_store create save remove record_of
  for create save :: "snapshot \<Rightarrow> 'w action" and remove :: "string \<Rightarrow> 'w action"
    and record_of :: "'w \<Rightarrow> string \<Rightarrow> snapshot option" +
  fixes ready :: "string \<Rightarrow> 'w \<Rightarrow> bool" and clock :: "'w \<Rightarrow> time"
  assumes save_live: "ready (sn_ID sn) w \<Longrightarrow> validateSnapshot sn = None \<Longrightarrow>
      \<exists>w'. save sn w = (w', None) \<and> ready (sn_ID sn) w' \<and> clock w' = clock w"
    and remove_live: "ready i w \<Longrightarrow> \<exists>w'. remove i w = (w', None)"

text \<open>A step whose cleanup and audit succeed in every ready world and keep it ready.\<close>

definition live_action :: "(string \<Rightarrow> 'w \<Rightarrow> bool) \<Rightarrow> ('w \<Rightarrow> time) \<Rightarrow> string \<Rightarrow> 'w action \<Rightarrow> bool" where
  "live_action ready clock i act \<longleftrightarrow>
     (\<forall>w. ready i w \<longrightarrow> (\<exists>w'. act w = (w', None) \<and> ready i w' \<and> clock w \<le> clock w'))"

definition live_step :: "(string \<Rightarrow> 'w \<Rightarrow> bool) \<Rightarrow> ('w \<Rightarrow> time) \<Rightarrow> string \<Rightarrow> 'w cleanupStep \<Rightarrow> bool" where
  "live_step ready clock i step \<longleftrightarrow>
     live_action ready clock i (st_cleanup step) \<and> live_action ready clock i (st_audit step)"

lemma cleanup_all_live:
  assumes "\<forall>step\<in>set steps. live_step ready clock i step" "ready i w"
  shows "\<exists>w'. cleanup_all steps w = (True, w') \<and> ready i w' \<and> clock w \<le> clock w'"
  using assms
proof (induction steps arbitrary: w)
  case (Cons step steps)
  from Cons.prems obtain w1 where c: "st_cleanup step w = (w1, None)" "ready i w1" "clock w \<le> clock w1"
    by (auto simp: live_step_def live_action_def)
  with Cons.prems obtain w2 where a: "st_audit step w1 = (w2, None)" "ready i w2" "clock w1 \<le> clock w2"
    by (auto simp: live_step_def live_action_def)
  from Cons.IH [OF _ a(2)] Cons.prems(1) c a show ?case by (auto intro: order_trans)
qed simp

context journal_store_live
begin

lemma transition_live:
  assumes cfg: "mg_save m = save" "\<And>w. mg_now m w = (w, clock w)"
    and inv: "entry_inv it" "ready (se_id (en_session it)) w" "se_updatedAt (en_session it) \<le> clock w"
    and dst: "dst = cleanup_next (se_phase (en_session it))" "se_phase (en_session it) \<noteq> PhaseDestroyed"
  shows "\<exists>sn it' w'. transition m dst True it w = ((sn, None), it', w') \<and> entry_inv it' \<and>
    ready (se_id (en_session it')) w' \<and> se_updatedAt (en_session it') \<le> clock w' \<and>
    se_phase (en_session it') = dst \<and> en_steps it' = en_steps it \<and> se_id (en_session it') = se_id (en_session it)"
proof -
  have "reachable_session (en_session it)" using inv(1) by (simp add: entry_inv_def)
  from cleanup_accepted [OF this dst(2), of "clock w"] dst(1) obtain e s' where
    t: "transitionLifecycle dst True (clock w) (en_session it) = Inr (e, s')" by (auto simp: is_ok_iff)
  have s': "se_id s' = se_id (en_session it)" "se_phase s' = dst" "se_updatedAt s' = clock w"
    using t by (auto simp: transitionLifecycle_extend)
  have "cleanupTarget dst" unfolding dst(1) by (simp add: cleanup_next_def cleanupTarget_def)
  with t inv have "reachable_session s'"
    unfolding entry_inv_def by (blast intro: reachable_session.lifecycle)
  from save_live [of "Snapshot s'" w] reachable_journal_valid [OF this] inv(2) s'(1) obtain w' where
    w': "save (Snapshot s') w = (w', None)" "ready (se_id s') w'" "clock w' = clock w" by auto
  have run: "transition m dst True it w = ((Snapshot s', None), publish e (it\<lparr>en_session := s'\<rparr>), w')"
    by (simp add: transition_def Let_def cfg t w')
  with transition_inv [OF run cfg(1)] \<open>cleanupTarget dst\<close> inv(1) s' w' show ?thesis by simp
qed

lemma cleanup_resources_live:
  assumes cfg: "mg_remove m = remove"
    and inv: "entry_inv it" "se_phase (en_session it) = PhaseDestroying" "ready (se_id (en_session it)) w"
    and steps: "\<forall>step\<in>set (en_steps it). live_step ready clock (se_id (en_session it)) step"
  shows "snd (fst (cleanup_resources m it w)) = None"
proof -
  obtain ok steps' w1 where c: "cleanupSteps (length (en_steps it)) (en_steps it) w = (ok, steps', w1)"
    by (metis prod_cases3)
  have "ok \<and> ready (se_id (en_session it)) w1"
    using cleanup_all_live [of "rev (pending (en_steps it))" ready clock "se_id (en_session it)" w]
      cleanupSteps_all [OF c] steps inv(3) by auto
  moreover from this remove_live obtain w2 where "remove (se_id (en_session it)) w1 = (w2, None)" by blast
  moreover obtain w3 now where "mg_now m w2 = (w3, now)" by fastforce
  moreover have "is_ok (transitionLifecycle PhaseDestroyed True now (en_session it))"
    using cleanup_accepted [of "en_session it" now] inv(1,2) by (simp add: entry_inv_def cleanup_next_def)
  ultimately show ?thesis by (auto simp: cleanup_resources_def c cfg is_ok_iff Let_def)
qed

text \<open>A cleanup attempt in a ready world, with live steps and a clock not behind, completes.\<close>

lemma cleanupEntry_live:
  assumes cfg: "mg_save m = save" "mg_remove m = remove" "\<And>w. mg_now m w = (w, clock w)"
    and inv: "entry_inv it" "se_phase (en_session it) \<noteq> PhaseDestroyed"
      "ready (se_id (en_session it)) w" "se_updatedAt (en_session it) \<le> clock w"
    and steps: "\<forall>step\<in>set (en_steps it). live_step ready clock (se_id (en_session it)) step"
  shows "snd (fst (cleanupEntry m it w)) = None"
proof -
  let ?it0 = "it\<lparr>en_accepting := False\<rparr>" and ?ph = "se_phase (en_session it)"
  note trans = transition_live [OF cfg(1,3)]
  have destroy: "snd (fst (cleanup_resources m it2 w2)) = None \<and> r = None"
    if "transition m PhaseDestroying True it1 w1 = ((sn, r), it2, w2)" "entry_inv it1"
      "ready (se_id (en_session it)) w1" "se_updatedAt (en_session it1) \<le> clock w1"
      "se_phase (en_session it1) = PhaseStopping \<or> se_phase (en_session it1) = PhaseAborting"
      "en_steps it1 = en_steps it" "se_id (en_session it1) = se_id (en_session it)" for it1 w1 sn r it2 w2
    using trans [of it1 w1 PhaseDestroying] that steps cleanup_resources_live [OF cfg(2), of it2 w2]
    by (auto simp: cleanup_next_def)
  consider "?ph = PhaseDestroying" | "?ph = PhaseStopping \<or> ?ph = PhaseAborting"
    | "?ph \<noteq> PhaseDestroying" "?ph \<noteq> PhaseStopping" "?ph \<noteq> PhaseAborting" by blast
  then show ?thesis
  proof cases
    case 1
    with cleanup_resources_live [OF cfg(2), of ?it0 w] inv steps show ?thesis
      by (simp add: cleanupEntry_def Let_def)
  next
    case 2
    obtain sn r it2 w2 where t: "transition m PhaseDestroying True ?it0 w = ((sn, r), it2, w2)"
      by (metis prod_cases3 surj_pair)
    with destroy [OF t] 2 inv show ?thesis by (auto simp: cleanupEntry_def Let_def)
  next
    case 3
    from trans [of ?it0 w PhaseAborting] 3 inv obtain sn1 it1 w1 where
      t1: "transition m PhaseAborting True ?it0 w = ((sn1, None), it1, w1)" "entry_inv it1"
        "ready (se_id (en_session it)) w1" "se_updatedAt (en_session it1) \<le> clock w1"
        "se_phase (en_session it1) = PhaseAborting" "en_steps it1 = en_steps it"
        "se_id (en_session it1) = se_id (en_session it)"
      by (auto simp: cleanup_next_def)
    obtain sn r it2 w2 where t: "transition m PhaseDestroying True it1 w1 = ((sn, r), it2, w2)"
      by (metis prod_cases3 surj_pair)
    with destroy [OF t] t1 3 show ?thesis by (simp add: cleanupEntry_def Let_def)
  qed
qed

end

text \<open>
  The volatile store is such a journal on a quiet file system: the session's directory is
  there with nothing foreign in it and no removal of it is half done.  The clock is any
  function of what else the world holds.
\<close>

definition quiet :: "string \<Rightarrow> 'x world \<Rightarrow> bool" where
  "quiet i w \<longleftrightarrow> fw_script w = [] \<and> ValidateID i = None \<and> dir_of w (removing i) = None \<and>
     (\<exists>d. dir_of w i = Some d \<and> sd_other d = [])"

lemma put_dir_more [simp]:
  "fs_world.more (put_dir i d w) = fs_world.more w" "fw_script (put_dir i d w) = fw_script w"
  "fw_script (del_dir i w) = fw_script w"
  by (simp_all add: put_dir_def del_dir_def)

lemma Save_live:
  assumes q: "quiet (sn_ID sn) w" and v: "validateSnapshot sn = None"
  shows "\<exists>w'. Save sn w = (w', None) \<and> quiet (sn_ID sn) w' \<and> fs_world.more w' = fs_world.more w"
proof -
  from q obtain d where d: "fw_script w = []" "ValidateID (sn_ID sn) = None" "dir_of w (sn_ID sn) = Some d"
    "sd_other d = []" "dir_of w (removing (sn_ID sn)) = None" by (auto simp: quiet_def)
  let ?w1 = "put_dir (sn_ID sn) (d\<lparr>sd_temp := False\<rparr>) w"
  let ?w2 = "put_dir (sn_ID sn) (d\<lparr>sd_temp := True\<rparr>) ?w1"
  let ?w' = "put_dir (sn_ID sn) (d\<lparr>sd_temp := False, sd_meta := Some sn\<rparr>) ?w2"
  have "Save sn w = (?w', None)"
    using d v by (simp add: Save_def encodeSnapshot_def openRoot_def openSession_def saveAt_def
        verifySessionEntries_def sys_quiet Let_def)
  moreover have "quiet (sn_ID sn) ?w'"
    using d removing_neq [of "sn_ID sn"] by (simp add: quiet_def)
  ultimately show ?thesis by simp
qed

lemma Remove_live: "quiet i w \<Longrightarrow> \<exists>w'. Remove i w = (w', None)"
  by (auto simp: quiet_def Remove_def openRoot_def openSession_def verifySessionEntries_def
      unlinkEntries_def sys_quiet Let_def)

interpretation store_live: journal_store_live Create Save Remove stored quiet "\<lambda>w. clk (fs_world.more w)"
  for clk :: "'x \<Rightarrow> time"
proof unfold_locales
  fix sn :: snapshot and w :: "'x world" and i
  show "quiet (sn_ID sn) w \<Longrightarrow> validateSnapshot sn = None \<Longrightarrow>
      \<exists>w'. Save sn w = (w', None) \<and> quiet (sn_ID sn) w' \<and> clk (fs_world.more w') = clk (fs_world.more w)"
    by (drule (1) Save_live) auto
  show "quiet i w \<Longrightarrow> \<exists>w'. Remove i w = (w', None)" by (rule Remove_live)
qed

text \<open>C7: Cleanup converges.  On a quiet file system, with a clock that is not behind the journal
  and resources whose cleanup and audit succeed, one cleanup attempt takes a session in any
  phase, including one left by an interrupted earlier attempt, all the way to DESTROYED.\<close>

theorem cleanup_converges:
  assumes "mg_save m = Save" "mg_remove m = Remove" "\<And>w. mg_now m w = (w, clk (fs_world.more w))"
    and "entry_inv it" "se_phase (en_session it) \<noteq> PhaseDestroyed"
    and "quiet (se_id (en_session it)) w" "se_updatedAt (en_session it) \<le> clk (fs_world.more w)"
    and "\<forall>step\<in>set (en_steps it). live_step quiet (\<lambda>w. clk (fs_world.more w)) (se_id (en_session it)) step"
  shows "\<exists>sn it' w'. cleanupEntry m it w = ((sn, None), it', w') \<and> sn_Phase sn = PhaseDestroyed"
proof -
  have "snd (fst (cleanupEntry m it w)) = None"
    using assms by (rule store_live.cleanupEntry_live)
  then obtain sn it' w' where "cleanupEntry m it w = ((sn, None), it', w')" by (metis prod.collapse)
  then show ?thesis by (meson cleanupEntry_destroyed)
qed

definition example_step :: "int world cleanupStep" where
  "example_step = \<lparr>st_name = ''disk'', st_cleanup = (\<lambda>w. (w\<lparr>fs_world.more := fs_world.more w + 3\<rparr>, None)),
     st_audit = (\<lambda>w. (w, None)), st_done = False\<rparr>"

lemma example_step_live: "live_step quiet (\<lambda>w. id (fs_world.more w)) i example_step"
  by (auto simp: live_step_def live_action_def example_step_def quiet_def dir_of_def)

theorem cleanup_converges_witness:
  "\<exists>s w sn it' w'. run_new RoleExporter [OpLifecycle PhasePreflighted False] = Inr s \<and>
     cleanupEntry (example_manager\<lparr>mg_now := (\<lambda>w. (w, id (fs_world.more w)))\<rparr>)
       (new_entry s\<lparr>en_steps := [example_step]\<rparr>) w = ((sn, None), it', w') \<and> sn_Phase sn = PhaseDestroyed"
proof -
  have "case run_new RoleExporter [OpLifecycle PhasePreflighted False] of Inl _ \<Rightarrow> False
    | Inr s \<Rightarrow> se_phase s \<noteq> PhaseDestroyed \<and> se_updatedAt s \<le> 9 \<and> ValidateID (se_id s) = None" by code_simp
  then obtain s where s: "run_new RoleExporter [OpLifecycle PhasePreflighted False] = Inr s"
    "se_phase s \<noteq> PhaseDestroyed" "se_updatedAt s \<le> 9" "ValidateID (se_id s) = None" by (auto split: sum.splits)
  have r: "reachable_session s" by (rule run_new_reachable [OF s(1)]) simp
  let ?w = "\<lparr>fw_root = [(se_id s, \<lparr>sd_meta = None, sd_temp = False, sd_other = []\<rparr>)], fw_script = [], \<dots> = 9\<rparr>"
  let ?it = "new_entry s\<lparr>en_steps := [example_step]\<rparr>"
  have "entry_inv ?it" using r by (simp add: entry_inv_def subs_ok_def new_entry_def)
  moreover have "quiet (se_id s) ?w"
    using s(4) removing_neq [of "se_id s"] by (simp add: quiet_def dir_of_def)
  ultimately have "\<exists>sn it' w'. cleanupEntry (example_manager\<lparr>mg_now := (\<lambda>w. (w, id (fs_world.more w)))\<rparr>) ?it ?w =
      ((sn, None), it', w') \<and> sn_Phase sn = PhaseDestroyed"
    using s by (intro cleanup_converges [where clk = id])
      (simp_all add: example_manager_def new_entry_def example_step_live [simplified])
  with s(1) show ?thesis by blast
qed

end
