(* ===== verification/Resource_Contract.thy ===== *)
theory Resource_Contract
  imports Prelude
begin

text \<open>
  The contract between the session actor and what it cleans up: every registered resource
  hands the actor a \<^verbatim>\<open>Destroy\<close> and an \<^verbatim>\<open>Audit\<close> function.  A provider keeps a state with handles;
  destroying a handle it issued succeeds, releases exactly that handle, and does nothing the
  second time; the audit changes nothing and succeeds exactly when the handle is released.
\<close>

locale cleanup_resource =
  fixes inv :: "'s \<Rightarrow> bool" and issued live :: "'s \<Rightarrow> 'h \<Rightarrow> bool"
    and destroy audit :: "'h \<Rightarrow> 's \<Rightarrow> 's \<times> string option"
  assumes destroy_live: "inv s \<Longrightarrow> live s h \<Longrightarrow> \<exists>s'. destroy h s = (s', None) \<and> inv s' \<and>
      (\<forall>k. live s' k \<longleftrightarrow> live s k \<and> k \<noteq> h) \<and> (\<forall>k. issued s' k \<longleftrightarrow> issued s k)"
    and destroy_released: "inv s \<Longrightarrow> issued s h \<Longrightarrow> \<not> live s h \<Longrightarrow> destroy h s = (s, None)"
    and audit_exact: "inv s \<Longrightarrow> issued s h \<Longrightarrow> \<exists>r. audit h s = (s, r) \<and> (r = None \<longleftrightarrow> \<not> live s h)"
    and live_issued: "live s h \<Longrightarrow> issued s h"
begin

text \<open>Destroying then auditing an issued handle always succeeds and touches no other handle.\<close>

lemma destroy_audit:
  assumes "inv s" "issued s h"
  shows "\<exists>s'. destroy h s = (s', None) \<and> audit h s' = (s', None) \<and> inv s' \<and> \<not> live s' h \<and>
    (\<forall>k. k \<noteq> h \<longrightarrow> live s' k = live s k) \<and> (\<forall>k. issued s' k = issued s k)"
proof (cases "live s h")
  case True
  from destroy_live [OF assms(1) True] obtain s' where s': "destroy h s = (s', None)" "inv s'"
    "\<forall>k. live s' k \<longleftrightarrow> live s k \<and> k \<noteq> h" "\<forall>k. issued s' k \<longleftrightarrow> issued s k" by blast
  with audit_exact [of s' h] assms(2) show ?thesis by auto
next
  case False
  with destroy_released [OF assms False] audit_exact [OF assms] assms show ?thesis by auto
qed

text \<open>A retry of a cleanup that already went through changes nothing.\<close>

lemma destroy_again:
  assumes "inv s" "issued s h" "destroy h s = (s', None)"
  shows "destroy h s' = (s', None)"
  using destroy_audit [OF assms(1,2)] assms(3) destroy_released [of s' h] assms(2) by auto

end

end
