(* ===== verification/Storage_Capacity.thy ===== *)
theory Storage_Capacity
  imports Resource_Contract
begin

text \<open>
  Host capacity planning of \<^verbatim>\<open>internal/storage/planner.go\<close>: the choice between volatile and
  encrypted scratch, the pool that serialises reservations of one capacity snapshot, and the
  readers of the kernel's memory and swap evidence.  Byte counts are \<^verbatim>\<open>uint64\<close>, so
  every addition is the wrapping one with the overflow test the code makes.
\<close>

section \<open>Data\<close>

datatype ScratchMode = ScratchModeRAM | ScratchModeLUKS

record HostCapacity =
  hc_TotalRAMBytes :: u64
  hc_AvailableRAMBytes :: u64
  hc_RuntimeFreeBytes :: u64
  hc_ScratchFreeBytes :: u64
  hc_RuntimeIsTmpfs :: bool
  hc_DiskBackedSwap :: bool

record CapacityRequest =
  cq_GuestRAMBytes :: u64
  cq_ExpectedWritesBytes :: u64
  cq_SmallScratchMax :: u64

record CapacityPlan =
  pl_Mode :: ScratchMode
  pl_HostReserveBytes :: u64
  pl_ReservedBytes :: u64

record CapacityReservation =
  rs_sessionID :: string
  rs_plan :: CapacityPlan
  rs_ramBytes :: u64
  rs_runtimeBytes :: u64
  rs_scratchBytes :: u64
  rs_released :: bool

text \<open>
  Reservations are heap objects and \<^verbatim>\<open>Destroy\<close> compares pointers, so the pool carries its heap:
  a reservation is an index into \<open>cp_objects\<close> and the map holds indices.
\<close>

record CapacityPool =
  cp_host :: HostCapacity
  cp_reservations :: "(string \<times> nat) list"
  cp_ramBytes :: u64
  cp_runtimeBytes :: u64
  cp_scratchBytes :: u64
  cp_objects :: "CapacityReservation list"

section \<open>Arithmetic\<close>

definition addCapacity :: "u64 \<Rightarrow> u64 \<Rightarrow> u64 \<times> bool" where
  "addCapacity left right = (left + right, left + right \<ge> left)"

definition subtractCapacity :: "u64 \<Rightarrow> u64 \<Rightarrow> u64 \<times> bool" where
  "subtractCapacity tot used = (if used > tot then (0, False) else (tot - used, True))"

definition add3 :: "u64 \<Rightarrow> u64 \<Rightarrow> u64 \<Rightarrow> u64 \<times> bool" where
  "add3 a b c =
     (let first = a + b in
      if first < a then (0, True)
      else let result = first + c in (result, result < first))"

section \<open>Planning\<close>

definition hostReserve :: "HostCapacity \<Rightarrow> u64" where
  "hostReserve host =
     (let reserve = hc_TotalRAMBytes host div 5 in if reserve < 4 * 2 ^ 30 then 4 * 2 ^ 30 else reserve)"

definition PlanCapacity :: "HostCapacity \<Rightarrow> CapacityRequest \<Rightarrow> string + CapacityPlan" where
  "PlanCapacity host request =
     (if hc_DiskBackedSwap host then Inl ''disk-backed swap blocks volatile session planning''
      else if \<not> hc_RuntimeIsTmpfs host then Inl ''runtime directory is not on volatile tmpfs''
      else if hc_TotalRAMBytes host = 0 \<or> hc_AvailableRAMBytes host = 0 \<or>
        hc_AvailableRAMBytes host > hc_TotalRAMBytes host \<or> cq_GuestRAMBytes request = 0 \<or>
        cq_ExpectedWritesBytes request = 0 \<or> cq_SmallScratchMax request = 0
      then Inl ''capacity inputs must be non-zero''
      else
       (let reserve = hostReserve host;
            (ramRequired, overflow) = add3 (cq_GuestRAMBytes request) (cq_ExpectedWritesBytes request) reserve;
            (guestRequired, guestOK) = addCapacity (cq_GuestRAMBytes request) reserve
        in if \<not> overflow \<and> cq_ExpectedWritesBytes request \<le> cq_SmallScratchMax request \<and>
              ramRequired \<le> hc_AvailableRAMBytes host \<and>
              cq_ExpectedWritesBytes request \<le> hc_RuntimeFreeBytes host
           then Inr \<lparr>pl_Mode = ScratchModeRAM, pl_HostReserveBytes = reserve,
             pl_ReservedBytes = cq_ExpectedWritesBytes request\<rparr>
           else if guestOK \<and> guestRequired \<le> hc_AvailableRAMBytes host \<and>
              cq_ExpectedWritesBytes request \<le> hc_ScratchFreeBytes host
           then Inr \<lparr>pl_Mode = ScratchModeLUKS, pl_HostReserveBytes = reserve,
             pl_ReservedBytes = cq_ExpectedWritesBytes request\<rparr>
           else Inl ''neither volatile RAM nor encrypted disk scratch has sufficient capacity''))"

section \<open>The pool\<close>

definition NewCapacityPool :: "HostCapacity \<Rightarrow> string + CapacityPool" where
  "NewCapacityPool host =
     (if hc_DiskBackedSwap host \<or> \<not> hc_RuntimeIsTmpfs host \<or> hc_TotalRAMBytes host = 0 \<or>
        hc_AvailableRAMBytes host = 0 \<or> hc_AvailableRAMBytes host > hc_TotalRAMBytes host \<or>
        (hc_RuntimeFreeBytes host = 0 \<and> hc_ScratchFreeBytes host = 0)
      then Inl ''capacity pool requires valid fail-closed host evidence''
      else Inr \<lparr>cp_host = host, cp_reservations = [], cp_ramBytes = 0, cp_runtimeBytes = 0,
        cp_scratchBytes = 0, cp_objects = []\<rparr>)"

definition storageSessionPattern :: "string \<Rightarrow> bool" where
  \<comment> \<open>\<^verbatim>\<open>^pvm-[a-f0-9]{32}$\<close>\<close>
  "storageSessionPattern s \<longleftrightarrow> length s = 36 \<and> take 4 s = ''pvm-'' \<and> list_all is_lower_hex (drop 4 s)"

text \<open>What a plan makes the pool account for: memory, runtime space, scratch space.\<close>

definition planned :: "CapacityRequest \<Rightarrow> CapacityPlan \<Rightarrow> string + u64 \<times> u64 \<times> u64" where
  "planned request plan =
     (case pl_Mode plan of
        ScratchModeRAM \<Rightarrow>
          (let (ram, ok) = addCapacity (cq_GuestRAMBytes request) (cq_ExpectedWritesBytes request) in
           if \<not> ok then Inl ''capacity reservation overflow''
           else Inr (ram, cq_ExpectedWritesBytes request, 0))
      | ScratchModeLUKS \<Rightarrow> Inr (cq_GuestRAMBytes request, 0, cq_ExpectedWritesBytes request))"

text \<open>
  The three guarded additions to the totals.  As in the code the assignment happens before the
  test, so an overflow leaves the wrapped total behind; \<open>pool_inv\<close> shows it cannot happen.
\<close>

definition charge :: "u64 \<Rightarrow> u64 \<Rightarrow> u64 \<Rightarrow> CapacityPool \<Rightarrow> CapacityPool \<times> string option" where
  "charge ram runtime scratch p =
     (let (r, ok) = addCapacity (cp_ramBytes p) ram; p1 = p\<lparr>cp_ramBytes := r\<rparr> in
      if \<not> ok then (p1, Some ''memory reservation overflow'')
      else
       (let (t, ok) = addCapacity (cp_runtimeBytes p1) runtime; p2 = p1\<lparr>cp_runtimeBytes := t\<rparr> in
        if \<not> ok then (p2\<lparr>cp_ramBytes := cp_ramBytes p2 - ram\<rparr>, Some ''runtime reservation overflow'')
        else
         (let (s, ok) = addCapacity (cp_scratchBytes p2) scratch; p3 = p2\<lparr>cp_scratchBytes := s\<rparr> in
          if \<not> ok
          then (p3\<lparr>cp_ramBytes := cp_ramBytes p3 - ram, cp_runtimeBytes := cp_runtimeBytes p3 - runtime\<rparr>,
                Some ''scratch reservation overflow'')
          else (p3, None))))"

definition effectiveHost :: "CapacityPool \<Rightarrow> string + HostCapacity" where
  "effectiveHost p =
     (let host = cp_host p;
          (ram, ok1) = subtractCapacity (hc_AvailableRAMBytes host) (cp_ramBytes p);
          (runtime, ok2) = subtractCapacity (hc_RuntimeFreeBytes host) (cp_runtimeBytes p);
          (scratch, ok3) = subtractCapacity (hc_ScratchFreeBytes host) (cp_scratchBytes p)
      in if \<not> ok1 then Inl ''reserved memory exceeds the capacity snapshot''
         else if \<not> ok2 then Inl ''reserved runtime space exceeds the capacity snapshot''
         else if \<not> ok3 then Inl ''reserved scratch space exceeds the capacity snapshot''
         else Inr (host\<lparr>hc_AvailableRAMBytes := ram, hc_RuntimeFreeBytes := runtime,
                        hc_ScratchFreeBytes := scratch\<rparr>))"

definition Reserve :: "string \<Rightarrow> CapacityRequest \<Rightarrow> CapacityPool \<Rightarrow> CapacityPool \<times> (string + nat)" where
  "Reserve sessionID request p =
     (if \<not> storageSessionPattern sessionID
      then (p, Inl ''capacity reservation requires an internal session ID'')
      else if map_of (cp_reservations p) sessionID \<noteq> None
      then (p, Inl ''capacity is already reserved for this session'')
      else case effectiveHost p of Inl e \<Rightarrow> (p, Inl e)
      | Inr effective \<Rightarrow>
     (case PlanCapacity effective request of Inl e \<Rightarrow> (p, Inl e)
      | Inr plan \<Rightarrow>
     (case planned request plan of Inl e \<Rightarrow> (p, Inl e)
      | Inr (ram, runtime, scratch) \<Rightarrow>
     (case charge ram runtime scratch p of (p1, Some e) \<Rightarrow> (p1, Inl e)
      | (p1, None) \<Rightarrow>
         (let h = length (cp_objects p1);
              reservation = \<lparr>rs_sessionID = sessionID, rs_plan = plan, rs_ramBytes = ram,
                rs_runtimeBytes = runtime, rs_scratchBytes = scratch, rs_released = False\<rparr>
          in (p1\<lparr>cp_objects := cp_objects p1 @ [reservation],
                 cp_reservations := AList.update sessionID h (cp_reservations p1)\<rparr>, Inr h))))))"

definition Destroy :: "nat \<Rightarrow> CapacityPool \<Rightarrow> CapacityPool \<times> string option" where
  "Destroy h p =
     (if length (cp_objects p) \<le> h then (p, Some ''capacity reservation is invalid'')
      else let r = cp_objects p ! h in
      if rs_released r then (p, None)
      else if map_of (cp_reservations p) (rs_sessionID r) \<noteq> Some h \<or>
        cp_ramBytes p < rs_ramBytes r \<or> cp_runtimeBytes p < rs_runtimeBytes r \<or>
        cp_scratchBytes p < rs_scratchBytes r
      then (p, Some ''capacity reservation ownership is inconsistent'')
      else (p\<lparr>cp_reservations := AList.delete (rs_sessionID r) (cp_reservations p),
              cp_ramBytes := cp_ramBytes p - rs_ramBytes r,
              cp_runtimeBytes := cp_runtimeBytes p - rs_runtimeBytes r,
              cp_scratchBytes := cp_scratchBytes p - rs_scratchBytes r,
              cp_objects := (cp_objects p)[h := r\<lparr>rs_released := True\<rparr>]\<rparr>, None))"

definition Audit :: "nat \<Rightarrow> CapacityPool \<Rightarrow> CapacityPool \<times> string option" where
  "Audit h p =
     (if length (cp_objects p) \<le> h then (p, Some ''capacity reservation is invalid'')
      else let r = cp_objects p ! h in
      if \<not> rs_released r \<or> map_of (cp_reservations p) (rs_sessionID r) = Some h
      then (p, Some ''capacity reservation remains active'')
      else (p, None))"

section \<open>Kernel evidence\<close>

definition newline :: char where "newline = CHR 0x0A"

text \<open>The loop of \<^verbatim>\<open>readMemoryCapacity\<close> over the lines of \<^verbatim>\<open>/proc/meminfo\<close>.\<close>

fun memory_lines :: "int option \<Rightarrow> int option \<Rightarrow> string list \<Rightarrow> string + int option \<times> int option" where
  "memory_lines tot available [] = Inr (tot, available)"
| "memory_lines tot available (line # lines) =
     (case text_fields line of
        [key, num, unit] \<Rightarrow>
          if unit \<noteq> ''kB'' then memory_lines tot available lines
          else
           (case ParseUint 64 num of
              None \<Rightarrow> Inl ''host memory evidence is malformed''
            | Some value \<Rightarrow>
                if value > (2 ^ 64 - 1) div 1024 then Inl ''host memory evidence is malformed''
                else if key = ''MemTotal:''
                then (if tot \<noteq> None then Inl ''host memory evidence contains a duplicate total''
                      else memory_lines (Some (value * 1024)) available lines)
                else if key = ''MemAvailable:''
                then (if available \<noteq> None
                      then Inl ''host memory evidence contains a duplicate available value''
                      else memory_lines tot (Some (value * 1024)) lines)
                else memory_lines tot available lines)
      | _ \<Rightarrow> memory_lines tot available lines)"

definition readMemoryCapacity :: "string \<Rightarrow> string + int \<times> int" where
  "readMemoryCapacity data =
     (case memory_lines None None (split_at newline data) of
        Inl e \<Rightarrow> Inl e
      | Inr (tot, available) \<Rightarrow>
         (let t = (case tot of None \<Rightarrow> 0 | Some v \<Rightarrow> v); a = (case available of None \<Rightarrow> 0 | Some v \<Rightarrow> v) in
          if t = 0 \<or> a = 0 \<or> a > t then Inl ''host memory evidence is incomplete'' else Inr (t, a)))"

fun swap_lines :: "string list \<Rightarrow> string + bool" where
  "swap_lines [] = Inr False"
| "swap_lines (line # lines) =
     (case text_fields line of
        [] \<Rightarrow> swap_lines lines
      | path # rest \<Rightarrow>
          if length (path # rest) < 5 \<or> \<not> has_prefix ''/'' path
          then Inl ''host swap evidence entry is malformed''
          else let name = trim_prefix ''/dev/zram'' path in
               if name = '''' then Inr True
               else if ParseUint 31 name = None then Inr True
               else swap_lines lines)"

definition parseDiskBackedSwap :: "string \<Rightarrow> string + bool" where
  "parseDiskBackedSwap data =
     (case split_at newline data of
        [] \<Rightarrow> Inl ''host swap evidence is empty''
      | header # lines \<Rightarrow>
         (case text_fields header of
            a # b # rest \<Rightarrow>
              if length (a # b # rest) < 5 \<or> a \<noteq> ''Filename'' \<or> b \<noteq> ''Type''
              then Inl ''host swap evidence header is malformed'' else swap_lines lines
          | _ \<Rightarrow> Inl ''host swap evidence header is malformed''))"

definition statfsAvailable :: "u64 \<Rightarrow> u64 \<Rightarrow> u64" where
  "statfsAvailable bsize bavail =
     (if bsize = 0 \<or> bavail > (- 1) div bsize then 0 else bavail * bsize)"

section \<open>Arithmetic facts\<close>

lemma addCapacity_ok: "snd (addCapacity a b) \<longleftrightarrow> unat a + unat b < 2 ^ 64"
  using word_add_carry_iff [of a b] by (auto simp: addCapacity_def not_less)

lemma addCapacity_sum: "snd (addCapacity a b) \<Longrightarrow> unat (fst (addCapacity a b)) = unat a + unat b"
  using addCapacity_ok [of a b] by (simp add: addCapacity_def unat_add_no_carry)

lemma add3_spec:
  "snd (add3 a b c) \<longleftrightarrow> 2 ^ 64 \<le> unat a + unat b + unat c"
  "\<not> snd (add3 a b c) \<Longrightarrow> unat (fst (add3 a b c)) = unat a + unat b + unat c"
proof -
  have 1: "a + b < a \<longleftrightarrow> 2 ^ 64 \<le> unat a + unat b" using word_add_carry_iff [of a b] by simp
  have 2: "unat (a + b) = unat a + unat b" if "\<not> a + b < a"
    using that 1 by (simp add: unat_add_no_carry)
  have 3: "a + b + c < a + b \<longleftrightarrow> 2 ^ 64 \<le> unat (a + b) + unat c" using word_add_carry_iff [of "a + b" c] by simp
  show "snd (add3 a b c) \<longleftrightarrow> 2 ^ 64 \<le> unat a + unat b + unat c"
    using 1 2 3 by (auto simp: add3_def Let_def)
  show "\<not> snd (add3 a b c) \<Longrightarrow> unat (fst (add3 a b c)) = unat a + unat b + unat c"
    using 2 3 by (auto simp: add3_def Let_def unat_add_no_carry split: if_splits)
qed

section \<open>Planning without words\<close>

text \<open>The plan over unbounded numbers, with no overflow to test for.\<close>

definition plan_spec :: "HostCapacity \<Rightarrow> CapacityRequest \<Rightarrow> ScratchMode option" where
  "plan_spec host request =
     (let guest = unat (cq_GuestRAMBytes request); writes = unat (cq_ExpectedWritesBytes request);
          reserve = max (4 * 2 ^ 30) (unat (hc_TotalRAMBytes host) div 5);
          available = unat (hc_AvailableRAMBytes host)
      in if hc_DiskBackedSwap host \<or> \<not> hc_RuntimeIsTmpfs host \<or> guest = 0 \<or> writes = 0 \<or>
            cq_SmallScratchMax request = 0 \<or> available = 0 \<or> available > unat (hc_TotalRAMBytes host)
         then None
         else if writes \<le> unat (cq_SmallScratchMax request) \<and> guest + writes + reserve \<le> available \<and>
            writes \<le> unat (hc_RuntimeFreeBytes host) then Some ScratchModeRAM
         else if guest + reserve \<le> available \<and> writes \<le> unat (hc_ScratchFreeBytes host)
         then Some ScratchModeLUKS else None)"

lemma unat_hostReserve: "unat (hostReserve host) = max (4 * 2 ^ 30) (unat (hc_TotalRAMBytes host) div 5)"
proof -
  have "unat (hc_TotalRAMBytes host div 5) = unat (hc_TotalRAMBytes host) div 5"
    by (simp add: unat_div)
  then show ?thesis by (auto simp: hostReserve_def Let_def word_less_nat_alt max_def)
qed

lemma PlanCapacity_mode:
  "(case PlanCapacity host request of Inl _ \<Rightarrow> None | Inr plan \<Rightarrow> Some (pl_Mode plan)) = plan_spec host request"
proof -
  let ?g = "cq_GuestRAMBytes request" and ?w = "cq_ExpectedWritesBytes request" and ?r = "hostReserve host"
    and ?a = "hc_AvailableRAMBytes host"
  have a: "unat ?a < 2 ^ 64" using unsigned_less [of ?a, where ?'a = nat] by simp
  have ram: "\<not> snd (add3 ?g ?w ?r) \<and> fst (add3 ?g ?w ?r) \<le> ?a \<longleftrightarrow>
      unat ?g + unat ?w + unat ?r \<le> unat ?a"
    using a add3_spec [of ?g ?w ?r] by (auto simp: word_le_nat_alt)
  have guest: "snd (addCapacity ?g ?r) \<and> fst (addCapacity ?g ?r) \<le> ?a \<longleftrightarrow> unat ?g + unat ?r \<le> unat ?a"
    using a addCapacity_ok [of ?g ?r] addCapacity_sum [of ?g ?r] by (auto simp: word_le_nat_alt)
  have zero: "(x = 0) = (unat x = 0)" for x :: u64 by (simp add: unat_eq_0)
  show ?thesis
    using ram guest unat_hostReserve [of host]
    by (auto simp: PlanCapacity_def plan_spec_def Let_def word_le_nat_alt word_less_nat_alt unat_eq_0
        split: prod.splits)
qed


section \<open>The invariant of the pool\<close>

definition live_reservation :: "CapacityPool \<Rightarrow> nat \<Rightarrow> bool" where
  "live_reservation p h \<longleftrightarrow> h < length (cp_objects p) \<and> \<not> rs_released (cp_objects p ! h)"

definition held :: "(CapacityReservation \<Rightarrow> u64) \<Rightarrow> CapacityReservation \<Rightarrow> nat" where
  "held f r = (if rs_released r then 0 else unat (f r))"

definition live_sum :: "(CapacityReservation \<Rightarrow> u64) \<Rightarrow> CapacityPool \<Rightarrow> nat" where
  "live_sum f p = sum_list (map (held f) (cp_objects p))"

definition pool_inv :: "CapacityPool \<Rightarrow> bool" where
  "pool_inv p \<longleftrightarrow>
     (\<forall>sid h. map_of (cp_reservations p) sid = Some h \<longleftrightarrow>
        live_reservation p h \<and> rs_sessionID (cp_objects p ! h) = sid) \<and>
     unat (cp_ramBytes p) = live_sum rs_ramBytes p \<and>
     unat (cp_runtimeBytes p) = live_sum rs_runtimeBytes p \<and>
     unat (cp_scratchBytes p) = live_sum rs_scratchBytes p \<and>
     (cp_ramBytes p = 0 \<or>
        unat (cp_ramBytes p) + unat (hostReserve (cp_host p)) \<le> unat (hc_AvailableRAMBytes (cp_host p))) \<and>
     unat (cp_runtimeBytes p) \<le> unat (hc_RuntimeFreeBytes (cp_host p)) \<and>
     unat (cp_scratchBytes p) \<le> unat (hc_ScratchFreeBytes (cp_host p))"

lemma pool_inv_map:
  "pool_inv p \<Longrightarrow> map_of (cp_reservations p) s = Some k \<longleftrightarrow>
     live_reservation p k \<and> rs_sessionID (cp_objects p ! k) = s"
  by (simp add: pool_inv_def)

lemma effectiveHost_Inr:
  assumes "effectiveHost p = Inr eff"
  shows "eff = (cp_host p)\<lparr>hc_AvailableRAMBytes := hc_AvailableRAMBytes (cp_host p) - cp_ramBytes p,
      hc_RuntimeFreeBytes := hc_RuntimeFreeBytes (cp_host p) - cp_runtimeBytes p,
      hc_ScratchFreeBytes := hc_ScratchFreeBytes (cp_host p) - cp_scratchBytes p\<rparr>"
    and "cp_ramBytes p \<le> hc_AvailableRAMBytes (cp_host p)"
    and "cp_runtimeBytes p \<le> hc_RuntimeFreeBytes (cp_host p)"
    and "cp_scratchBytes p \<le> hc_ScratchFreeBytes (cp_host p)"
  using assms
  by (auto simp: effectiveHost_def Let_def subtractCapacity_def not_less split: if_splits)

text \<open>What the planner guarantees, as sums of naturals.\<close>

lemma PlanCapacity_fits:
  assumes "PlanCapacity host request = Inr plan" "planned request plan = Inr (ram, runtime, scratch)"
  shows "unat ram + unat (hostReserve host) \<le> unat (hc_AvailableRAMBytes host)"
    and "unat runtime \<le> unat (hc_RuntimeFreeBytes host)" "unat scratch \<le> unat (hc_ScratchFreeBytes host)"
    and "ram \<noteq> 0"
proof -
  let ?g = "cq_GuestRAMBytes request" and ?w = "cq_ExpectedWritesBytes request"
  have spec: "plan_spec host request = Some (pl_Mode plan)"
    using PlanCapacity_mode [of host request] assms(1) by simp
  have sum: "unat ram = (if pl_Mode plan = ScratchModeRAM then unat ?g + unat ?w else unat ?g)"
    "runtime = (if pl_Mode plan = ScratchModeRAM then ?w else 0)"
    "scratch = (if pl_Mode plan = ScratchModeRAM then 0 else ?w)"
    using assms(2) addCapacity_sum [of ?g ?w]
    by (auto simp: planned_def Let_def split: ScratchMode.splits prod.splits if_splits)
  show "unat ram + unat (hostReserve host) \<le> unat (hc_AvailableRAMBytes host)"
    "unat runtime \<le> unat (hc_RuntimeFreeBytes host)" "unat scratch \<le> unat (hc_ScratchFreeBytes host)"
    using spec sum unat_hostReserve [of host] by (auto simp: plan_spec_def Let_def split: if_splits)
  have "0 < unat ram" using spec sum(1) by (auto simp: plan_spec_def Let_def split: if_splits)
  then show "ram \<noteq> 0" by auto
qed

lemma charge_fits:
  assumes "unat (cp_ramBytes p) + unat ram < 2 ^ 64" "unat (cp_runtimeBytes p) + unat runtime < 2 ^ 64"
    and "unat (cp_scratchBytes p) + unat scratch < 2 ^ 64"
  shows "charge ram runtime scratch p =
    (p\<lparr>cp_ramBytes := cp_ramBytes p + ram, cp_runtimeBytes := cp_runtimeBytes p + runtime,
       cp_scratchBytes := cp_scratchBytes p + scratch\<rparr>, None)"
  using assms addCapacity_ok [of "cp_ramBytes p" ram] addCapacity_ok [of "cp_runtimeBytes p" runtime]
    addCapacity_ok [of "cp_scratchBytes p" scratch]
  by (simp add: charge_def addCapacity_def Let_def)

lemma hostReserve_update [simp]:
  "hostReserve (host\<lparr>hc_AvailableRAMBytes := a, hc_RuntimeFreeBytes := b, hc_ScratchFreeBytes := c\<rparr>) = hostReserve host"
  by (simp add: hostReserve_def)

text \<open>A successful reservation: one new live object, every total raised by its share, all within the snapshot.\<close>

lemma Reserve_Inr:
  assumes "Reserve sid request p = (p', Inr h)"
  obtains plan ram runtime scratch where
    "h = length (cp_objects p)" "map_of (cp_reservations p) sid = None"
    "p' = p\<lparr>cp_ramBytes := cp_ramBytes p + ram, cp_runtimeBytes := cp_runtimeBytes p + runtime,
       cp_scratchBytes := cp_scratchBytes p + scratch,
       cp_objects := cp_objects p @ [\<lparr>rs_sessionID = sid, rs_plan = plan, rs_ramBytes = ram,
         rs_runtimeBytes = runtime, rs_scratchBytes = scratch, rs_released = False\<rparr>],
       cp_reservations := AList.update sid h (cp_reservations p)\<rparr>"
    "unat (cp_ramBytes p) + unat ram + unat (hostReserve (cp_host p)) \<le> unat (hc_AvailableRAMBytes (cp_host p))"
    "unat (cp_runtimeBytes p) + unat runtime \<le> unat (hc_RuntimeFreeBytes (cp_host p))"
    "unat (cp_scratchBytes p) + unat scratch \<le> unat (hc_ScratchFreeBytes (cp_host p))"
proof -
  from assms obtain eff where eff: "effectiveHost p = Inr eff" and new: "map_of (cp_reservations p) sid = None"
    by (auto simp: Reserve_def split: if_splits sum.splits)
  from assms eff new obtain plan where plan: "PlanCapacity eff request = Inr plan"
    by (auto simp: Reserve_def split: if_splits sum.splits)
  from assms eff new plan obtain ram runtime scratch where
    pl: "planned request plan = Inr (ram, runtime, scratch)"
    by (auto simp: Reserve_def split: if_splits sum.splits)
  note e = effectiveHost_Inr [OF eff]
  note fits = PlanCapacity_fits [OF plan pl, unfolded e(1), simplified]
  let ?h = "cp_host p"
  have sums: "unat (cp_ramBytes p) + unat ram + unat (hostReserve ?h) \<le> unat (hc_AvailableRAMBytes ?h)"
    "unat (cp_runtimeBytes p) + unat runtime \<le> unat (hc_RuntimeFreeBytes ?h)"
    "unat (cp_scratchBytes p) + unat scratch \<le> unat (hc_ScratchFreeBytes ?h)"
    using fits e(2-4) by (auto simp: unat_diff_le word_le_nat_alt)
  have lim: "unat (x :: u64) < 2 ^ 64" for x using unsigned_less [of x, where ?'a = nat] by simp
  have c: "charge ram runtime scratch p = (p\<lparr>cp_ramBytes := cp_ramBytes p + ram,
      cp_runtimeBytes := cp_runtimeBytes p + runtime, cp_scratchBytes := cp_scratchBytes p + scratch\<rparr>, None)"
    using sums lim [of "hc_AvailableRAMBytes ?h"] lim [of "hc_RuntimeFreeBytes ?h"] lim [of "hc_ScratchFreeBytes ?h"]
    by (intro charge_fits) linarith+
  from assms eff new plan pl c have "h = length (cp_objects p)"
    "p' = p\<lparr>cp_ramBytes := cp_ramBytes p + ram, cp_runtimeBytes := cp_runtimeBytes p + runtime,
       cp_scratchBytes := cp_scratchBytes p + scratch,
       cp_objects := cp_objects p @ [\<lparr>rs_sessionID = sid, rs_plan = plan, rs_ramBytes = ram,
         rs_runtimeBytes = runtime, rs_scratchBytes = scratch, rs_released = False\<rparr>],
       cp_reservations := AList.update sid h (cp_reservations p)\<rparr>"
    by (auto simp: Reserve_def Let_def split: if_splits)
  with that new sums show thesis by blast
qed


lemma Reserve_Inl:
  assumes "Reserve sid request p = (p', Inl e)"
  shows "p' = p"
proof (rule ccontr)
  assume change: "p' \<noteq> p"
  from assms change obtain eff plan ram runtime scratch where eff: "effectiveHost p = Inr eff"
    and plan: "PlanCapacity eff request = Inr plan" and pl: "planned request plan = Inr (ram, runtime, scratch)"
    and c: "charge ram runtime scratch p = (p', Some e)"
    by (auto simp: Reserve_def Let_def split: if_splits sum.splits prod.splits option.splits)
  note e = effectiveHost_Inr [OF eff]
  note fits = PlanCapacity_fits [OF plan pl, unfolded e(1), simplified]
  have lim: "unat (x :: u64) < 2 ^ 64" for x using unsigned_less [of x, where ?'a = nat] by simp
  have "snd (charge ram runtime scratch p) = None"
    using fits e(2-4) lim [of "hc_AvailableRAMBytes (cp_host p)"] lim [of "hc_RuntimeFreeBytes (cp_host p)"]
      lim [of "hc_ScratchFreeBytes (cp_host p)"]
    by (subst charge_fits) (auto simp: unat_diff_le word_le_nat_alt)
  with c show False by simp
qed

lemma live_sum_append [simp]:
  "live_sum f (p\<lparr>cp_objects := cp_objects q @ [r]\<rparr>) = live_sum f q + held f r"
  by (simp add: live_sum_def)

lemma live_sum_updates [simp]:
  "live_sum f (p\<lparr>cp_ramBytes := a\<rparr>) = live_sum f p" "live_sum f (p\<lparr>cp_runtimeBytes := a\<rparr>) = live_sum f p"
  "live_sum f (p\<lparr>cp_scratchBytes := a\<rparr>) = live_sum f p" "live_sum f (p\<lparr>cp_reservations := rs\<rparr>) = live_sum f p"
  by (simp_all add: live_sum_def)

lemma NewCapacityPool_inv: "NewCapacityPool host = Inr p \<Longrightarrow> pool_inv p \<and> cp_host p = host"
  by (auto simp: NewCapacityPool_def pool_inv_def live_reservation_def live_sum_def split: if_splits)

lemma Reserve_inv:
  assumes "Reserve sid request p = (p', r)" "pool_inv p"
  shows "pool_inv p' \<and> cp_host p' = cp_host p"
proof (cases r)
  case (Inl e)
  with Reserve_Inl [of sid request p p' e] assms show ?thesis by simp
next
  case (Inr h)
  with assms(1) have "Reserve sid request p = (p', Inr h)" by simp
  then show ?thesis
  proof (rule Reserve_Inr)
    fix plan ram runtime scratch
    let ?r = "\<lparr>rs_sessionID = sid, rs_plan = plan, rs_ramBytes = ram, rs_runtimeBytes = runtime,
      rs_scratchBytes = scratch, rs_released = False\<rparr>"
    assume h: "h = length (cp_objects p)" and new: "map_of (cp_reservations p) sid = None"
      and p': "p' = p\<lparr>cp_ramBytes := cp_ramBytes p + ram, cp_runtimeBytes := cp_runtimeBytes p + runtime,
        cp_scratchBytes := cp_scratchBytes p + scratch, cp_objects := cp_objects p @ [?r],
        cp_reservations := AList.update sid h (cp_reservations p)\<rparr>"
      and fits: "unat (cp_ramBytes p) + unat ram + unat (hostReserve (cp_host p)) \<le> unat (hc_AvailableRAMBytes (cp_host p))"
        "unat (cp_runtimeBytes p) + unat runtime \<le> unat (hc_RuntimeFreeBytes (cp_host p))"
        "unat (cp_scratchBytes p) + unat scratch \<le> unat (hc_ScratchFreeBytes (cp_host p))"
    have sums: "unat (cp_ramBytes p + ram) = unat (cp_ramBytes p) + unat ram"
      "unat (cp_runtimeBytes p + runtime) = unat (cp_runtimeBytes p) + unat runtime"
      "unat (cp_scratchBytes p + scratch) = unat (cp_scratchBytes p) + unat scratch"
      using fits by (auto intro: unat_add_bounded [where c = "hc_AvailableRAMBytes (cp_host p)"]
          unat_add_bounded [where c = "hc_RuntimeFreeBytes (cp_host p)"]
          unat_add_bounded [where c = "hc_ScratchFreeBytes (cp_host p)"])
    have "map_of (cp_reservations p') s = Some k \<longleftrightarrow> live_reservation p' k \<and> rs_sessionID (cp_objects p' ! k) = s"
      for s k
      using pool_inv_map [OF assms(2), of s k] new
      by (auto simp: p' h update_conv' live_reservation_def nth_append less_Suc_eq)
    with assms(2) fits sums show ?thesis by (simp add: pool_inv_def p' held_def)
  qed
qed

lemma live_sum_member: "live_reservation p h \<Longrightarrow> unat (f (cp_objects p ! h)) \<le> live_sum f p"
  using member_le_sum_list [of "held f (cp_objects p ! h)" "map (held f) (cp_objects p)"]
  by (auto simp: live_reservation_def live_sum_def held_def)

lemma live_sum_release:
  "live_reservation p h \<Longrightarrow>
   live_sum f (q\<lparr>cp_objects := (cp_objects p)[h := (cp_objects p ! h)\<lparr>rs_released := True\<rparr>]\<rparr>) =
     live_sum f p - unat (f (cp_objects p ! h))"
  by (simp add: live_reservation_def live_sum_def map_update sum_list_update held_def)

text \<open>Destroying a live reservation takes the regular branch and lowers every total by its share.\<close>

lemma Destroy_live:
  assumes inv: "pool_inv p" and live: "live_reservation p h"
  shows "\<exists>p'. Destroy h p = (p', None) \<and> pool_inv p' \<and> cp_host p' = cp_host p \<and>
    (\<forall>k. live_reservation p' k \<longleftrightarrow> live_reservation p k \<and> k \<noteq> h) \<and>
    length (cp_objects p') = length (cp_objects p)"
proof -
  let ?r = "cp_objects p ! h"
  let ?p = "p\<lparr>cp_reservations := AList.delete (rs_sessionID ?r) (cp_reservations p),
    cp_ramBytes := cp_ramBytes p - rs_ramBytes ?r, cp_runtimeBytes := cp_runtimeBytes p - rs_runtimeBytes ?r,
    cp_scratchBytes := cp_scratchBytes p - rs_scratchBytes ?r,
    cp_objects := (cp_objects p)[h := ?r\<lparr>rs_released := True\<rparr>]\<rparr>"
  have le: "rs_ramBytes ?r \<le> cp_ramBytes p" "rs_runtimeBytes ?r \<le> cp_runtimeBytes p"
    "rs_scratchBytes ?r \<le> cp_scratchBytes p"
    using inv live_sum_member [OF live] by (auto simp: pool_inv_def word_le_nat_alt)
  have "map_of (cp_reservations p) (rs_sessionID ?r) = Some h"
    using inv live by (auto simp: pool_inv_def)
  with live le have run: "Destroy h p = (?p, None)"
    by (auto simp: Destroy_def Let_def live_reservation_def not_less)
  have lives: "live_reservation ?p k \<longleftrightarrow> live_reservation p k \<and> k \<noteq> h" for k
    using live by (auto simp: live_reservation_def nth_list_update)
  have maps: "map_of (cp_reservations ?p) s = Some k \<longleftrightarrow> live_reservation ?p k \<and> rs_sessionID (cp_objects ?p ! k) = s"
    for s k
  proof -
    have "rs_sessionID (cp_objects ?p ! k) = rs_sessionID (cp_objects p ! k)"
      using live by (cases "k = h") (simp_all add: live_reservation_def)
    then show ?thesis unfolding lives using pool_inv_map [OF inv, of s k] pool_inv_map [OF inv, of s h] live
      by (cases "s = rs_sessionID ?r") (auto simp: delete_conv')
  qed
  have sums: "unat (cp_ramBytes ?p) = live_sum rs_ramBytes ?p" "unat (cp_runtimeBytes ?p) = live_sum rs_runtimeBytes ?p"
    "unat (cp_scratchBytes ?p) = live_sum rs_scratchBytes ?p"
    using inv le live_sum_release [OF live] by (simp_all add: pool_inv_def unat_diff_le)
  have "unat (cp_ramBytes ?p) \<le> unat (cp_ramBytes p)" "unat (cp_runtimeBytes ?p) \<le> unat (cp_runtimeBytes p)"
    "unat (cp_scratchBytes ?p) \<le> unat (cp_scratchBytes p)" using le by (simp_all add: unat_diff_le)
  moreover have "cp_ramBytes p = 0 \<Longrightarrow> cp_ramBytes ?p = 0" using le(1) by simp
  ultimately have "pool_inv ?p"
    unfolding pool_inv_def using inv maps sums by (auto simp: pool_inv_def)
  with run lives show ?thesis by auto
qed


lemma Destroy_released: "h < length (cp_objects p) \<Longrightarrow> \<not> live_reservation p h \<Longrightarrow> Destroy h p = (p, None)"
  by (simp add: Destroy_def live_reservation_def Let_def)

lemma Destroy_unknown: "\<not> h < length (cp_objects p) \<Longrightarrow> fst (Destroy h p) = p"
  by (simp add: Destroy_def)

lemma Destroy_inv:
  assumes "Destroy h p = (p', r)" "pool_inv p"
  shows "pool_inv p' \<and> cp_host p' = cp_host p"
  using assms Destroy_live [OF assms(2), of h] Destroy_released [of h p] Destroy_unknown [of h p]
  by (cases "live_reservation p h"; cases "h < length (cp_objects p)") auto

lemma Audit_exact:
  assumes "pool_inv p" "h < length (cp_objects p)"
  shows "\<exists>r. Audit h p = (p, r) \<and> (r = None \<longleftrightarrow> \<not> live_reservation p h)"
  using assms pool_inv_map [OF assms(1), of "rs_sessionID (cp_objects p ! h)" h]
  by (auto simp: Audit_def Let_def live_reservation_def)

interpretation capacity: cleanup_resource pool_inv "\<lambda>p h. h < length (cp_objects p)" live_reservation Destroy Audit
proof unfold_locales
  fix p h
  show "pool_inv p \<Longrightarrow> live_reservation p h \<Longrightarrow> \<exists>p'. Destroy h p = (p', None) \<and> pool_inv p' \<and>
      (\<forall>k. live_reservation p' k \<longleftrightarrow> live_reservation p k \<and> k \<noteq> h) \<and>
      (\<forall>k. (k < length (cp_objects p')) = (k < length (cp_objects p)))"
    using Destroy_live [of p h] by auto
  show "pool_inv p \<Longrightarrow> h < length (cp_objects p) \<Longrightarrow> \<not> live_reservation p h \<Longrightarrow> Destroy h p = (p, None)"
    by (rule Destroy_released)
  show "pool_inv p \<Longrightarrow> h < length (cp_objects p) \<Longrightarrow>
      \<exists>r. Audit h p = (p, r) \<and> (r = None \<longleftrightarrow> \<not> live_reservation p h)" by (rule Audit_exact)
  show "live_reservation p h \<Longrightarrow> h < length (cp_objects p)" by (simp add: live_reservation_def)
qed

section \<open>Properties\<close>

inductive pool_step :: "CapacityPool \<Rightarrow> CapacityPool \<Rightarrow> bool" where
  reserve: "Reserve sid request p = (p', r) \<Longrightarrow> pool_step p p'"
| destroy: "Destroy h p = (p', e) \<Longrightarrow> pool_step p p'"

lemma pool_steps_inv:
  "pool_step\<^sup>*\<^sup>* p p' \<Longrightarrow> pool_inv p \<Longrightarrow> pool_inv p' \<and> cp_host p' = cp_host p"
  by (induction rule: rtranclp_induct) (auto elim!: pool_step.cases dest: Reserve_inv Destroy_inv)

definition example_host :: HostCapacity where
  "example_host = \<lparr>hc_TotalRAMBytes = 64 * 2 ^ 30, hc_AvailableRAMBytes = 40 * 2 ^ 30,
     hc_RuntimeFreeBytes = 4 * 2 ^ 30, hc_ScratchFreeBytes = 100 * 2 ^ 30, hc_RuntimeIsTmpfs = True,
     hc_DiskBackedSwap = False\<rparr>"

definition example_request :: CapacityRequest where
  "example_request = \<lparr>cq_GuestRAMBytes = 8 * 2 ^ 30, cq_ExpectedWritesBytes = 2 ^ 30,
     cq_SmallScratchMax = 2 * 2 ^ 30\<rparr>"

definition example_pool :: CapacityPool where
  "example_pool = \<lparr>cp_host = example_host, cp_reservations = [], cp_ramBytes = 0, cp_runtimeBytes = 0,
     cp_scratchBytes = 0, cp_objects = []\<rparr>"

lemma example_pool_new: "NewCapacityPool example_host = Inr example_pool"
  by (simp add: NewCapacityPool_def example_host_def example_pool_def)



text \<open>C30: The planner against unbounded arithmetic.  With its overflow tests the 64-bit planner
  chooses the scratch mode that the same decision over natural numbers chooses, on every input.\<close>

theorem PlanCapacity_refines:
  "(case PlanCapacity host request of Inl _ \<Rightarrow> None | Inr plan \<Rightarrow> Some (pl_Mode plan)) = plan_spec host request"
  by (rule PlanCapacity_mode)

lemma swap_lines_False:
  "swap_lines lines = Inr False \<Longrightarrow> line \<in> set lines \<Longrightarrow>
     text_fields line = [] \<or> (\<exists>n rest. text_fields line = (''/dev/zram'' @ n) # rest \<and> ParseUint 31 n \<noteq> None)"
proof (induction lines)
  case (Cons l lines)
  show ?case
  proof (cases "text_fields l")
    case Nil
    with Cons show ?thesis by auto
  next
    case (Cons path rest)
    with Cons.prems(1) have ok: "has_prefix ''/'' path" "ParseUint 31 (trim_prefix ''/dev/zram'' path) \<noteq> None"
      and next_lines: "swap_lines lines = Inr False"
      by (auto simp: Let_def split: if_splits)
    have "has_prefix ''/dev/zram'' path"
    proof (rule ccontr)
      assume "\<not> has_prefix ''/dev/zram'' path"
      then have "trim_prefix ''/dev/zram'' path = path" by (simp add: trim_prefix_def has_prefix_def)
      with ok show False
        by (auto simp: has_prefix_iff ParseUint_def is_digit_def char_between_def split: if_splits)
    qed
    then obtain n where "path = ''/dev/zram'' @ n" by (auto simp: has_prefix_iff)
    with ok(2) \<open>text_fields l = path # rest\<close> next_lines Cons.IH Cons.prems(2) show ?thesis
      by (auto simp: trim_prefix_def)
  qed
qed simp

text \<open>C32: Swap evidence fails closed.  The reader reports that there is no disk-backed swap only
  if the header is the kernel's and every further line is blank or names a numbered
  compressed-memory device.\<close>

theorem swap_evidence_fails_closed:
  assumes "parseDiskBackedSwap data = Inr False"
  shows "\<exists>header lines. split_at newline data = header # lines \<and> take 2 (text_fields header) = [''Filename'', ''Type''] \<and>
    (\<forall>line\<in>set lines. text_fields line = [] \<or>
      (\<exists>n rest. text_fields line = (''/dev/zram'' @ n) # rest \<and> ParseUint 31 n \<noteq> None))"
proof -
  from assms obtain header lines where h: "split_at newline data = header # lines"
    "take 2 (text_fields header) = [''Filename'', ''Type'']" "swap_lines lines = Inr False"
    by (auto simp: parseDiskBackedSwap_def split: list.splits if_splits)
  with swap_lines_False show ?thesis by blast
qed

definition example_swaps :: string where
  "example_swaps = ''Filename Type Size Used Priority'' @ [newline] @ ''/dev/zram0 partition 8 0 100'' @ [newline]"

theorem swap_evidence_fails_closed_witness:
  "parseDiskBackedSwap example_swaps = Inr False \<and> (\<exists>header lines. split_at newline example_swaps = header # lines)"
proof -
  have run: "parseDiskBackedSwap example_swaps = Inr False" by code_simp
  from swap_evidence_fails_closed [OF run] run show ?thesis by blast
qed

end
