(* ===== verification/Storage_Images.thy ===== *)
theory Storage_Images
  imports Resource_Contract "HOL-Library.List_Lexorder" "HOL-Library.Char_ord"
begin

text \<open>
  The image-use registry of \<^verbatim>\<open>internal/storage/image_registry.go\<close>: leases that count how many
  virtual machines use an image, and exclusive tooling operations on images no machine uses.
  A tooling operation runs outside the lock, so its start and its deferred end are two steps
  that other calls may come between.
\<close>

section \<open>Data and operations\<close>

record ImageLease =
  le_paths :: "string list"
  le_released :: bool

record ImageUseRegistry =
  ir_active :: "(string \<times> u32) list"
  ir_tooling :: "string list"
  ir_leases :: "ImageLease list" \<comment> \<open>the heap of leases handed out\<close>
  ir_running :: "string list list" \<comment> \<open>the paths of tooling operations not yet ended\<close>

definition NewImageUseRegistry :: ImageUseRegistry where
  "NewImageUseRegistry = \<lparr>ir_active = [], ir_tooling = [], ir_leases = [], ir_running = []\<rparr>"

definition active_count :: "ImageUseRegistry \<Rightarrow> string \<Rightarrow> u32" where
  "active_count r path = (case map_of (ir_active r) path of None \<Rightarrow> 0 | Some n \<Rightarrow> n)"

fun collectPaths :: "string list \<Rightarrow> string list \<Rightarrow> string list option" where
  "collectPaths seen [] = Some []"
| "collectPaths seen (path # paths) =
     (if \<not> clean_abs path \<or> path \<in> set seen then None
      else map_option ((#) path) (collectPaths (path # seen) paths))"

definition cleanImagePaths :: "string list \<Rightarrow> string + string list" where
  "cleanImagePaths paths =
     (if paths = [] \<or> length paths > 8 then Inl ''image path set is empty or exceeds its bound''
      else case collectPaths [] paths of
          None \<Rightarrow> Inl ''image paths must be unique clean absolute paths''
        | Some clean \<Rightarrow> Inr (sort clean))"

definition busy :: "ImageUseRegistry \<Rightarrow> string \<Rightarrow> bool" where
  "busy r path \<longleftrightarrow> active_count r path \<noteq> 0 \<or> path \<in> set (ir_tooling r)"

definition withTool_begin :: "string list \<Rightarrow> ImageUseRegistry \<Rightarrow> ImageUseRegistry \<times> string option" where
  "withTool_begin paths r =
     (case cleanImagePaths paths of
        Inl _ \<Rightarrow> (r, Some ''image tooling requires clean paths and an operation'')
      | Inr clean \<Rightarrow>
          if list_ex (busy r) clean
          then (r, Some ''qemu-img cannot touch an active or concurrently inspected image'')
          else (r\<lparr>ir_tooling := clean @ ir_tooling r, ir_running := clean # ir_running r\<rparr>, None))"

definition withTool_end :: "string list \<Rightarrow> ImageUseRegistry \<Rightarrow> ImageUseRegistry" where
  "withTool_end clean r =
     r\<lparr>ir_tooling := filter (\<lambda>path. path \<notin> set clean) (ir_tooling r), ir_running := remove1 clean (ir_running r)\<rparr>"

definition raise_count :: "string \<Rightarrow> ImageUseRegistry \<Rightarrow> ImageUseRegistry" where
  "raise_count path r = r\<lparr>ir_active := AList.update path (active_count r path + 1) (ir_active r)\<rparr>"

definition Activate :: "string list \<Rightarrow> ImageUseRegistry \<Rightarrow> ImageUseRegistry \<times> (string + nat)" where
  "Activate paths r =
     (case cleanImagePaths paths of
        Inl e \<Rightarrow> (r, Inl e)
      | Inr clean \<Rightarrow>
          if list_ex (\<lambda>path. path \<in> set (ir_tooling r)) clean
          then (r, Inl ''QEMU image activation overlaps a tooling operation'')
          else if list_ex (\<lambda>path. active_count r path = - 1) clean
          then (r, Inl ''QEMU image lease count overflow'')
          else ((fold raise_count clean r)
                  \<lparr>ir_leases := ir_leases r @ [\<lparr>le_paths = clean, le_released = False\<rparr>]\<rparr>,
                Inr (length (ir_leases r))))"

definition removable :: "string list \<Rightarrow> ImageUseRegistry \<Rightarrow> bool" where
  "removable paths r =
     (case cleanImagePaths paths of Inl _ \<Rightarrow> False | Inr clean \<Rightarrow> list_all (\<lambda>path. \<not> busy r path) clean)"

definition lower_count :: "string \<Rightarrow> ImageUseRegistry \<Rightarrow> ImageUseRegistry" where
  "lower_count path r =
     (let n = active_count r path - 1 in
      if n = 0 then r\<lparr>ir_active := AList.delete path (ir_active r)\<rparr>
      else r\<lparr>ir_active := AList.update path n (ir_active r)\<rparr>)"

definition LeaseDestroy :: "nat \<Rightarrow> ImageUseRegistry \<Rightarrow> ImageUseRegistry \<times> string option" where
  "LeaseDestroy h r =
     (if length (ir_leases r) \<le> h then (r, Some ''image lease is invalid'')
      else let l = ir_leases r ! h in
      if le_released l then (r, None)
      else if list_ex (\<lambda>path. active_count r path = 0) (le_paths l)
      then (r, Some ''image lease ownership is inconsistent'')
      else ((fold lower_count (le_paths l) r)\<lparr>ir_leases := (ir_leases r)[h := l\<lparr>le_released := True\<rparr>]\<rparr>, None))"

definition LeaseAudit :: "nat \<Rightarrow> ImageUseRegistry \<Rightarrow> ImageUseRegistry \<times> string option" where
  "LeaseAudit h r =
     (if length (ir_leases r) \<le> h then (r, Some ''image lease is invalid'')
      else if \<not> le_released (ir_leases r ! h) then (r, Some ''image lease remains active'')
      else (r, None))"

section \<open>Counting leases\<close>

lemma collectPaths_Some:
  "collectPaths seen paths = Some clean \<Longrightarrow>
     clean = paths \<and> distinct paths \<and> set paths \<inter> set seen = {} \<and> list_all clean_abs paths"
  by (induction paths arbitrary: seen clean) (fastforce split: if_splits)+

lemma cleanImagePaths_Inr:
  "cleanImagePaths paths = Inr clean \<Longrightarrow> distinct clean \<and> set clean = set paths \<and> clean \<noteq> []"
  by (auto simp: cleanImagePaths_def dest!: collectPaths_Some split: if_splits option.splits)
    (metis length_0_conv length_sort)

lemma raise_count_frame [simp]:
  "ir_tooling (raise_count path r) = ir_tooling r" "ir_leases (raise_count path r) = ir_leases r"
  "ir_running (raise_count path r) = ir_running r"
  "active_count (raise_count path r) q = (if q = path then active_count r path + 1 else active_count r q)"
  by (simp_all add: raise_count_def active_count_def update_conv')

lemma lower_count_frame [simp]:
  "ir_tooling (lower_count path r) = ir_tooling r" "ir_leases (lower_count path r) = ir_leases r"
  "ir_running (lower_count path r) = ir_running r"
  "active_count (lower_count path r) q = (if q = path then active_count r path - 1 else active_count r q)"
  by (auto simp: lower_count_def active_count_def Let_def update_conv' delete_conv')

lemma fold_raise [simp]:
  "ir_tooling (fold raise_count ps r) = ir_tooling r" "ir_leases (fold raise_count ps r) = ir_leases r"
  "ir_running (fold raise_count ps r) = ir_running r"
  "distinct ps \<Longrightarrow> active_count (fold raise_count ps r) q = active_count r q + of_bool (q \<in> set ps)"
  by (induction ps arbitrary: r) auto

lemma fold_lower [simp]:
  "ir_tooling (fold lower_count ps r) = ir_tooling r" "ir_leases (fold lower_count ps r) = ir_leases r"
  "ir_running (fold lower_count ps r) = ir_running r"
  "distinct ps \<Longrightarrow> active_count (fold lower_count ps r) q = active_count r q - of_bool (q \<in> set ps)"
  by (induction ps arbitrary: r) auto

definition live_lease :: "ImageUseRegistry \<Rightarrow> nat \<Rightarrow> bool" where
  "live_lease r h \<longleftrightarrow> h < length (ir_leases r) \<and> \<not> le_released (ir_leases r ! h)"

definition uses :: "string \<Rightarrow> ImageLease \<Rightarrow> nat" where
  "uses path l = of_bool (\<not> le_released l \<and> path \<in> set (le_paths l))"

definition lease_count :: "ImageUseRegistry \<Rightarrow> string \<Rightarrow> nat" where
  "lease_count r path = sum_list (map (uses path) (ir_leases r))"

definition registry_inv :: "ImageUseRegistry \<Rightarrow> bool" where
  "registry_inv r \<longleftrightarrow>
     (\<forall>path. unat (active_count r path) = lease_count r path) \<and>
     (\<forall>l\<in>set (ir_leases r). distinct (le_paths l)) \<and>
     (\<forall>path\<in>set (ir_tooling r). active_count r path = 0) \<and>
     distinct (concat (ir_running r)) \<and> set (ir_tooling r) = set (concat (ir_running r))"

lemma lease_count_live:
  "live_lease r h \<Longrightarrow> path \<in> set (le_paths (ir_leases r ! h)) \<Longrightarrow> 0 < lease_count r path"
  using member_le_sum_list [of "uses path (ir_leases r ! h)" "map (uses path) (ir_leases r)"]
  by (auto simp: live_lease_def lease_count_def uses_def)

lemma lease_count_updates [simp]:
  "lease_count (r\<lparr>ir_tooling := t\<rparr>) path = lease_count r path"
  "lease_count (r\<lparr>ir_running := u\<rparr>) path = lease_count r path"
  "active_count (r\<lparr>ir_tooling := t\<rparr>) path = active_count r path"
  "active_count (r\<lparr>ir_running := u\<rparr>) path = active_count r path"
  "active_count (r\<lparr>ir_leases := ls\<rparr>) path = active_count r path"
  by (simp_all add: lease_count_def active_count_def)

lemma unat_succ: "(n :: u32) \<noteq> - 1 \<Longrightarrow> unat (n + 1) = Suc (unat n)"
  by (metis unatSuc add.commute add_eq_0_iff)

lemma unat_pred: "(n :: u32) \<noteq> 0 \<Longrightarrow> unat (n - 1) = unat n - 1"
  by (simp add: unat_minus_one)

section \<open>The invariant\<close>

lemma Activate_inv:
  assumes "Activate paths r = (r', res)" and inv: "registry_inv r"
  shows "registry_inv r'"
proof (cases "r' = r")
  case False
  then obtain clean where clean: "cleanImagePaths paths = Inr clean"
    and free: "\<forall>path\<in>set clean. path \<notin> set (ir_tooling r) \<and> active_count r path \<noteq> - 1"
    and r': "r' = (fold raise_count clean r)\<lparr>ir_leases := ir_leases r @ [\<lparr>le_paths = clean, le_released = False\<rparr>]\<rparr>"
    using assms(1) by (auto simp: Activate_def list_ex_iff split: sum.splits if_splits)
  have d: "distinct clean" using cleanImagePaths_Inr [OF clean] by simp
  have act: "active_count r' q = active_count r q + of_bool (q \<in> set clean)" for q
    using d by (simp add: r')
  have cnt: "lease_count r' q = lease_count r q + of_bool (q \<in> set clean)" for q
    by (simp add: r' lease_count_def uses_def)
  have "unat (active_count r' q) = lease_count r' q" for q
    unfolding act cnt using inv free unat_succ [of "active_count r q"] by (auto simp: registry_inv_def)
  with inv free d act show ?thesis by (auto simp: registry_inv_def r')
qed (use inv in simp)

lemma withTool_begin_inv:
  assumes "withTool_begin paths r = (r', res)" and inv: "registry_inv r"
  shows "registry_inv r'"
proof (cases "r' = r")
  case False
  then obtain clean where clean: "cleanImagePaths paths = Inr clean" and free: "\<forall>path\<in>set clean. \<not> busy r path"
    and r': "r' = r\<lparr>ir_tooling := clean @ ir_tooling r, ir_running := clean # ir_running r\<rparr>"
    using assms(1) by (auto simp: withTool_begin_def list_ex_iff split: sum.splits if_splits)
  have "distinct clean" using cleanImagePaths_Inr [OF clean] by simp
  with inv free show ?thesis by (auto simp: registry_inv_def r' busy_def)
qed (use inv in simp)

lemma withTool_end_inv:
  assumes inv: "registry_inv r" and run: "clean \<in> set (ir_running r)"
  shows "registry_inv (withTool_end clean r)"
proof -
  obtain us vs where uv: "ir_running r = us @ clean # vs" "clean \<notin> set us"
    using split_list_first [OF run] by blast
  then have "remove1 clean (ir_running r) = us @ vs" by (simp add: remove1_append)
  with inv uv show ?thesis by (auto simp: registry_inv_def withTool_end_def)
qed

lemma LeaseDestroy_live:
  assumes inv: "registry_inv r" and live: "live_lease r h"
  shows "\<exists>r'. LeaseDestroy h r = (r', None) \<and> registry_inv r' \<and> (\<forall>k. live_lease r' k \<longleftrightarrow> live_lease r k \<and> k \<noteq> h) \<and>
    length (ir_leases r') = length (ir_leases r)"
proof -
  let ?l = "ir_leases r ! h"
  let ?r = "(fold lower_count (le_paths ?l) r)\<lparr>ir_leases := (ir_leases r)[h := ?l\<lparr>le_released := True\<rparr>]\<rparr>"
  have l: "?l \<in> set (ir_leases r)" "h < length (ir_leases r)" "\<not> le_released ?l" using live by (auto simp: live_lease_def)
  then have d: "distinct (le_paths ?l)" using inv by (auto simp: registry_inv_def)
  have pos: "active_count r q \<noteq> 0" if "q \<in> set (le_paths ?l)" for q
    using lease_count_live [OF live that] inv by (auto simp: registry_inv_def simp flip: unat_eq_0)
  then have run: "LeaseDestroy h r = (?r, None)"
    using l by (auto simp: LeaseDestroy_def Let_def list_ex_iff)
  have act: "active_count ?r q = active_count r q - of_bool (q \<in> set (le_paths ?l))" for q
    using d by simp
  have cnt: "lease_count ?r q = lease_count r q - of_bool (q \<in> set (le_paths ?l))" for q
    using l by (simp add: lease_count_def map_update sum_list_update uses_def)
  have "unat (active_count ?r q) = lease_count ?r q" for q
    unfolding act cnt using inv pos [of q] unat_pred [of "active_count r q"]
    by (auto simp: registry_inv_def)
  moreover have "\<forall>m\<in>set (ir_leases ?r). distinct (le_paths m)"
    using inv d by (auto simp: registry_inv_def dest!: set_update_subset_insert [THEN subsetD])
  moreover have "\<forall>path\<in>set (ir_tooling r). active_count ?r path = 0"
  proof
    fix path
    assume "path \<in> set (ir_tooling r)"
    then have "active_count r path = 0" using inv by (simp add: registry_inv_def)
    with pos [of path] show "active_count ?r path = 0" unfolding act by auto
  qed
  ultimately have "registry_inv ?r" using inv by (auto simp: registry_inv_def)
  moreover have "live_lease ?r k \<longleftrightarrow> live_lease r k \<and> k \<noteq> h" for k
    using l by (auto simp: live_lease_def nth_list_update)
  ultimately show ?thesis using run by auto
qed

lemma LeaseDestroy_released: "h < length (ir_leases r) \<Longrightarrow> \<not> live_lease r h \<Longrightarrow> LeaseDestroy h r = (r, None)"
  by (simp add: LeaseDestroy_def live_lease_def Let_def)

lemma LeaseDestroy_inv:
  assumes "LeaseDestroy h r = (r', e)" "registry_inv r"
  shows "registry_inv r'"
  using assms LeaseDestroy_live [OF assms(2), of h] LeaseDestroy_released [of h r]
  by (cases "live_lease r h"; cases "h < length (ir_leases r)") (auto simp: LeaseDestroy_def)

interpretation lease: cleanup_resource registry_inv "\<lambda>r h. h < length (ir_leases r)" live_lease LeaseDestroy LeaseAudit
proof unfold_locales
  fix r h
  show "registry_inv r \<Longrightarrow> live_lease r h \<Longrightarrow> \<exists>r'. LeaseDestroy h r = (r', None) \<and> registry_inv r' \<and>
      (\<forall>k. live_lease r' k \<longleftrightarrow> live_lease r k \<and> k \<noteq> h) \<and>
      (\<forall>k. (k < length (ir_leases r')) = (k < length (ir_leases r)))"
    using LeaseDestroy_live [of r h] by auto
  show "registry_inv r \<Longrightarrow> h < length (ir_leases r) \<Longrightarrow> \<not> live_lease r h \<Longrightarrow> LeaseDestroy h r = (r, None)"
    by (rule LeaseDestroy_released)
  show "registry_inv r \<Longrightarrow> h < length (ir_leases r) \<Longrightarrow>
      \<exists>e. LeaseAudit h r = (r, e) \<and> (e = None \<longleftrightarrow> \<not> live_lease r h)"
    by (auto simp: LeaseAudit_def live_lease_def)
  show "live_lease r h \<Longrightarrow> h < length (ir_leases r)" by (simp add: live_lease_def)
qed

section \<open>Properties\<close>

inductive registry_step :: "ImageUseRegistry \<Rightarrow> ImageUseRegistry \<Rightarrow> bool" where
  activate: "Activate paths r = (r', res) \<Longrightarrow> registry_step r r'"
| release: "LeaseDestroy h r = (r', e) \<Longrightarrow> registry_step r r'"
| tool_begin: "withTool_begin paths r = (r', e) \<Longrightarrow> registry_step r r'"
| tool_end: "clean \<in> set (ir_running r) \<Longrightarrow> registry_step r (withTool_end clean r)"

lemma registry_steps_inv: "registry_step\<^sup>*\<^sup>* r r' \<Longrightarrow> registry_inv r \<Longrightarrow> registry_inv r'"
  by (induction rule: rtranclp_induct)
    (auto elim!: registry_step.cases dest: Activate_inv LeaseDestroy_inv withTool_begin_inv withTool_end_inv)

lemma NewImageUseRegistry_inv: "registry_inv NewImageUseRegistry"
  by (simp add: registry_inv_def NewImageUseRegistry_def active_count_def lease_count_def)

lemma distinct_concat_once:
  "distinct (concat xss) \<Longrightarrow> xs \<in> set xss \<Longrightarrow> x \<in> set xs \<Longrightarrow> filter (\<lambda>ys. x \<in> set ys) xss = [xs]"
proof (induction xss)
  case (Cons ys xss)
  then show ?case
    by (cases "x \<in> set ys") (auto simp: filter_empty_conv)
qed simp



end
