(* ===== verification/Session_Resources.thy ===== *)
theory Session_Resources
  imports Session_Actor Storage_Capacity Storage_Images
begin

text \<open>
  Resources held by sessions: how an allocator of \<^verbatim>\<open>internal/storage/session.go\<close> hands a provider's
  destroy and audit functions to the session actor, and what the actor's cleanup does to the
  provider.  The lemma is proved once for every provider that meets the contract
  \<open>cleanup_resource\<close>.
\<close>


section \<open>Providers inside the actor's world\<close>

definition on_state :: "('s \<Rightarrow> 's \<times> string option) \<Rightarrow> ('s \<times> 'r) action" where
  "on_state f w = (let (s, e) = f (fst w) in ((s, snd w), map_option ErrText e))"

definition resource_step ::
    "('h \<Rightarrow> 's \<Rightarrow> 's \<times> string option) \<Rightarrow> ('h \<Rightarrow> 's \<Rightarrow> 's \<times> string option) \<Rightarrow> string \<Rightarrow> 'h \<Rightarrow> ('s \<times> 'r) cleanupStep" where
  "resource_step destroy audit name h = new_step name (on_state (destroy h)) (on_state (audit h))"

definition CapacityAllocation ::
    "string \<Rightarrow> CapacityRequest \<Rightarrow> (CapacityPool \<times> 'r) allocateFunc" where
  "CapacityAllocation sessionID request w =
     (case Reserve sessionID request (fst w) of
        (p, Inl e) \<Rightarrow> ((p, snd w), None, None, Some (ErrText e))
      | (p, Inr h) \<Rightarrow> ((p, snd w), Some (on_state (Destroy h)), Some (on_state (Audit h)), None))"

context cleanup_resource
begin

text \<open>Running any list of cleanup steps of this provider releases exactly their handles.\<close>

lemma cleanup_releases:
  assumes "inv s" "\<forall>nh\<in>set hs. issued s (snd nh)"
  shows "\<exists>s'. cleanup_all (map (\<lambda>nh. resource_step destroy audit (fst nh) (snd nh)) hs) (s, r) = (True, (s', r)) \<and>
    inv s' \<and> (\<forall>h. live s' h \<longleftrightarrow> live s h \<and> h \<notin> snd ` set hs)"
  using assms
proof (induction hs arbitrary: s)
  case (Cons nh hs)
  from destroy_audit [OF Cons.prems(1), of "snd nh"] Cons.prems(2) obtain s1 where
    s1: "destroy (snd nh) s = (s1, None)" "audit (snd nh) s1 = (s1, None)" "inv s1" "\<not> live s1 (snd nh)"
      "\<forall>k. k \<noteq> snd nh \<longrightarrow> live s1 k = live s k" "\<forall>k. issued s1 k = issued s k" by auto
  from Cons.IH [OF s1(3)] Cons.prems(2) s1(6) obtain s' where
    s': "cleanup_all (map (\<lambda>nh. resource_step destroy audit (fst nh) (snd nh)) hs) (s1, r) = (True, (s', r))"
      "inv s'" "\<forall>h. live s' h \<longleftrightarrow> live s1 h \<and> h \<notin> snd ` set hs" by auto
  have "cleanup_all (map (\<lambda>nh. resource_step destroy audit (fst nh) (snd nh)) (nh # hs)) (s, r) = (True, (s', r))"
    using s1(1,2) s'(1) by (simp add: resource_step_def new_step_def on_state_def)
  with s' s1(4,5) show ?case by (intro exI [of _ s']) auto
qed simp

end

section \<open>Properties\<close>


definition example_session :: session where
  "example_session = \<lparr>se_id = ''pvm-0123456789abcdef0123456789abcdef'', se_ownerUID = 1000,
     se_role = RoleWorkstation, se_phase = PhaseCreated, se_workflowState = '''', se_sequence = 1,
     se_createdAt = 5, se_updatedAt = 5, se_events = [creation_event 5]\<rparr>"

lemma example_capacity_acquired:
  "\<exists>it' w'. acquire ''capacity'' (CapacityAllocation ''pvm-0123456789abcdef0123456789abcdef'' example_request)
     (\<lambda>w. None) (new_entry example_session) (example_pool, ()) = (None, it', w')"
  by (simp add: acquire_def new_entry_def example_session_def cleanupPhase_def CapacityAllocation_def Reserve_def
      example_pool_def example_host_def example_request_def storageSessionPattern_def is_lower_hex_def
      is_digit_def char_between_def effectiveHost_def subtractCapacity_def PlanCapacity_def hostReserve_def
      add3_def addCapacity_def planned_def charge_def)


end
