(* ===== verification/Guest_CID.thy ===== *)
theory Guest_CID
  imports Prelude
begin

text \<open>
  The allocator of guest context identifiers of \<^verbatim>\<open>internal/guest/cid.go\<close>: a cursor that cycles
  through a closed range of 32-bit identifiers, and the set of identifiers in use.
\<close>

section \<open>Data and operations\<close>

definition MinimumGuestCID :: u32 where "MinimumGuestCID = 3"
definition MaximumGuestCID :: u32 where "MaximumGuestCID = 0x7fffffff"

datatype cid_error = ErrCIDRange | ErrCIDUnavailable | ErrCIDOutside | ErrCIDCollision

record CIDAllocator =
  ca_min :: u32
  ca_max :: u32
  ca_next :: u32
  ca_used :: "u32 list"

definition NewCIDAllocator :: "u32 \<Rightarrow> u32 \<Rightarrow> cid_error + CIDAllocator" where
  "NewCIDAllocator minimum maximum =
     (if minimum < MinimumGuestCID \<or> maximum < minimum \<or> maximum > MaximumGuestCID then Inl ErrCIDRange
      else Inr \<lparr>ca_min = minimum, ca_max = maximum, ca_next = minimum, ca_used = []\<rparr>)"

definition advance :: "CIDAllocator \<Rightarrow> CIDAllocator" where
  "advance a = (if ca_next a = ca_max a then a\<lparr>ca_next := ca_min a\<rparr> else a\<lparr>ca_next := ca_next a + 1\<rparr>)"

fun allocate_attempts :: "nat \<Rightarrow> CIDAllocator \<Rightarrow> CIDAllocator \<times> (cid_error + u32)" where
  "allocate_attempts 0 a = (a, Inl ErrCIDUnavailable)"
| "allocate_attempts (Suc n) a =
     (let candidate = ca_next a; a1 = advance a in
      if candidate \<in> set (ca_used a1) then allocate_attempts n a1
      else (a1\<lparr>ca_used := candidate # ca_used a1\<rparr>, Inr candidate))"

definition capacity_of :: "CIDAllocator \<Rightarrow> nat" where
  "capacity_of a = unat (ca_max a) - unat (ca_min a) + 1"

definition AllocateCID :: "CIDAllocator \<Rightarrow> CIDAllocator \<times> (cid_error + u32)" where
  "AllocateCID a = allocate_attempts (capacity_of a) a"

definition ReserveCID :: "u32 \<Rightarrow> CIDAllocator \<Rightarrow> CIDAllocator \<times> cid_error option" where
  "ReserveCID cid a =
     (if cid < ca_min a \<or> cid > ca_max a then (a, Some ErrCIDOutside)
      else if cid \<in> set (ca_used a) then (a, Some ErrCIDCollision)
      else (a\<lparr>ca_used := cid # ca_used a\<rparr>, None))"

definition ReleaseCID :: "u32 \<Rightarrow> CIDAllocator \<Rightarrow> CIDAllocator \<times> bool" where
  "ReleaseCID cid a =
     (if cid \<notin> set (ca_used a) then (a, False)
      else (a\<lparr>ca_used := removeAll cid (ca_used a)\<rparr>, True))"

definition ReservedCID :: "u32 \<Rightarrow> CIDAllocator \<Rightarrow> bool" where
  "ReservedCID cid a \<longleftrightarrow> cid \<in> set (ca_used a)"

section \<open>The cursor\<close>

definition cid_inv :: "CIDAllocator \<Rightarrow> bool" where
  "cid_inv a \<longleftrightarrow> MinimumGuestCID \<le> ca_min a \<and> ca_min a \<le> ca_next a \<and> ca_next a \<le> ca_max a \<and>
     ca_max a \<le> MaximumGuestCID \<and> distinct (ca_used a) \<and> (\<forall>c\<in>set (ca_used a). ca_min a \<le> c \<and> c \<le> ca_max a)"

text \<open>The position of an identifier in the range; the cursor moves one position on, cyclically.\<close>

definition position :: "CIDAllocator \<Rightarrow> u32 \<Rightarrow> nat" where
  "position a c = unat c - unat (ca_min a)"

lemma advance_frame [simp]:
  "ca_min (advance a) = ca_min a" "ca_max (advance a) = ca_max a" "ca_used (advance a) = ca_used a"
  "capacity_of (advance a) = capacity_of a" "position (advance a) c = position a c"
  by (simp_all add: advance_def capacity_of_def position_def)

lemma unat_next: "ca_next a \<noteq> ca_max a \<Longrightarrow> ca_next a \<le> ca_max a \<Longrightarrow> unat (ca_next a + 1) = Suc (unat (ca_next a))"
proof -
  assume "ca_next a \<noteq> ca_max a" "ca_next a \<le> ca_max a"
  then have "unat (ca_next a) < unat (ca_max a)" by (simp flip: word_less_nat_alt)
  then show ?thesis using unat_add_bounded [of "ca_next a" 1 "ca_max a"] by simp
qed

lemma advance_inv:
  assumes "cid_inv a"
  shows "cid_inv (advance a)"
  using assms unat_next [of a] unfolding cid_inv_def advance_def
  by (auto simp: word_le_nat_alt) (metis le_antisym not_less_eq_eq word_unat_eq_iff)+

lemma advance_position:
  assumes "cid_inv a"
  shows "position a (ca_next (advance a)) = Suc (position a (ca_next a)) mod capacity_of a"
proof (cases "ca_next a = ca_max a")
  case True
  with assms show ?thesis by (simp add: advance_def position_def capacity_of_def cid_inv_def)
next
  case False
  have le: "unat (ca_min a) \<le> unat (ca_next a)" "unat (ca_next a) \<le> unat (ca_max a)"
    using assms by (auto simp: cid_inv_def word_le_nat_alt)
  with False have "unat (ca_next a) < unat (ca_max a)" by (metis le_neq_implies_less word_unat_eq_iff)
  with le False unat_next [of a] assms show ?thesis
    by (simp add: advance_def position_def capacity_of_def cid_inv_def)
qed

lemma NewCIDAllocator_inv: "NewCIDAllocator lo hi = Inr a \<Longrightarrow> cid_inv a"
  by (auto simp: NewCIDAllocator_def cid_inv_def split: if_splits)

lemma ReserveCID_inv: "ReserveCID c a = (a', e) \<Longrightarrow> cid_inv a \<Longrightarrow> cid_inv a'"
  by (auto simp: ReserveCID_def cid_inv_def split: if_splits)

lemma ReleaseCID_inv:
  "ReleaseCID c a = (a', b) \<Longrightarrow> cid_inv a \<Longrightarrow> cid_inv a' \<and> \<not> ReservedCID c a'"
  by (auto simp: ReleaseCID_def ReservedCID_def cid_inv_def distinct_removeAll split: if_splits)

text \<open>What a run of attempts returns, and which positions it has found taken.\<close>

lemma allocate_attempts_result:
  assumes "allocate_attempts n a = (a', r)" "cid_inv a"
  shows "case r of
      Inr c \<Rightarrow> c \<notin> set (ca_used a) \<and> ca_min a \<le> c \<and> c \<le> ca_max a \<and> ca_used a' = c # ca_used a \<and>
        ca_min a' = ca_min a \<and> ca_max a' = ca_max a \<and> cid_inv a'
    | Inl e \<Rightarrow> e = ErrCIDUnavailable \<and> ca_used a' = ca_used a \<and> ca_min a' = ca_min a \<and> ca_max a' = ca_max a \<and> cid_inv a' \<and>
        (\<forall>k<n. \<forall>c. ca_min a \<le> c \<longrightarrow> c \<le> ca_max a \<longrightarrow>
          position a c = (position a (ca_next a) + k) mod capacity_of a \<longrightarrow> c \<in> set (ca_used a))"
  using assms
proof (induction n arbitrary: a)
  case 0
  then show ?case by auto
next
  case (Suc n)
  note inv' = advance_inv [OF Suc.prems(2)]
  show ?case
  proof (cases "ca_next a \<in> set (ca_used a)")
    case False
    with Suc.prems inv' show ?thesis by (auto simp: Let_def cid_inv_def)
  next
    case True
    with Suc.prems have run: "allocate_attempts n (advance a) = (a', r)" by (simp add: Let_def)
    note IH = Suc.IH [OF run inv', simplified]
    have here: "c \<in> set (ca_used a)" if "ca_min a \<le> c" "position a c = position a (ca_next a) mod capacity_of a" for c
    proof -
      have "position a (ca_next a) < capacity_of a"
        using Suc.prems(2) by (auto simp: cid_inv_def position_def capacity_of_def word_le_nat_alt)
      with that have "unat c = unat (ca_next a)"
        using Suc.prems(2) by (auto simp: cid_inv_def position_def word_le_nat_alt)
      then have "c = ca_next a" by (simp add: word_unat_eq_iff)
      with True show ?thesis by simp
    qed
    have shift: "(position a (ca_next (advance a)) + k) mod capacity_of a =
        (position a (ca_next a) + Suc k) mod capacity_of a" for k
      by (simp add: advance_position [OF Suc.prems(2)] mod_simps)
    show ?thesis
      using IH here by (cases r) (auto simp: shift less_Suc_eq_0_disj)
  qed
qed

text \<open>C29: Identifier allocation is complete and never doubles.  The bounded scan hands out an
  identifier in the range that nobody holds and records it; and it reports that none is
  available only when every identifier of the range is in use.\<close>

theorem cid_allocation_complete:
  assumes "cid_inv a" "AllocateCID a = (a', r)"
  shows "cid_inv a' \<and> (case r of
      Inr c \<Rightarrow> c \<notin> set (ca_used a) \<and> ca_min a \<le> c \<and> c \<le> ca_max a \<and> ca_used a' = c # ca_used a
    | Inl e \<Rightarrow> e = ErrCIDUnavailable \<and> (\<forall>c. ca_min a \<le> c \<longrightarrow> c \<le> ca_max a \<longrightarrow> c \<in> set (ca_used a)))"
proof (cases r)
  case (Inr c)
  with allocate_attempts_result [OF assms(2) [unfolded AllocateCID_def] assms(1)] show ?thesis by simp
next
  case (Inl e)
  note res = allocate_attempts_result [OF assms(2) [unfolded AllocateCID_def] assms(1), unfolded Inl, simplified]
  have "c \<in> set (ca_used a)" if c: "ca_min a \<le> c" "c \<le> ca_max a" for c
  proof -
    let ?N = "capacity_of a" and ?s = "position a (ca_next a)"
    have pos: "0 < ?N" "position a c < ?N" "?s < ?N"
      using c assms(1) by (auto simp: capacity_of_def position_def cid_inv_def word_le_nat_alt)
    let ?k = "(position a c + ?N - ?s) mod ?N"
    have "(?s + ?k) mod ?N = position a c" using pos by (simp add: mod_simps)
    moreover have "?k < ?N" using pos by simp
    ultimately show ?thesis using res c by metis
  qed
  with Inl res show ?thesis by auto
qed

definition example_allocator :: CIDAllocator where
  "example_allocator = \<lparr>ca_min = 3, ca_max = 5, ca_next = 5, ca_used = [5, 3]\<rparr>"

theorem cid_allocation_complete_witness:
  "\<exists>a1 a2. AllocateCID example_allocator = (a1, Inr 4) \<and> AllocateCID a1 = (a2, Inl ErrCIDUnavailable) \<and>
     (\<forall>c. ca_min a1 \<le> c \<longrightarrow> c \<le> ca_max a1 \<longrightarrow> c \<in> set (ca_used a1))"
proof -
  have inv: "cid_inv example_allocator"
    by (simp add: cid_inv_def example_allocator_def MinimumGuestCID_def MaximumGuestCID_def)
  have "snd (AllocateCID example_allocator) = Inr 4"
    "snd (AllocateCID (fst (AllocateCID example_allocator))) = Inl ErrCIDUnavailable" by code_simp+
  then obtain a1 a2 where 1: "AllocateCID example_allocator = (a1, Inr 4)"
    and 2: "AllocateCID a1 = (a2, Inl ErrCIDUnavailable)" by (metis prod.collapse fst_conv)
  from cid_allocation_complete [OF inv 1(1)] have "cid_inv a1" by simp
  from cid_allocation_complete [OF this 2] 1(1) 2 show ?thesis by auto
qed

end
