(* ===== verification/Base64.thy ===== *)
theory Base64
  imports Prelude
begin

text \<open>
  Base64 as Go's \<^verbatim>\<open>encoding/base64\<close> reads and writes it: the unpadded URL-safe alphabet of the
  guest capability header and the padded standard alphabet of WireGuard keys, the latter with the
  strict decoder that refuses non-zero trailing bits.
\<close>

section \<open>Unpadded URL-safe alphabet\<close>

text \<open>The alphabet: upper case, lower case, digits, hyphen, underscore.\<close>

definition char64 :: "nat \<Rightarrow> char" where
  "char64 n =
     (let v = n mod 64 in
      if v < 26 then char_of (65 + v) else if v < 52 then char_of (71 + v)
      else if v < 62 then char_of (v - 4) else if v = 62 then CHR ''-'' else CHR ''_'')"

definition value64 :: "char \<Rightarrow> nat option" where
  "value64 c =
     (if is_upper c then Some (of_char c - 65) else if is_lower c then Some (of_char c - 71)
      else if is_digit c then Some (of_char c + 4) else if c = CHR ''-'' then Some 62
      else if c = CHR ''_'' then Some 63 else None)"

fun encode64 :: "u8 list \<Rightarrow> string" where
  "encode64 (a # b # c # rest) =
     (let v = unat a * 65536 + unat b * 256 + unat c in
      char64 (v div 262144) # char64 (v div 4096) # char64 (v div 64) # char64 v # encode64 rest)"
| "encode64 [a, b] =
     (let v = unat a * 65536 + unat b * 256 in
      [char64 (v div 262144), char64 (v div 4096), char64 (v div 64)])"
| "encode64 [a] = (let v = unat a * 65536 in [char64 (v div 262144), char64 (v div 4096)])"
| "encode64 [] = []"

fun decode_values :: "nat list \<Rightarrow> u8 list option" where
  "decode_values (a # b # c # d # rest) =
     (let v = a * 262144 + b * 4096 + c * 64 + d in
      map_option (\<lambda>bs. of_nat (v div 65536) # of_nat (v div 256) # of_nat v # bs) (decode_values rest))"
| "decode_values [a, b, c] =
     (let v = a * 262144 + b * 4096 + c * 64 in Some [of_nat (v div 65536), of_nat (v div 256)])"
| "decode_values [a, b] = (let v = a * 262144 + b * 4096 in Some [of_nat (v div 65536)])"
| "decode_values [a] = None"
| "decode_values [] = Some []"

text \<open>The decoder skips carriage returns and line feeds; any other foreign byte is an error.\<close>

definition is_break :: "char \<Rightarrow> bool" where
  "is_break c \<longleftrightarrow> of_char c = (10 :: nat) \<or> of_char c = (13 :: nat)"

definition decode64 :: "string \<Rightarrow> u8 list option" where
  "decode64 s =
     (let kept = filter (\<lambda>c. \<not> is_break c) s in
      if list_all (\<lambda>c. value64 c \<noteq> None) kept then decode_values (map (\<lambda>c. the (value64 c)) kept) else None)"

section \<open>Round trip\<close>

lemma value64_char64: "value64 (char64 n) = Some (n mod 64)" "\<not> is_break (char64 n)"
proof -
  have v: "n mod 64 < 64" by simp
  show "value64 (char64 n) = Some (n mod 64)"
    using v by (auto simp: char64_def value64_def Let_def is_upper_def is_lower_def is_digit_def char_between_def)
  show "\<not> is_break (char64 n)"
    using v by (auto simp: char64_def is_break_def Let_def)
qed

lemma sextets:
  "(n div 262144 mod 64) * 262144 + (n div 4096 mod 64) * 4096 + (n div 64 mod 64) * 64 + n mod 64 = n mod 16777216"
  for n :: nat
proof -
  have "n = 64 * (n div 64) + n mod 64" "n div 64 = 64 * (n div 4096) + n div 64 mod 64"
    "n div 4096 = 64 * (n div 262144) + n div 4096 mod 64"
    "n div 262144 = 64 * (n div 16777216) + n div 262144 mod 64" "n = 16777216 * (n div 16777216) + n mod 16777216"
    using div_mult_mod_eq [of n 64] div_mult_mod_eq [of "n div 64" 64] div_mult_mod_eq [of "n div 4096" 64]
      div_mult_mod_eq [of "n div 262144" 64] div_mult_mod_eq [of n 16777216]
    by (simp_all add: div_mult2_eq [symmetric])
  then show ?thesis by linarith
qed

lemma byte_parts:
  fixes a b c :: u8
  defines "v \<equiv> unat a * 65536 + unat b * 256 + unat c"
  shows "v < 16777216" "of_nat (v div 65536) = a" "of_nat (v div 256) = b" "of_nat v = c"
proof -
  have lim: "unat a < 256" "unat b < 256" "unat c < 256"
    using unsigned_less [of a, where ?'a = nat] unsigned_less [of b, where ?'a = nat]
      unsigned_less [of c, where ?'a = nat] by simp_all
  then show "v < 16777216" unfolding v_def by linarith
  have q: "v div 65536 = unat a" "v div 256 = unat a * 256 + unat b" unfolding v_def using lim by linarith+
  have two: "(256 :: u8) = 0" "(65536 :: u8) = 0" by simp_all
  show "of_nat (v div 65536) = a" by (simp add: q)
  show "of_nat (v div 256) = b" by (simp add: q two)
  show "of_nat v = c" by (simp add: v_def two)
qed

lemma decode_encode_values: "decode_values (map (\<lambda>c. the (value64 c)) (encode64 bs)) = Some bs"
proof (induction bs rule: encode64.induct)
  case (1 a b c rest)
  let ?v = "unat a * 65536 + unat b * 256 + unat c"
  have "?v mod 16777216 = ?v" using byte_parts(1) [of a b c] by simp
  with 1 sextets [of ?v] byte_parts(2-4) [of a b c] show ?case
    by (simp add: Let_def value64_char64)
next
  case (2 a b)
  let ?v = "unat a * 65536 + unat b * 256 + unat (0 :: u8)"
  have "?v mod 16777216 = ?v" using byte_parts(1) [of a b 0] by simp
  moreover have "?v = 64 * (1024 * unat a + 4 * unat b)" by simp
  then have "?v mod 64 = 0" by (metis mod_mult_self1_is_0)
  ultimately show ?case
    using sextets [of ?v] byte_parts(2-4) [of a b 0] by (simp add: Let_def value64_char64)
next
  case (3 a)
  let ?v = "unat a * 65536 + unat (0 :: u8) * 256 + unat (0 :: u8)"
  have "?v mod 16777216 = ?v" using byte_parts(1) [of a 0 0] by simp
  moreover have "?v = 64 * (64 * (16 * unat a))" by simp
  then have "?v mod 64 = 0" "?v div 64 mod 64 = 0"
    by (metis mod_mult_self1_is_0, metis mod_mult_self1_is_0 nonzero_mult_div_cancel_left zero_neq_numeral)
  ultimately show ?case
    using sextets [of ?v] byte_parts(2-4) [of a 0 0] by (simp add: Let_def value64_char64)
qed simp

lemma encode64_chars: "c \<in> set (encode64 bs) \<Longrightarrow> value64 c \<noteq> None \<and> \<not> is_break c"
  by (induction bs rule: encode64.induct) (auto simp: Let_def value64_char64)

lemma decode_encode: "decode64 (encode64 bs) = Some bs"
proof -
  have "filter (\<lambda>c. \<not> is_break c) (encode64 bs) = encode64 bs" "list_all (\<lambda>c. value64 c \<noteq> None) (encode64 bs)"
    using encode64_chars by (auto simp: filter_id_conv list_all_iff)
  then show ?thesis by (simp add: decode64_def decode_encode_values)
qed

lemma encode64_length: "length (encode64 bs) = (4 * length bs + 2) div 3"
  by (induction bs rule: encode64.induct) (auto simp: Let_def)

section \<open>Padded standard alphabet\<close>

text \<open>The standard alphabet differs from the URL-safe one in two characters.\<close>

definition std_char :: "char \<Rightarrow> char" where
  "std_char c = (if c = CHR ''-'' then CHR ''+'' else if c = CHR ''_'' then CHR ''/'' else c)"

definition std_value :: "char \<Rightarrow> nat option" where
  "std_value c = (if c = CHR ''+'' then Some 62 else if c = CHR ''/'' then Some 63
     else if c = CHR ''-'' \<or> c = CHR ''_'' then None else value64 c)"

definition encode_std :: "u8 list \<Rightarrow> string" where
  "encode_std bs =
     map std_char (encode64 bs) @ replicate ((3 - length bs mod 3) mod 3) (CHR ''='')"

text \<open>Without its padding a final group has two or three characters; the strict decoder wants the
  bits they leave over to be zero.\<close>

definition unpad :: "string \<Rightarrow> string option" where
  "unpad s =
     (let body = takeWhile (\<lambda>c. c \<noteq> CHR ''='') s; pad = drop (length body) s in
      if length s mod 4 = 0 \<and> (pad = [] \<or> pad = ''='' \<or> pad = ''=='') then Some body else None)"

definition trailing_zero :: "nat list \<Rightarrow> bool" where
  "trailing_zero vs \<longleftrightarrow>
     (if length vs mod 4 = 2 then last vs mod 16 = 0
      else if length vs mod 4 = 3 then last vs mod 4 = 0 else length vs mod 4 = 0)"

definition decode_std_strict :: "string \<Rightarrow> u8 list option" where
  "decode_std_strict s =
     (case unpad (filter (\<lambda>c. \<not> is_break c) s) of None \<Rightarrow> None
      | Some body \<Rightarrow>
          if list_all (\<lambda>c. std_value c \<noteq> None) body \<and> trailing_zero (map (\<lambda>c. the (std_value c)) body)
          then decode_values (map (\<lambda>c. the (std_value c)) body) else None)"

lemma value64_chars: "value64 c \<noteq> None \<Longrightarrow> c \<noteq> CHR ''='' \<and> c \<noteq> CHR ''+'' \<and> c \<noteq> CHR ''/''"
  by (auto simp: value64_def is_upper_def is_lower_def is_digit_def char_between_def)

lemma std_value_char: "value64 c \<noteq> None \<Longrightarrow> std_value (std_char c) = value64 c"
  using value64_chars [of c]
  by (auto simp: std_value_def std_char_def value64_def is_upper_def is_lower_def is_digit_def char_between_def)

lemma std_char_plain: "value64 c \<noteq> None \<Longrightarrow> \<not> is_break c \<Longrightarrow> std_char c \<noteq> CHR ''='' \<and> \<not> is_break (std_char c)"
  using value64_chars [of c] by (auto simp: std_char_def is_break_def)

lemma trailing_zero_step: "trailing_zero (a # b # c # d # vs) = trailing_zero vs"
proof -
  have "length (a # b # c # d # vs) mod 4 = length vs mod 4" by simp
  then show ?thesis by (cases "vs = []") (simp_all only: trailing_zero_def last_ConsR, simp_all)
qed

lemma trailing_zero_encode: "trailing_zero (map (\<lambda>c. the (value64 c)) (encode64 bs))"
proof (induction bs rule: encode64.induct)
  case (1 a b c rest)
  then show ?case by (simp add: Let_def trailing_zero_step)
next
  case (2 a b)
  have "((unat a * 65536 + unat b * 256) div 64 mod 64) mod 4 = 0"
  proof -
    have "(unat a * 65536 + unat b * 256) div 64 = 4 * (unat a * 256 + unat b)" by simp
    then show ?thesis by (simp add: mod_mod_cancel)
  qed
  then show ?case by (simp add: trailing_zero_def Let_def value64_char64 numeral_2_eq_2 [symmetric] numeral_3_eq_3 [symmetric])
next
  case (3 a)
  have "((unat a * 65536) div 4096 mod 64) mod 16 = 0"
  proof -
    have "(unat a * 65536) div 4096 = 16 * unat a" by simp
    then show ?thesis by (simp add: mod_mod_cancel)
  qed
  then show ?case by (simp add: trailing_zero_def Let_def value64_char64 numeral_2_eq_2 [symmetric])
qed (simp add: trailing_zero_def)

lemma encode_std_length: "length (encode_std bs) = 4 * ((length bs + 2) div 3)"
proof (induction bs rule: encode64.induct)
  case (1 a b c rest)
  moreover have "(length (a # b # c # rest) + 2) div 3 = Suc ((length rest + 2) div 3)"
    "length (a # b # c # rest) mod 3 = length rest mod 3" by simp_all
  ultimately show ?case by (simp only: encode_std_def encode64.simps Let_def) simp
qed (simp_all add: encode_std_def Let_def)

lemma decode_encode_std: "decode_std_strict (encode_std bs) = Some bs"
proof -
  let ?body = "map std_char (encode64 bs)" and ?pad = "replicate ((3 - length bs mod 3) mod 3) (CHR ''='')"
  have plain: "value64 c \<noteq> None" "\<not> is_break c" if "c \<in> set (encode64 bs)" for c
    using encode64_chars [OF that] by simp_all
  have keep: "filter (\<lambda>c. \<not> is_break c) (encode_std bs) = encode_std bs"
    using std_char_plain [OF plain] by (auto simp: encode_std_def filter_id_conv is_break_def)
  have body: "takeWhile (\<lambda>c. c \<noteq> CHR ''='') (encode_std bs) = ?body"
  proof -
    have "\<forall>c \<in> set ?body. c \<noteq> CHR ''=''" using std_char_plain [OF plain] by auto
    then show ?thesis unfolding encode_std_def by (subst takeWhile_append2) (auto simp: takeWhile_eq_Nil_iff)
  qed
  have small: "k = 0 \<or> k = 1 \<or> k = 2" if "k < 3" for k :: nat using that by linarith
  have "(3 - length bs mod 3) mod 3 = 0 \<or> (3 - length bs mod 3) mod 3 = 1 \<or> (3 - length bs mod 3) mod 3 = 2"
    by (rule small) simp
  then have pad: "?pad = [] \<or> ?pad = ''='' \<or> ?pad = ''==''" by (elim disjE) (simp_all add: numeral_2_eq_2)
  have "drop (length ?body) (encode_std bs) = ?pad" by (simp add: encode_std_def)
  then have un: "unpad (encode_std bs) = Some ?body"
    unfolding unpad_def Let_def body using pad by (simp add: encode_std_length)
  have vals: "map (\<lambda>c. the (std_value c)) ?body = map (\<lambda>c. the (value64 c)) (encode64 bs)"
    using std_value_char plain by simp
  have all: "list_all (\<lambda>c. std_value c \<noteq> None) ?body"
    using std_value_char [OF plain(1)] plain(1) by (auto simp: list_all_iff)
  show ?thesis
    unfolding decode_std_strict_def keep un option.case vals
    using all trailing_zero_encode decode_encode_values by simp
qed

end
