(* ===== verification/Guest_Token.thy ===== *)
theory Guest_Token
  imports Base64
begin

text \<open>
  The per-boot capability of \<^verbatim>\<open>internal/guest/token.go\<close>: how the host puts it into a request header
  and how the guest checks a header against its own copy.  The header is unpadded URL-safe
  base64, as theory Base64 writes it out.
\<close>

section \<open>The capability\<close>

definition TokenSize :: nat where "TokenSize = 32"

text \<open>A token is its 32 bytes, or nothing once it was destroyed.\<close>

type_synonym Token = "u8 list option"

definition TokenFromBytes :: "u8 list \<Rightarrow> string + Token" where
  "TokenFromBytes value =
     (if length value \<noteq> TokenSize then Inl ''guest capability must be exactly 32 bytes'' else Inr (Some value))"

text \<open>\<^verbatim>\<open>encodeTokenReader\<close>: exactly the token's bytes and then the end of the stream.\<close>

definition encodeTokenReader :: "u8 list \<Rightarrow> string + string" where
  "encodeTokenReader stream =
     (if length stream \<noteq> TokenSize then Inl ''guest capability has an invalid length'' else Inr (encode64 stream))"

definition outgoingContext :: "Token \<Rightarrow> string + string list" where
  "outgoingContext t =
     (case t of None \<Rightarrow> Inl ''guest capability is unavailable''
      | Some stream \<Rightarrow> (case encodeTokenReader stream of Inl e \<Rightarrow> Inl e | Inr header \<Rightarrow> Inr [header]))"

text \<open>The header values of the incoming call; \<open>None\<close> when the call carries no metadata at all.\<close>

definition authenticate :: "Token \<Rightarrow> string list option \<Rightarrow> string option" where
  "authenticate t md =
     (case t of None \<Rightarrow> Some ''GUEST_AUTHENTICATION_FAILED''
      | Some own \<Rightarrow>
     (case md of None \<Rightarrow> Some ''GUEST_AUTHENTICATION_FAILED''
      | Some values \<Rightarrow>
          if length values \<noteq> 1 \<or> length (hd values) \<noteq> 43 then Some ''GUEST_AUTHENTICATION_FAILED''
          else
           (case decode64 (hd values) of
              None \<Rightarrow> Some ''GUEST_AUTHENTICATION_FAILED''
            | Some presented \<Rightarrow>
                if length presented \<noteq> TokenSize \<or> presented \<noteq> own
                then Some ''GUEST_AUTHENTICATION_FAILED'' else None)))"

lemma header_accepted_iff:
  assumes "outgoingContext (Some theirs) = Inr header" "length own = TokenSize"
  shows "authenticate (Some own) (Some header) = None \<longleftrightarrow> theirs = own"
proof -
  from assms(1) have h: "header = [encode64 theirs]" "length theirs = TokenSize"
    by (auto simp: outgoingContext_def encodeTokenReader_def split: if_splits)
  then show ?thesis
    by (auto simp: authenticate_def decode_encode encode64_length TokenSize_def)
qed

text \<open>C31: A capability opens its own guest and no other.  The header a host builds from its copy of
  the capability is accepted by a guest exactly if the guest holds the same 32 bytes: encoding
  and decoding are inverse, and no other capability produces an accepted header.\<close>

theorem token_header_accepted_iff:
  assumes "outgoingContext (Some theirs) = Inr header" "length own = TokenSize"
  shows "authenticate (Some own) (Some header) = None \<longleftrightarrow> theirs = own"
  using assms by (rule header_accepted_iff)

theorem token_header_accepted_iff_witness:
  "\<exists>header. outgoingContext (Some (replicate 32 7)) = Inr header \<and>
     authenticate (Some (replicate 32 7)) (Some header) = None \<and>
     authenticate (Some (replicate 32 8)) (Some header) \<noteq> None"
proof -
  let ?h = "[encode64 (replicate 32 7)]"
  have h: "outgoingContext (Some (replicate 32 7)) = Inr ?h"
    by (simp add: outgoingContext_def encodeTokenReader_def TokenSize_def)
  have "(replicate 32 7 :: u8 list) \<noteq> replicate 32 8" by simp
  with token_header_accepted_iff [OF h, of "replicate 32 7"] token_header_accepted_iff [OF h, of "replicate 32 8"] h
  show ?thesis by (auto simp: TokenSize_def)
qed

end
