(* ===== verification/Guest_Handshake.thy ===== *)
theory Guest_Handshake
  imports Guest_Token Session_Model "HOL-Library.Multiset" "HOL-Library.List_Lexorder" "HOL-Library.Char_ord"
begin

text \<open>
  The boot handshake between the host and a guest: roles and capability sets of
  \<^verbatim>\<open>internal/guest/capabilities.go\<close>, the host's checks of \<^verbatim>\<open>internal/guest/handshake.go\<close>, the guest's
  request checks of \<^verbatim>\<open>internal/guest/context.go\<close> and its answer in \<^verbatim>\<open>internal/guest/server.go\<close>.
  Protocol messages are records; an absent message field is \<open>None\<close>.
\<close>

section \<open>Roles and capabilities\<close>

datatype GuestRole = GUEST_ROLE_UNSPECIFIED | GUEST_ROLE_WORKSTATION | GUEST_ROLE_DOWNLOADER
  | GUEST_ROLE_SCANNER | GUEST_ROLE_EXPORTER | GUEST_ROLE_OTHER int

datatype guest_error = GuestRPC string | GuestError string | GuestSession session_error

definition APIMajor :: u32 where "APIMajor = 1"
definition APIMinor :: u32 where "APIMinor = 0"
definition BootNonceSize :: nat where "BootNonceSize = 32"

definition commonCapabilities :: "string list" where
  "commonCapabilities = [''guest-events'', ''guest-shutdown'', ''guest-status'']"

fun roleCapabilities :: "role \<Rightarrow> string list" where
  "roleCapabilities RoleWorkstation = [''desktop'', ''network-warning'', ''vpn-verification'',
     ''wireguard-config'', ''workspace-export'', ''workspace-import'']"
| "roleCapabilities RoleDownloader = [''quarantine-seal'', ''torrent-download'', ''torrent-metadata'',
     ''vpn-verification'', ''wireguard-config'']"
| "roleCapabilities RoleScanner = [''approved-export'', ''definitions-update'', ''inventory'',
     ''offline-verification'', ''reconstruct'', ''scan'', ''scan-report'', ''vpn-verification'', ''wireguard-config'']"
| "roleCapabilities RoleExporter = [''usb-finalize'', ''usb-inspect'', ''usb-prepare'', ''usb-verify'', ''usb-write'']"
| "roleCapabilities _ = []"

definition Capabilities :: "role \<Rightarrow> guest_error + string list" where
  "Capabilities r =
     (case ValidateRole r of Some e \<Rightarrow> Inl (GuestSession e)
      | None \<Rightarrow> Inr (sort (commonCapabilities @ roleCapabilities r)))"

fun ProtoRole :: "role \<Rightarrow> guest_error + GuestRole" where
  "ProtoRole RoleWorkstation = Inr GUEST_ROLE_WORKSTATION"
| "ProtoRole RoleDownloader = Inr GUEST_ROLE_DOWNLOADER"
| "ProtoRole RoleScanner = Inr GUEST_ROLE_SCANNER"
| "ProtoRole RoleExporter = Inr GUEST_ROLE_EXPORTER"
| "ProtoRole _ = Inl (GuestError ''unsupported guest role'')"

fun SessionRole :: "GuestRole \<Rightarrow> guest_error + role" where
  "SessionRole GUEST_ROLE_WORKSTATION = Inr RoleWorkstation"
| "SessionRole GUEST_ROLE_DOWNLOADER = Inr RoleDownloader"
| "SessionRole GUEST_ROLE_SCANNER = Inr RoleScanner"
| "SessionRole GUEST_ROLE_EXPORTER = Inr RoleExporter"
| "SessionRole _ = Inl (GuestError ''unsupported guest role'')"

section \<open>Messages\<close>

record ApiVersion =
  av_Major :: u32
  av_Minor :: u32

record RequestContext =
  rc_ApiVersion :: "ApiVersion option"
  rc_RequestId :: string
  rc_SessionId :: string

record GuestContext =
  gc_Context :: "RequestContext option"
  gc_ExpectedRole :: GuestRole

record GuestHelloResponse =
  hr_ApiVersion :: "ApiVersion option"
  hr_Role :: GuestRole
  hr_ImageDigest :: string
  hr_SourceCommit :: string
  hr_Capabilities :: "string list"
  hr_BootNonce :: "u8 list"
  hr_OsRelease :: string
  hr_GuestdVersion :: string

record HandshakeExpectation =
  he_SessionID :: string
  he_RequestID :: string
  he_Role :: role
  he_ImageDigest :: string
  he_SourceCommit :: string
  he_Capabilities :: "string list"
  he_MinimumProtocolMinor :: u32

record Identity =
  id_Role :: role
  id_ImageDigest :: string
  id_SourceCommit :: string
  id_BootNonce :: "u8 list"
  id_OSRelease :: string
  id_GuestdVersion :: string

section \<open>The guest\<close>

definition guestRequestIDPattern :: "string \<Rightarrow> bool" where
  \<comment> \<open>\<^verbatim>\<open>^[A-Za-z0-9][A-Za-z0-9._-]{7,127}$\<close>\<close>
  "guestRequestIDPattern s =
     (case s of [] \<Rightarrow> False
      | c # cs \<Rightarrow> (is_upper c \<or> is_lower c \<or> is_digit c) \<and> 7 \<le> length cs \<and> length cs \<le> 127 \<and>
          list_all (\<lambda>d. is_upper d \<or> is_lower d \<or> is_digit d \<or> d = CHR ''.'' \<or> d = CHR ''_'' \<or> d = CHR ''-'') cs)"

definition ValidateRequestContext :: "RequestContext option \<Rightarrow> guest_error option" where
  "ValidateRequestContext request =
     (case request of None \<Rightarrow> Some (GuestRPC ''GUEST_CONTEXT_REQUIRED'')
      | Some rc \<Rightarrow>
     (case rc_ApiVersion rc of None \<Rightarrow> Some (GuestRPC ''GUEST_CONTEXT_REQUIRED'')
      | Some v \<Rightarrow>
          if av_Major v \<noteq> APIMajor \<or> av_Minor v > APIMinor
          then Some (GuestRPC ''GUEST_PROTOCOL_VERSION_MISMATCH'')
          else if \<not> guestRequestIDPattern (rc_RequestId rc) \<or> \<not> sessionIDPattern (rc_SessionId rc)
          then Some (GuestRPC ''GUEST_CONTEXT_INVALID'')
          else None))"

definition ValidateGuestContext :: "GuestContext option \<Rightarrow> role \<Rightarrow> guest_error option" where
  "ValidateGuestContext context r =
     (case context of None \<Rightarrow> Some (GuestRPC ''GUEST_CONTEXT_REQUIRED'')
      | Some gc \<Rightarrow>
     (case ValidateRequestContext (gc_Context gc) of Some e \<Rightarrow> Some e
      | None \<Rightarrow> if ProtoRole r = Inr (gc_ExpectedRole gc) then None else Some (GuestRPC ''GUEST_ROLE_MISMATCH'')))"

definition plain_text :: "string \<Rightarrow> bool" where
  "plain_text value \<longleftrightarrow> value \<noteq> '''' \<and> length value \<le> 256 \<and>
     list_all (\<lambda>c. c \<noteq> CHR 0x00 \<and> c \<noteq> CHR 0x0D \<and> c \<noteq> CHR 0x0A) value"

definition ValidateIdentity :: "Identity \<Rightarrow> guest_error option" where
  "ValidateIdentity i =
     (case ValidateRole (id_Role i) of Some e \<Rightarrow> Some (GuestSession e)
      | None \<Rightarrow>
        if length (id_BootNonce i) \<noteq> BootNonceSize then Some (GuestError ''boot nonce must be exactly 32 bytes'')
        else if \<not> list_all plain_text [id_ImageDigest i, id_SourceCommit i, id_OSRelease i, id_GuestdVersion i]
        then Some (GuestError ''identity value is missing or invalid'')
        else None)"

definition Hello :: "Identity \<Rightarrow> GuestContext option \<Rightarrow> guest_error + GuestHelloResponse" where
  "Hello i request =
     (case ValidateGuestContext request (id_Role i) of Some e \<Rightarrow> Inl e
      | None \<Rightarrow>
     (case ProtoRole (id_Role i) of Inl _ \<Rightarrow> Inl (GuestRPC ''GUEST_IDENTITY_INVALID'')
      | Inr r \<Rightarrow>
     (case Capabilities (id_Role i) of Inl _ \<Rightarrow> Inl (GuestRPC ''GUEST_CAPABILITIES_INVALID'')
      | Inr capabilities \<Rightarrow>
          Inr \<lparr>hr_ApiVersion = Some \<lparr>av_Major = APIMajor, av_Minor = APIMinor\<rparr>, hr_Role = r,
            hr_ImageDigest = id_ImageDigest i, hr_SourceCommit = id_SourceCommit i,
            hr_Capabilities = capabilities, hr_BootNonce = id_BootNonce i, hr_OsRelease = id_OSRelease i,
            hr_GuestdVersion = id_GuestdVersion i\<rparr>)))"

text \<open>A unary call through the guest's interceptor chain: capability first, then request context.\<close>

definition serve :: "Token \<Rightarrow> role \<Rightarrow> (GuestContext option \<Rightarrow> guest_error + 'a) \<Rightarrow> string list option \<Rightarrow>
    GuestContext option \<Rightarrow> guest_error + 'a" where
  "serve t r handler md request =
     (case authenticate t md of Some e \<Rightarrow> Inl (GuestRPC e)
      | None \<Rightarrow> (case ValidateGuestContext request r of Some e \<Rightarrow> Inl e | None \<Rightarrow> handler request))"

section \<open>The host\<close>

definition constantTimeStringEqual :: "string \<Rightarrow> string \<Rightarrow> bool" where
  "constantTimeStringEqual left right \<longleftrightarrow> length left = length right \<and> list_all2 (=) left right"

text \<open>The comparison loop over two sorted copies; \<open>previous\<close> is the element before the current one.\<close>

fun same_sorted :: "string option \<Rightarrow> string list \<Rightarrow> string list \<Rightarrow> bool" where
  "same_sorted previous [] [] = True"
| "same_sorted previous (a # actual) (e # expected) =
     (if previous = Some a then False else if a \<noteq> e then False else same_sorted (Some a) actual expected)"
| "same_sorted previous _ _ = False"

definition sameCapabilities :: "string list \<Rightarrow> string list \<Rightarrow> bool" where
  "sameCapabilities actual expected \<longleftrightarrow>
     length actual = length expected \<and> same_sorted None (sort actual) (sort expected)"

definition allZero :: "u8 list \<Rightarrow> bool" where
  "allZero value \<longleftrightarrow> foldl or 0 value = (0 :: u8)"

definition VerifyHello :: "GuestHelloResponse option \<Rightarrow> HandshakeExpectation \<Rightarrow> guest_error option" where
  "VerifyHello response expected =
     (case ProtoRole (he_Role expected) of Inl e \<Rightarrow> Some e
      | Inr r \<Rightarrow>
     (case Option.bind response hr_ApiVersion of None \<Rightarrow> Some (GuestRPC ''GUEST_PROTOCOL_VERSION_MISMATCH'')
      | Some v \<Rightarrow>
       (let resp = the response in
        if av_Major v \<noteq> APIMajor \<or> av_Minor v < he_MinimumProtocolMinor expected
        then Some (GuestRPC ''GUEST_PROTOCOL_VERSION_MISMATCH'')
        else if hr_Role resp \<noteq> r then Some (GuestRPC ''GUEST_ROLE_MISMATCH'')
        else if \<not> constantTimeStringEqual (hr_ImageDigest resp) (he_ImageDigest expected) \<or>
          \<not> constantTimeStringEqual (hr_SourceCommit resp) (he_SourceCommit expected)
        then Some (GuestRPC ''GUEST_IMAGE_IDENTITY_MISMATCH'')
        else if \<not> sameCapabilities (hr_Capabilities resp) (he_Capabilities expected)
        then Some (GuestRPC ''GUEST_CAPABILITY_MISMATCH'')
        else if length (hr_BootNonce resp) \<noteq> BootNonceSize \<or> allZero (hr_BootNonce resp) \<or>
          hr_OsRelease resp = '''' \<or> hr_GuestdVersion resp = ''''
        then Some (GuestRPC ''GUEST_IDENTITY_INCOMPLETE'')
        else None)))"

text \<open>The handshake over a client whose \<^verbatim>\<open>Hello\<close> call is the parameter \<open>call\<close>.\<close>

definition Handshake ::
    "bool \<Rightarrow> (GuestContext option \<Rightarrow> guest_error + GuestHelloResponse) \<Rightarrow> HandshakeExpectation \<Rightarrow>
     guest_error + GuestHelloResponse" where
  "Handshake hasDeadline call expected =
     (if \<not> hasDeadline then Inl (GuestError ''guest handshake requires a deadline'')
      else case ProtoRole (he_Role expected) of Inl e \<Rightarrow> Inl e
      | Inr r \<Rightarrow>
       (let request = Some \<lparr>gc_Context = Some \<lparr>rc_ApiVersion = Some \<lparr>av_Major = APIMajor,
              av_Minor = he_MinimumProtocolMinor expected\<rparr>, rc_RequestId = he_RequestID expected,
              rc_SessionId = he_SessionID expected\<rparr>, gc_ExpectedRole = r\<rparr>
        in case call request of Inl e \<Rightarrow> Inl e
           | Inr response \<Rightarrow>
              (case VerifyHello (Some response) expected of Some e \<Rightarrow> Inl e | None \<Rightarrow> Inr response)))"

section \<open>Facts\<close>

lemma constantTimeStringEqual_iff [simp]: "constantTimeStringEqual a b \<longleftrightarrow> a = b"
  by (auto simp: constantTimeStringEqual_def list_all2_conv_all_nth intro: nth_equalityI)

lemma same_sorted_iff:
  "sorted actual \<Longrightarrow> sorted expected \<Longrightarrow> (\<forall>p. previous = Some p \<longrightarrow> (\<forall>a\<in>set actual. p \<le> a)) \<Longrightarrow>
   same_sorted previous actual expected \<longleftrightarrow>
     actual = expected \<and> distinct actual \<and> (\<forall>p. previous = Some p \<longrightarrow> p \<notin> set actual)"
proof (induction previous actual expected rule: same_sorted.induct)
  case (2 previous a actual e expected)
  show ?case
  proof (cases "previous \<noteq> Some a \<and> a = e")
    case True
    then have IH: "same_sorted (Some a) actual expected \<longleftrightarrow> actual = expected \<and> distinct actual \<and> a \<notin> set actual"
      using 2(1) 2(2-4) by (elim conjE) auto
    have "p \<notin> set actual" if "previous = Some p" for p
    proof
      assume "p \<in> set actual"
      then have "a \<le> p" "p \<le> a" using 2(2,4) that by simp_all
      then show False using True that by auto
    qed
    with True IH show ?thesis by auto
  qed auto
qed auto

lemma sameCapabilities_iff:
  "sameCapabilities actual expected \<longleftrightarrow> mset actual = mset expected \<and> distinct actual"
proof -
  have "same_sorted None (sort actual) (sort expected) \<longleftrightarrow> sort actual = sort expected \<and> distinct actual"
    using same_sorted_iff [of "sort actual" "sort expected" None] by simp
  moreover have "sort actual = sort expected \<longleftrightarrow> mset actual = mset expected"
    by (metis mset_sort properties_for_sort sorted_sort)
  ultimately show ?thesis by (auto simp: sameCapabilities_def dest: mset_eq_length)
qed

lemma ProtoRole_Inr: "(\<exists>g. ProtoRole r = Inr g) \<longleftrightarrow> ValidateRole r = None"
  by (cases r) auto

lemma ProtoRole_inj: "ProtoRole r = Inr g \<Longrightarrow> ProtoRole r' = Inr g \<Longrightarrow> r = r'"
  by (cases r; cases r') auto

lemma Capabilities_distinct: "distinct (commonCapabilities @ roleCapabilities r)"
  by (cases r) (simp_all add: commonCapabilities_def)

lemma SessionRole_ProtoRole: "ProtoRole r = Inr g \<longleftrightarrow> SessionRole g = Inr r"
  by (cases r; cases g) auto

lemma VerifyHello_None:
  "VerifyHello (Some resp) e = None \<longleftrightarrow>
     ProtoRole (he_Role e) = Inr (hr_Role resp) \<and>
     (\<exists>v. hr_ApiVersion resp = Some v \<and> av_Major v = APIMajor \<and> he_MinimumProtocolMinor e \<le> av_Minor v) \<and>
     hr_ImageDigest resp = he_ImageDigest e \<and> hr_SourceCommit resp = he_SourceCommit e \<and>
     mset (hr_Capabilities resp) = mset (he_Capabilities e) \<and> distinct (hr_Capabilities resp) \<and>
     length (hr_BootNonce resp) = BootNonceSize \<and> \<not> allZero (hr_BootNonce resp) \<and>
     hr_OsRelease resp \<noteq> '''' \<and> hr_GuestdVersion resp \<noteq> ''''"
  by (auto simp: VerifyHello_def Let_def sameCapabilities_iff not_less split: sum.splits option.splits)

lemma foldl_or_eq_0: "foldl or a (xs :: u8 list) = 0 \<longleftrightarrow> a = 0 \<and> (\<forall>x \<in> set xs. x = 0)"
  by (induction xs arbitrary: a) (auto simp: or_eq_0_iff)

lemma allZero_iff: "allZero xs \<longleftrightarrow> (\<forall>x \<in> set xs. x = 0)"
  by (simp add: allZero_def foldl_or_eq_0)

text \<open>When a guest that started, reached through its interceptors, completes the handshake.\<close>

definition handshake_agrees :: "Identity \<Rightarrow> HandshakeExpectation \<Rightarrow> bool" where
  "handshake_agrees i e \<longleftrightarrow> he_Role e = id_Role i \<and> he_ImageDigest e = id_ImageDigest i \<and>
     he_SourceCommit e = id_SourceCommit i \<and> he_MinimumProtocolMinor e = 0 \<and>
     mset (he_Capabilities e) = mset (commonCapabilities @ roleCapabilities (id_Role i)) \<and>
     guestRequestIDPattern (he_RequestID e) \<and> sessionIDPattern (he_SessionID e) \<and> \<not> allZero (id_BootNonce i)"

lemma Hello_Inr:
  assumes "ValidateIdentity i = None" "ProtoRole (he_Role e) = Inr r"
  shows "Hello i (Some \<lparr>gc_Context = Some \<lparr>rc_ApiVersion = Some \<lparr>av_Major = APIMajor, av_Minor = he_MinimumProtocolMinor e\<rparr>,
      rc_RequestId = he_RequestID e, rc_SessionId = he_SessionID e\<rparr>, gc_ExpectedRole = r\<rparr>) = Inr resp \<longleftrightarrow>
    he_MinimumProtocolMinor e = 0 \<and> guestRequestIDPattern (he_RequestID e) \<and> sessionIDPattern (he_SessionID e) \<and>
    ProtoRole (id_Role i) = Inr r \<and>
    resp = \<lparr>hr_ApiVersion = Some \<lparr>av_Major = APIMajor, av_Minor = APIMinor\<rparr>, hr_Role = r,
      hr_ImageDigest = id_ImageDigest i, hr_SourceCommit = id_SourceCommit i,
      hr_Capabilities = sort (commonCapabilities @ roleCapabilities (id_Role i)), hr_BootNonce = id_BootNonce i,
      hr_OsRelease = id_OSRelease i, hr_GuestdVersion = id_GuestdVersion i\<rparr>"
proof -
  have "ValidateRole (id_Role i) = None"
    using assms(1) by (auto simp: ValidateIdentity_def split: option.splits)
  then show ?thesis
    by (auto simp: Hello_def ValidateGuestContext_def ValidateRequestContext_def Capabilities_def APIMinor_def
        word_gt_0 split: option.splits sum.splits if_splits)
qed

lemma Handshake_ok:
  assumes "ProtoRole (he_Role e) = Inr r"
  shows "is_ok (Handshake True call e) \<longleftrightarrow>
    (\<exists>resp. call (Some \<lparr>gc_Context = Some \<lparr>rc_ApiVersion = Some \<lparr>av_Major = APIMajor,
        av_Minor = he_MinimumProtocolMinor e\<rparr>, rc_RequestId = he_RequestID e, rc_SessionId = he_SessionID e\<rparr>,
        gc_ExpectedRole = r\<rparr>) = Inr resp \<and> VerifyHello (Some resp) e = None)"
  using assms by (auto simp: Handshake_def Let_def is_ok_def split: option.splits sum.splits)

lemma serve_Inr:
  "serve t r (Hello i) md req = Inr resp \<longleftrightarrow>
     authenticate t md = None \<and> ValidateGuestContext req r = None \<and> Hello i req = Inr resp"
  by (auto simp: serve_def split: option.splits)


definition example_identity :: Identity where
  "example_identity = \<lparr>id_Role = RoleExporter, id_ImageDigest = ''sha256:1'', id_SourceCommit = ''c0ffee'',
     id_BootNonce = replicate 32 9, id_OSRelease = ''nixos'', id_GuestdVersion = ''1.0''\<rparr>"

definition example_expectation :: HandshakeExpectation where
  "example_expectation = \<lparr>he_SessionID = ''pvm-0123456789abcdef0123456789abcdef'', he_RequestID = ''request-1'',
     he_Role = RoleExporter, he_ImageDigest = ''sha256:1'', he_SourceCommit = ''c0ffee'',
     he_Capabilities = rev (commonCapabilities @ roleCapabilities RoleExporter), he_MinimumProtocolMinor = 0\<rparr>"


end
