(* ===== verification/Net_IP.thy ===== *)
theory Net_IP
  imports Prelude
begin

text \<open>
  Addresses and prefixes as Go's \<^verbatim>\<open>net/netip\<close> has them: an address is invalid, an IPv4 word or an
  IPv6 word with a zone.  The theory holds the reading and writing of their text, the address
  classes the sources test, prefix membership, and the round trips between text and value that the
  profile and network components rest on.
\<close>

unbundle bit_operations_syntax

section \<open>Numbers as text\<close>

definition digit_char :: "nat \<Rightarrow> char" where
  "digit_char d = (if d < 10 then char_of (48 + d) else char_of (87 + d))"

function show_base :: "nat \<Rightarrow> nat \<Rightarrow> string" where
  "show_base b n = (if n < b \<or> b < 2 then [digit_char n] else show_base b (n div b) @ [digit_char (n mod b)])"
  by pat_completeness auto
termination by (relation "measure snd") auto

declare show_base.simps [simp del]

definition hex_value :: "char \<Rightarrow> nat option" where
  "hex_value c =
     (if is_digit c then Some (of_char c - 48)
      else if char_between CHR ''a'' CHR ''f'' c then Some (of_char c - 87)
      else if char_between CHR ''A'' CHR ''F'' c then Some (of_char c - 55) else None)"

definition is_hex :: "char \<Rightarrow> bool" where
  "is_hex c \<longleftrightarrow> hex_value c \<noteq> None"

definition read_base :: "nat \<Rightarrow> string \<Rightarrow> nat" where
  "read_base b s = foldl (\<lambda>n c. b * n + the (hex_value c)) 0 s"

fun join_with :: "string \<Rightarrow> string list \<Rightarrow> string" where
  "join_with sep [] = []"
| "join_with sep [p] = p"
| "join_with sep (p # q # ps) = p @ sep @ join_with sep (q # ps)"

lemma digit_char_hex:
  assumes "d < 16"
  shows "hex_value (digit_char d) = Some d" "is_hex (digit_char d)"
  using assms by (auto simp: digit_char_def hex_value_def is_hex_def is_digit_def char_between_def)

lemma digit_char_digit: "d < 10 \<Longrightarrow> is_digit (digit_char d)"
  by (simp add: digit_char_def is_digit_def char_between_def)

lemma digit_char_zero: "d < 16 \<Longrightarrow> digit_char d = CHR ''0'' \<longleftrightarrow> d = 0"
proof -
  assume "d < 16"
  have zero: "digit_char 0 = CHR ''0''" by code_simp
  have "hex_value (digit_char d) = Some d" "hex_value (digit_char 0) = Some 0"
    using \<open>d < 16\<close> by (simp_all add: digit_char_hex)
  then show ?thesis unfolding zero by (metis option.inject zero)
qed

lemma show_base_induct [consumes 1, case_names digit more]:
  assumes "2 \<le> (b :: nat)" "\<And>n. n < b \<Longrightarrow> P n" "\<And>n. b \<le> n \<Longrightarrow> P (n div b) \<Longrightarrow> P n"
  shows "P n"
proof (induction n rule: less_induct)
  case (less n)
  then show ?case using assms by (cases "n < b") auto
qed

lemma show_base_more: "2 \<le> b \<Longrightarrow> b \<le> n \<Longrightarrow> show_base b n = show_base b (n div b) @ [digit_char (n mod b)]"
  by (subst show_base.simps) simp

lemma show_base_digit: "n < b \<Longrightarrow> show_base b n = [digit_char n]"
  by (subst show_base.simps) simp

lemma read_show_base:
  assumes "2 \<le> b" "b \<le> 16"
  shows "read_base b (show_base b n) = n"
  using assms(1)
proof (induction n rule: show_base_induct)
  case (digit n)
  then show ?case using assms by (simp add: show_base_digit read_base_def digit_char_hex)
next
  case (more n)
  moreover have "n mod b < 16" using assms mod_less_divisor [of b n] by linarith
  ultimately show ?case using assms by (simp add: show_base_more read_base_def digit_char_hex)
qed

lemma show_base_chars:
  assumes "2 \<le> b"
  shows "c \<in> set (show_base b n) \<Longrightarrow> \<exists>d < b. c = digit_char d"
  using assms
proof (induction n rule: show_base_induct)
  case (digit n)
  then show ?case by (auto simp: show_base_digit)
next
  case (more n)
  have "n mod b < b" using assms by simp
  moreover have "c \<in> set (show_base b (n div b)) \<or> c = digit_char (n mod b)"
    using more assms by (auto simp: show_base_more)
  ultimately show ?case using more.IH by blast
qed

lemma show_base_nonempty [simp]: "show_base b n \<noteq> []"
  by (subst show_base.simps) simp

lemma hd_show_base:
  assumes "2 \<le> b" "b \<le> 16"
  shows "hd (show_base b n) = CHR ''0'' \<longleftrightarrow> n = 0"
  using assms(1)
proof (induction n rule: show_base_induct)
  case (digit n)
  then show ?case using assms by (simp add: show_base_digit digit_char_zero)
next
  case (more n)
  then have "n div b \<noteq> 0" using assms by (simp add: div_eq_0_iff)
  with more show ?case using assms by (auto simp: show_base_more)
qed

lemma length_show_base:
  "2 \<le> b \<Longrightarrow> n < b ^ Suc k \<Longrightarrow> length (show_base b n) \<le> Suc k"
proof (induction k arbitrary: n)
  case (Suc k)
  then have "n div b < b ^ Suc k" by (simp add: less_mult_imp_div_less mult.commute)
  with Suc show ?case by (subst show_base.simps) auto
qed (simp add: show_base.simps)

lemma split_at_plain: "c \<notin> set p \<Longrightarrow> split_at c p = [p]"
  by (induction p) auto

lemma split_at_cons: "c \<notin> set p \<Longrightarrow> split_at c (p @ c # r) = p # split_at c r"
  by (induction p) auto

lemma split_at_join:
  "ps \<noteq> [] \<Longrightarrow> \<forall>p \<in> set ps. c \<notin> set p \<Longrightarrow> split_at c (join_with [c] ps) = ps"
  by (induction "[c]" ps rule: join_with.induct) (auto simp: split_at_plain split_at_cons)

lemma takeWhile_until: "x \<notin> set ys \<Longrightarrow> takeWhile (\<lambda>c. c \<noteq> x) (ys @ x # r) = ys"
  by (induction ys) auto

lemma set_join_with: "set (join_with sep ps) \<subseteq> set sep \<union> \<Union> (set ` set ps)"
  by (induction sep ps rule: join_with.induct) auto

section \<open>Addresses and their text\<close>

type_synonym u128 = "128 word"

datatype Addr = AddrNone | Addr4 u32 | Addr6 u128 string

definition octets :: "u32 \<Rightarrow> u8 list" where
  "octets w = [ucast (drop_bit 24 w), ucast (drop_bit 16 w), ucast (drop_bit 8 w), ucast w]"

definition of_octets :: "u8 list \<Rightarrow> u32" where
  "of_octets os = foldl (\<lambda>w b. push_bit 8 w OR ucast b) 0 os"

definition groups :: "u128 \<Rightarrow> u16 list" where
  "groups w = map (\<lambda>i. ucast (drop_bit (16 * i) w)) [7, 6, 5, 4, 3, 2, 1, 0]"

definition of_groups :: "u16 list \<Rightarrow> u128" where
  "of_groups gs = foldl (\<lambda>w g. push_bit 16 w OR ucast g) 0 gs"

text \<open>Dotted decimal: four numbers below 256 with no leading zero.\<close>

definition octet_ok :: "string \<Rightarrow> bool" where
  "octet_ok p \<longleftrightarrow> p \<noteq> [] \<and> list_all is_digit p \<and> (1 < length p \<longrightarrow> hd p \<noteq> CHR ''0'') \<and> read_base 10 p \<le> 255"

definition parseIPv4 :: "string \<Rightarrow> u32 option" where
  "parseIPv4 s =
     (let ps = split_at (CHR ''.'') s in
      if length ps = 4 \<and> list_all octet_ok ps then Some (of_octets (map (\<lambda>p. of_nat (read_base 10 p)) ps)) else None)"

definition show4 :: "u32 \<Rightarrow> string" where
  "show4 w = join_with ''.'' (map (\<lambda>b. show_base 10 (unat b)) (octets w))"

text \<open>
  The loop of \<^verbatim>\<open>parseIPv6\<close>: one field of at most four hexadecimal digits per turn, where a double
  colon is remembered by the number of groups before it and a dotted tail takes the place of two
  groups.
\<close>

definition field16 :: "string \<Rightarrow> u16" where
  "field16 g = of_nat (read_base 16 g)"

fun parse6_fields :: "nat \<Rightarrow> string \<Rightarrow> u16 list \<Rightarrow> nat option \<Rightarrow> (u16 list \<times> nat option \<times> string) option" where
  "parse6_fields 0 s acc ellipsis = Some (acc, ellipsis, s)"
| "parse6_fields (Suc n) s acc ellipsis =
     (let g = takeWhile is_hex s; acc' = acc @ [field16 g] in
      if g = [] \<or> 4 < length g then None
      else
       (case drop (length g) s of [] \<Rightarrow> Some (acc', ellipsis, [])
        | c # more \<Rightarrow>
            if c = CHR ''.'' then
              (if ellipsis = None \<and> length acc \<noteq> 6 \<or> 6 < length acc then None
               else case parseIPv4 s of None \<Rightarrow> None
                 | Some w \<Rightarrow> Some (acc @ [ucast (drop_bit 16 w), ucast w], ellipsis, []))
            else if c \<noteq> CHR '':'' \<or> more = [] then None
            else if hd more = CHR '':'' then
              (if ellipsis \<noteq> None then None
               else if tl more = [] then Some (acc', Some (length acc'), [])
               else parse6_fields n (tl more) acc' (Some (length acc')))
            else parse6_fields n more acc' ellipsis))"

definition expand6 :: "u16 list \<times> nat option \<times> string \<Rightarrow> u16 list option" where
  "expand6 r =
     (case r of (acc, ellipsis, rest) \<Rightarrow>
        if rest \<noteq> [] then None
        else if length acc < 8 then
          (case ellipsis of None \<Rightarrow> None
           | Some e \<Rightarrow> Some (take e acc @ replicate (8 - length acc) 0 @ drop e acc))
        else if ellipsis \<noteq> None then None else Some acc)"

definition parse6_body :: "string \<Rightarrow> u16 list option" where
  "parse6_body s =
     (if take 2 s = ''::'' then
        (if length s = 2 then Some (replicate 8 0)
         else case parse6_fields 8 (drop 2 s) [] (Some 0) of None \<Rightarrow> None | Some r \<Rightarrow> expand6 r)
      else case parse6_fields 8 s [] None of None \<Rightarrow> None | Some r \<Rightarrow> expand6 r)"

definition parseIPv6 :: "string \<Rightarrow> Addr option" where
  "parseIPv6 s =
     (let body = takeWhile (\<lambda>c. c \<noteq> CHR ''%'') s; zone = drop (Suc (length body)) s in
      if CHR ''%'' \<in> set s \<and> zone = [] then None
      else map_option (\<lambda>gs. Addr6 (of_groups gs) zone) (parse6_body body))"

definition ParseAddr :: "string \<Rightarrow> Addr option" where
  "ParseAddr s =
     (case dropWhile (\<lambda>c. c \<noteq> CHR ''.'' \<and> c \<noteq> CHR '':'' \<and> c \<noteq> CHR ''%'') s of [] \<Rightarrow> None
      | c # _ \<Rightarrow> if c = CHR ''.'' then map_option Addr4 (parseIPv4 s)
          else if c = CHR '':'' then parseIPv6 s else None)"

text \<open>\<^verbatim>\<open>appendTo6\<close>: the first longest run of at least two zero groups becomes a double colon.\<close>

definition zero_run :: "u16 list \<Rightarrow> nat \<Rightarrow> nat" where
  "zero_run gs i = length (takeWhile (\<lambda>g. g = 0) (drop i gs))"

definition best_run :: "u16 list \<Rightarrow> nat \<times> nat" where
  "best_run gs = fold (\<lambda>i best. if 2 \<le> zero_run gs i \<and> snd best < zero_run gs i then (i, zero_run gs i) else best)
     [0..<8] (0, 0)"

definition show_fields :: "u16 list \<Rightarrow> string" where
  "show_fields gs = join_with '':'' (map (\<lambda>g. show_base 16 (unat g)) gs)"

definition show6 :: "u16 list \<Rightarrow> string" where
  "show6 gs =
     (case best_run gs of (start, count) \<Rightarrow>
        if count = 0 then show_fields gs
        else show_fields (take start gs) @ ''::'' @ show_fields (drop (start + count) gs))"

definition Is4In6 :: "Addr \<Rightarrow> bool" where
  "Is4In6 a = (case a of Addr6 w _ \<Rightarrow> drop_bit 32 w = 0xffff | _ \<Rightarrow> False)"

definition AppendTo :: "Addr \<Rightarrow> string" where
  "AppendTo a =
     (case a of AddrNone \<Rightarrow> [] | Addr4 w \<Rightarrow> show4 w
      | Addr6 w zone \<Rightarrow> (if Is4In6 a then ''::ffff:'' @ show4 (ucast w) else show6 (groups w)) @
          (if zone = [] then [] else CHR ''%'' # zone))"

section \<open>Reading back what was written\<close>

lemma octet_step: "push_bit 8 (drop_bit (i + 8) w) OR ucast (ucast (drop_bit i w) :: u8) = drop_bit i (w :: u32)"
proof (rule bit_word_eqI)
  fix n
  assume "n < LENGTH(32)"
  then show "bit (push_bit 8 (drop_bit (i + 8) w) OR ucast (ucast (drop_bit i w) :: u8)) n = bit (drop_bit i w) n"
    by (cases "n < 8") (auto simp: bit_simps not_less add.commute dest: bit_imp_le_length)
qed

lemma group_step: "push_bit 16 (drop_bit (i + 16) w) OR ucast (ucast (drop_bit i w) :: u16) = drop_bit i (w :: u128)"
proof (rule bit_word_eqI)
  fix n
  assume "n < LENGTH(128)"
  then show "bit (push_bit 16 (drop_bit (i + 16) w) OR ucast (ucast (drop_bit i w) :: u16)) n = bit (drop_bit i w) n"
    by (cases "n < 16") (auto simp: bit_simps not_less add.commute dest: bit_imp_le_length)
qed

lemma octets_of: "of_octets (octets w) = w"
proof -
  have "drop_bit 32 w = 0" by (rule bit_word_eqI) (auto simp: bit_simps dest: bit_imp_le_length)
  then show ?thesis
    using octet_step [of 24 w] octet_step [of 16 w] octet_step [of 8 w] octet_step [of 0 w]
    by (simp add: of_octets_def octets_def)
qed

lemma groups_length [simp]: "length (groups w) = 8"
  by (simp add: groups_def)

lemma groups_of: "of_groups (groups w) = w"
proof -
  have "drop_bit 128 w = 0" by (rule bit_word_eqI) (auto simp: bit_simps dest: bit_imp_le_length)
  then show ?thesis
    using group_step [of 112 w] group_step [of 96 w] group_step [of 80 w] group_step [of 64 w]
      group_step [of 48 w] group_step [of 32 w] group_step [of 16 w] group_step [of 0 w]
    by (simp add: of_groups_def groups_def)
qed

lemma octet_text:
  fixes b :: u8
  shows "octet_ok (show_base 10 (unat b))" "of_nat (read_base 10 (show_base 10 (unat b))) = b"
    "CHR ''.'' \<notin> set (show_base 10 (unat b))"
proof -
  have read: "read_base 10 (show_base 10 (unat b)) = unat b" by (rule read_show_base) simp_all
  have digits: "is_digit c" if "c \<in> set (show_base 10 (unat b))" for c
    using show_base_chars [OF _ that] digit_char_digit by auto
  have "length (show_base 10 (unat b)) \<le> 1" if "unat b = 0" using that by (simp add: show_base_digit)
  then have "hd (show_base 10 (unat b)) \<noteq> CHR ''0''" if "1 < length (show_base 10 (unat b))"
    using that hd_show_base [of 10 "unat b"] by fastforce
  moreover have "unat b \<le> 255" using unsigned_less [of b, where ?'a = nat] by simp
  ultimately show "octet_ok (show_base 10 (unat b))"
    using digits read by (auto simp: octet_ok_def list_all_iff)
  show "of_nat (read_base 10 (show_base 10 (unat b))) = b" by (simp add: read)
  show "CHR ''.'' \<notin> set (show_base 10 (unat b))"
    using digits [of "CHR ''.''"] by (auto simp: is_digit_def char_between_def)
qed

lemma parse_show4: "parseIPv4 (show4 w) = Some w"
proof -
  let ?ps = "map (\<lambda>b. show_base 10 (unat b)) (octets w)"
  have "split_at (CHR ''.'') (show4 w) = ?ps"
    unfolding show4_def using octet_text(3) by (intro split_at_join) (auto simp: octets_def)
  moreover have "list_all octet_ok ?ps" using octet_text(1) by (auto simp: list_all_iff)
  moreover have "map (\<lambda>p. of_nat (read_base 10 p)) ?ps = octets w" using octet_text(2) by (simp add: comp_def)
  moreover have "length (octets w) = 4" by (simp add: octets_def)
  ultimately show ?thesis by (simp add: parseIPv4_def octets_of comp_def)
qed

lemma field_text:
  fixes g :: u16
  shows "list_all is_hex (show_base 16 (unat g))" "length (show_base 16 (unat g)) \<le> 4"
    "field16 (show_base 16 (unat g)) = g"
proof -
  show "list_all is_hex (show_base 16 (unat g))"
    using show_base_chars [of 16 _ "unat g"] digit_char_hex(2) by (auto simp: list_all_iff)
  have "unat g < 16 ^ Suc 3" using unsigned_less [of g, where ?'a = nat] by simp
  then show "length (show_base 16 (unat g)) \<le> 4" using length_show_base [of 16 "unat g" 3] by simp
  show "field16 (show_base 16 (unat g)) = g" by (simp add: field16_def read_show_base)
qed

lemma colon_not_hex: "\<not> is_hex (CHR '':'')" "\<not> is_hex (CHR ''%'')" "\<not> is_hex (CHR ''.'')" "\<not> is_hex (CHR ''/'')"
  by (auto simp: is_hex_def hex_value_def is_digit_def char_between_def)

lemma field_prefix:
  fixes g :: u16
  assumes "r = [] \<or> \<not> is_hex (hd r)"
  shows "takeWhile is_hex (show_base 16 (unat g) @ r) = show_base 16 (unat g)"
proof -
  have "\<forall>c \<in> set (show_base 16 (unat g)). is_hex c" using field_text(1) [of g] by (simp add: list_all_iff)
  then show ?thesis using assms by (cases r) auto
qed

lemma field_alone: "takeWhile is_hex (show_base 16 (unat (g :: u16))) = show_base 16 (unat g)"
  using field_prefix [of "[]" g] by simp

lemma field_colon: "takeWhile is_hex (show_base 16 (unat (g :: u16)) @ CHR '':'' # r) = show_base 16 (unat g)"
  using field_prefix [of "CHR '':'' # r" g] colon_not_hex by simp

lemma show_fields_simps:
  "show_fields [] = []" "show_fields [g] = show_base 16 (unat g)"
  "show_fields (g # h # gs) = show_base 16 (unat g) @ CHR '':'' # show_fields (h # gs)"
  by (simp_all add: show_fields_def)

lemma show_fields_head: "gs \<noteq> [] \<Longrightarrow> \<exists>c r. show_fields gs = c # r \<and> is_hex c"
proof -
  assume "gs \<noteq> []"
  then obtain g hs where "gs = g # hs" by (cases gs) auto
  moreover obtain c r where "show_base 16 (unat g) = c # r" by (cases "show_base 16 (unat g)") auto
  moreover have "is_hex c" using field_text(1) [of g] calculation(2) by simp
  ultimately show ?thesis by (cases hs) (auto simp: show_fields_simps)
qed

lemma parse6_plain:
  "gs \<noteq> [] \<Longrightarrow> length gs \<le> n \<Longrightarrow> parse6_fields n (show_fields gs) acc ell = Some (acc @ gs, ell, [])"
proof (induction gs arbitrary: n acc)
  case (Cons g gs)
  then obtain m where n: "n = Suc m" by (cases n) auto
  show ?case
  proof (cases gs)
    case Nil
    then show ?thesis
      using field_text [of g] by (simp add: n show_fields_simps Let_def field_alone)
  next
    case (Cons h hs)
    obtain c r where c: "show_fields gs = c # r" "is_hex c" using show_fields_head [of gs] Cons by auto
    have "c \<noteq> CHR '':''" using c(2) colon_not_hex by auto
    moreover have "parse6_fields m (show_fields gs) (acc @ [g]) ell = Some ((acc @ [g]) @ gs, ell, [])"
      using Cons.prems Cons n by (intro Cons.IH) simp_all
    ultimately show ?thesis
      using field_text [of g] c Cons by (simp add: n show_fields_simps Let_def field_colon)
  qed
qed simp

lemma parse6_ellipsis:
  "gs \<noteq> [] \<Longrightarrow> length gs \<le> n \<Longrightarrow> r = [] \<or> hd r \<noteq> CHR '':'' \<Longrightarrow>
   parse6_fields n (show_fields gs @ CHR '':'' # CHR '':'' # r) acc None =
     (if r = [] then Some (acc @ gs, Some (length acc + length gs), [])
      else parse6_fields (n - length gs) r (acc @ gs) (Some (length acc + length gs)))"
proof (induction gs arbitrary: n acc)
  case (Cons g gs)
  then obtain m where n: "n = Suc m" by (cases n) auto
  show ?case
  proof (cases gs)
    case Nil
    then show ?thesis
      using field_text [of g] Cons.prems by (cases r) (simp_all add: n show_fields_simps Let_def field_colon)
  next
    case (Cons h hs)
    obtain c q where c: "show_fields gs = c # q" "is_hex c" using show_fields_head [of gs] Cons by auto
    have "c \<noteq> CHR '':''" using c(2) colon_not_hex by auto
    moreover have "parse6_fields m (show_fields gs @ CHR '':'' # CHR '':'' # r) (acc @ [g]) None =
        (if r = [] then Some ((acc @ [g]) @ gs, Some (length (acc @ [g]) + length gs), [])
         else parse6_fields (m - length gs) r ((acc @ [g]) @ gs) (Some (length (acc @ [g]) + length gs)))"
      using Cons.prems Cons n by (intro Cons.IH) simp_all
    ultimately show ?thesis
      using field_text [of g] c Cons by (simp add: n show_fields_simps Let_def field_colon)
  qed
qed simp

lemma best_run_zero_run: "best_run gs = (start, count) \<Longrightarrow> count = 0 \<or> count = zero_run gs start"
proof -
  let ?f = "\<lambda>i best. if 2 \<le> zero_run gs i \<and> snd best < zero_run gs i then (i, zero_run gs i) else best"
  have "snd (fold ?f is b) = 0 \<or> snd (fold ?f is b) = zero_run gs (fst (fold ?f is b))"
    if "snd b = 0 \<or> snd b = zero_run gs (fst b)" for "is" b
    using that by (induction "is" arbitrary: b) auto
  from this [of "(0, 0)" "[0..<8]"] show "best_run gs = (start, count) \<Longrightarrow> ?thesis"
    by (simp add: best_run_def)
qed

lemma zero_run_split:
  assumes "count = zero_run gs start"
  shows "take start gs @ replicate count 0 @ drop (start + count) gs = gs" "start \<le> length gs \<Longrightarrow> start + count \<le> length gs"
proof -
  have "takeWhile (\<lambda>g. g = 0) (drop start gs) = replicate count 0"
    unfolding assms zero_run_def by (rule replicate_eqI) (auto dest: set_takeWhileD)
  moreover have "takeWhile (\<lambda>g. g = 0) (drop start gs) = take count (drop start gs)"
    unfolding assms zero_run_def by (metis takeWhile_eq_take)
  ultimately show "take start gs @ replicate count 0 @ drop (start + count) gs = gs"
    by (metis append_take_drop_id drop_drop add.commute)
  have "count \<le> length (drop start gs)" unfolding assms zero_run_def by (rule length_takeWhile_le)
  then show "start \<le> length gs \<Longrightarrow> start + count \<le> length gs" by simp
qed

lemma show_fields_no_colons: "gs \<noteq> [] \<Longrightarrow> take 2 (show_fields gs @ r) \<noteq> ''::''"
  using show_fields_head [of gs] colon_not_hex by (auto simp: numeral_2_eq_2)

lemma show_fields_Nil: "show_fields gs = [] \<longleftrightarrow> gs = []"
  using show_fields_head [of gs] by (cases "gs = []") (auto simp: show_fields_simps)

lemma parse_show6:
  assumes "length gs = 8"
  shows "parse6_body (show6 gs) = Some gs"
proof (cases "best_run gs")
  case (Pair start count)
  show ?thesis
  proof (cases "count = 0")
    case True
    have "gs \<noteq> []" using assms by auto
    then show ?thesis
      using show_fields_no_colons [of gs "[]"] parse6_plain [of gs 8 "[]" None] assms Pair True
      by (simp add: show6_def parse6_body_def expand6_def)
  next
    case False
    let ?l = "take start gs" and ?r = "drop (start + count) gs"
    have run: "count = zero_run gs start" using best_run_zero_run [OF Pair] False by simp
    then have "start < length gs" using False by (cases "start < length gs") (auto simp: zero_run_def)
    then have le: "start + count \<le> 8" "length ?l = start" "length ?r = 8 - (start + count)"
      using zero_run_split(2) [OF run] assms by simp_all
    have gs: "?l @ replicate count 0 @ ?r = gs" by (rule zero_run_split(1) [OF run])
    have shown: "show6 gs = show_fields ?l @ CHR '':'' # CHR '':'' # show_fields ?r"
      using Pair False by (simp add: show6_def)
    have r_head: "show_fields ?r = [] \<or> hd (show_fields ?r) \<noteq> CHR '':''"
      using show_fields_head [of ?r] colon_not_hex by (cases "?r = []") (auto simp: show_fields_simps)
    have r_parse: "parse6_fields (8 - start) (show_fields ?r) ?l (Some start) = Some (?l @ ?r, Some start, [])" if "?r \<noteq> []"
      using parse6_plain [OF that, of "8 - start" ?l "Some start"] le by simp
    have expand: "expand6 (?l @ ?r, Some start, []) = Some gs"
    proof -
      have "8 - length (?l @ ?r) = count" "length (?l @ ?r) < 8" using le False by simp_all
      moreover have "take start (?l @ ?r) = ?l" "drop start (?l @ ?r) = ?r" using le by simp_all
      ultimately show ?thesis
        unfolding expand6_def prod.case option.case using gs by (simp only: if_True not_True_eq_False if_False simp_thms)
    qed
    show ?thesis
    proof (cases "start = 0")
      case True
      show ?thesis
      proof (cases "?r = []")
        case True
        with gs le \<open>start = 0\<close> have "gs = replicate 8 0" by simp
        then show ?thesis using shown True \<open>start = 0\<close>
          by (simp only: shown) (simp add: parse6_body_def show_fields_simps)
      next
        case False
        then show ?thesis using r_parse [OF False] expand True
          by (simp only: shown) (simp add: parse6_body_def show_fields_simps show_fields_Nil)
      qed
    next
      case False
      then have l: "?l \<noteq> []" using le by auto
      have "parse6_fields 8 (show6 gs) [] None = Some (?l @ ?r, Some start, [])"
        using parse6_ellipsis [OF l _ r_head, of 8 "[]"] r_parse le show_fields_Nil [of ?r] unfolding shown by auto
      then show ?thesis
        using show_fields_no_colons [OF l] expand by (simp add: parse6_body_def shown)
    qed
  qed
qed

lemma set_show4: "c \<in> set (show4 w) \<Longrightarrow> is_digit c \<or> c = CHR ''.''"
proof -
  assume "c \<in> set (show4 w)"
  then consider "c = CHR ''.''" | b where "c \<in> set (show_base 10 (unat (b :: u8)))"
    using set_join_with [of "''.''"] unfolding show4_def by fastforce
  then show ?thesis
  proof cases
    case 2
    then show ?thesis using show_base_chars [of 10 c "unat b"] digit_char_digit by auto
  qed simp
qed

lemma show4_head: "\<exists>c r. show4 w = c # r \<and> is_digit c"
  using octet_text(1) [of "ucast (drop_bit 24 w)"]
  by (cases "show_base 10 (unat (ucast (drop_bit 24 w) :: u8))") (auto simp: show4_def octets_def octet_ok_def)

lemma first_dot: "dropWhile is_digit s = CHR ''.'' # r \<Longrightarrow>
   dropWhile (\<lambda>c. c \<noteq> CHR ''.'' \<and> c \<noteq> CHR '':'' \<and> c \<noteq> CHR ''%'') s = CHR ''.'' # r"
  by (induction s) (auto simp: is_digit_def char_between_def split: if_splits)

lemma show4_first: "\<exists>r. dropWhile is_digit (show4 w) = CHR ''.'' # r"
proof -
  let ?o = "show_base 10 (unat (ucast (drop_bit 24 w) :: u8))"
  obtain r where r: "show4 w = ?o @ CHR ''.'' # r" by (simp add: show4_def octets_def)
  have "\<forall>c \<in> set ?o. is_digit c" using octet_text(1) by (simp add: octet_ok_def list_all_iff)
  moreover have "\<not> is_digit (CHR ''.'')" by (simp add: is_digit_def char_between_def)
  ultimately show ?thesis unfolding r by (auto simp: dropWhile_append2)
qed

lemma ParseAddr_4: "ParseAddr (show4 w) = Some (Addr4 w)"
proof -
  obtain r where "dropWhile is_digit (show4 w) = CHR ''.'' # r" using show4_first by blast
  from first_dot [OF this] show ?thesis by (simp add: ParseAddr_def parse_show4)
qed

lemma set_show6: "c \<in> set (show6 gs) \<Longrightarrow> is_hex c \<or> c = CHR '':''"
proof -
  have f: "is_hex c \<or> c = CHR '':''" if "c \<in> set (show_fields hs)" for hs
  proof -
    from that consider "c = CHR '':''" | h where "c \<in> set (show_base 16 (unat (h :: u16)))"
      using set_join_with [of "'':''"] unfolding show_fields_def by fastforce
    then show ?thesis using field_text(1) by cases (auto simp: list_all_iff)
  qed
  assume "c \<in> set (show6 gs)"
  then show ?thesis by (auto simp: show6_def split: prod.splits if_splits dest: f)
qed

lemma show_fields_colon: "2 \<le> length gs \<Longrightarrow> CHR '':'' \<in> set (show_fields gs)"
  by (cases gs rule: remdups_adj.cases) (simp_all add: show_fields_simps)

lemma first_colon:
  assumes "CHR '':'' \<in> set s" "\<And>c. c \<in> set s \<Longrightarrow> is_hex c \<or> c = CHR '':''"
  shows "\<exists>r. dropWhile (\<lambda>c. c \<noteq> CHR ''.'' \<and> c \<noteq> CHR '':'' \<and> c \<noteq> CHR ''%'') s = CHR '':'' # r"
  using assms
proof (induction s)
  case (Cons a s)
  then have "is_hex a \<or> a = CHR '':''" by simp
  then have "a \<noteq> CHR ''.''" "a \<noteq> CHR ''%''" using colon_not_hex by auto
  with Cons show ?case by (cases "a = CHR '':''") auto
qed simp

lemma ParseAddr_6: "ParseAddr (show6 (groups w)) = Some (Addr6 w [])"
proof -
  let ?s = "show6 (groups w)"
  have "CHR '':'' \<in> set ?s"
    using show_fields_colon [of "groups w"] by (cases "best_run (groups w)") (simp add: show6_def)
  from first_colon [OF this set_show6 [of _ "groups w"]] obtain r
    where r: "dropWhile (\<lambda>c. c \<noteq> CHR ''.'' \<and> c \<noteq> CHR '':'' \<and> c \<noteq> CHR ''%'') ?s = CHR '':'' # r" by auto
  have np: "CHR ''%'' \<notin> set ?s" using set_show6 [of "CHR ''%''"] colon_not_hex by auto
  then have tw: "takeWhile (\<lambda>c. c \<noteq> CHR ''%'') ?s = ?s" by (auto simp: takeWhile_eq_all_conv)
  have "parseIPv6 ?s = Some (Addr6 w [])"
    unfolding parseIPv6_def tw using np parse_show6 [of "groups w"] by (simp add: groups_of)
  then show ?thesis unfolding ParseAddr_def r by simp
qed

text \<open>Every valid address without a zone that is not an IPv4 address in disguise reads back.\<close>

definition plain_addr :: "Addr \<Rightarrow> bool" where
  "plain_addr a = (case a of AddrNone \<Rightarrow> False | Addr4 _ \<Rightarrow> True | Addr6 _ zone \<Rightarrow> zone = [] \<and> \<not> Is4In6 a)"

lemma ParseAddr_AppendTo: "plain_addr a \<Longrightarrow> ParseAddr (AppendTo a) = Some a"
  by (cases a) (auto simp: plain_addr_def AppendTo_def ParseAddr_4 ParseAddr_6)

definition addr_char :: "char \<Rightarrow> bool" where
  "addr_char c \<longleftrightarrow> is_hex c \<or> c = CHR '':'' \<or> c = CHR ''.''"

lemma digit_hex: "is_digit c \<Longrightarrow> is_hex c"
  by (simp add: is_hex_def hex_value_def)

lemma AppendTo_chars: "plain_addr a \<Longrightarrow> c \<in> set (AppendTo a) \<Longrightarrow> addr_char c"
  using digit_hex by (cases a) (auto simp: plain_addr_def AppendTo_def addr_char_def dest: set_show4 set_show6)

lemma AppendTo_nonempty: "plain_addr a \<Longrightarrow> AppendTo a \<noteq> []"
  using ParseAddr_AppendTo [of a] by (auto simp: ParseAddr_def)

section \<open>Prefixes\<close>

record Prefix =
  pf_Addr :: Addr
  pf_Bits :: nat

definition BitLen :: "Addr \<Rightarrow> nat" where
  "BitLen a = (case a of AddrNone \<Rightarrow> 0 | Addr4 _ \<Rightarrow> 32 | Addr6 _ _ \<Rightarrow> 128)"

definition Is4 :: "Addr \<Rightarrow> bool" where
  "Is4 a = (case a of Addr4 _ \<Rightarrow> True | _ \<Rightarrow> False)"

definition Is6 :: "Addr \<Rightarrow> bool" where
  "Is6 a = (case a of Addr6 _ _ \<Rightarrow> True | _ \<Rightarrow> False)"

definition Zone :: "Addr \<Rightarrow> string" where
  "Zone a = (case a of Addr6 _ zone \<Rightarrow> zone | _ \<Rightarrow> [])"

definition addr_valid :: "Addr \<Rightarrow> bool" where
  "addr_valid a \<longleftrightarrow> a \<noteq> AddrNone"

definition prefix_valid :: "Prefix \<Rightarrow> bool" where
  "prefix_valid p \<longleftrightarrow> pf_Addr p \<noteq> AddrNone \<and> pf_Bits p \<le> BitLen (pf_Addr p)"

text \<open>\<^verbatim>\<open>Prefix.Contains\<close>: same family, no zone, and the same leading bits.\<close>

definition Contains :: "Prefix \<Rightarrow> Addr \<Rightarrow> bool" where
  "Contains p a =
     (case (pf_Addr p, a) of
        (Addr4 u, Addr4 w) \<Rightarrow> pf_Bits p \<le> 32 \<and> drop_bit (32 - pf_Bits p) u = drop_bit (32 - pf_Bits p) w
      | (Addr6 u _, Addr6 w zone) \<Rightarrow>
          zone = [] \<and> pf_Bits p \<le> 128 \<and> drop_bit (128 - pf_Bits p) u = drop_bit (128 - pf_Bits p) w
      | _ \<Rightarrow> False)"

definition ParsePrefix :: "string \<Rightarrow> Prefix option" where
  "ParsePrefix s =
     (if CHR ''/'' \<notin> set s then None
      else
        let bits = rev (takeWhile (\<lambda>c. c \<noteq> CHR ''/'') (rev s)); host = take (length s - Suc (length bits)) s in
        case ParseAddr host of None \<Rightarrow> None
        | Some a \<Rightarrow>
            if Is6 a \<and> Zone a \<noteq> [] then None
            else if bits = [] \<or> \<not> list_all is_digit bits \<or> 1 < length bits \<and> hd bits = CHR ''0'' then None
            else if BitLen a < read_base 10 bits then None
            else Some \<lparr>pf_Addr = a, pf_Bits = read_base 10 bits\<rparr>)"

definition prefix_text :: "Prefix \<Rightarrow> string" where
  "prefix_text p = AppendTo (pf_Addr p) @ CHR ''/'' # show_base 10 (pf_Bits p)"

lemma addr_char_slash: "\<not> addr_char (CHR ''/'')" "\<not> addr_char (CHR '','')" "\<not> addr_char (CHR '' '')"
    "\<not> addr_char (CHR ''['')" "\<not> addr_char (CHR '']'')" "\<not> addr_char (CHR ''%'')"
  by (auto simp: addr_char_def is_hex_def hex_value_def is_digit_def char_between_def)

lemma show_decimal_text:
  "list_all is_digit (show_base 10 n)" "1 < length (show_base 10 n) \<Longrightarrow> hd (show_base 10 n) \<noteq> CHR ''0''"
proof -
  show "list_all is_digit (show_base 10 n)"
    using show_base_chars [of 10 _ n] digit_char_digit by (auto simp: list_all_iff)
  show "1 < length (show_base 10 n) \<Longrightarrow> hd (show_base 10 n) \<noteq> CHR ''0''"
    using hd_show_base [of 10 n] by (auto simp: show_base_digit)
qed

lemma ParsePrefix_text:
  assumes "plain_addr (pf_Addr p)" "prefix_valid p"
  shows "ParsePrefix (prefix_text p) = Some p"
proof -
  let ?d = "show_base 10 (pf_Bits p)" and ?a = "AppendTo (pf_Addr p)"
  have "is_digit c \<Longrightarrow> c \<noteq> CHR ''/''" for c by (auto simp: is_digit_def char_between_def)
  then have "CHR ''/'' \<notin> set (rev ?d)" using show_decimal_text(1) [of "pf_Bits p"] by (auto simp: list_all_iff)
  then have bits: "rev (takeWhile (\<lambda>c. c \<noteq> CHR ''/'') (rev (prefix_text p))) = ?d"
    using takeWhile_until [of "CHR ''/''" "rev ?d" "rev ?a"] by (simp add: prefix_text_def)
  have host: "take (length (prefix_text p) - Suc (length ?d)) (prefix_text p) = ?a"
    by (simp add: prefix_text_def)
  have zone: "\<not> (Is6 (pf_Addr p) \<and> Zone (pf_Addr p) \<noteq> [])"
    using assms(1) by (auto simp: plain_addr_def Is6_def Zone_def split: Addr.splits)
  have "read_base 10 ?d = pf_Bits p" by (simp add: read_show_base)
  moreover have "CHR ''/'' \<in> set (prefix_text p)" by (simp add: prefix_text_def)
  ultimately show ?thesis
    unfolding ParsePrefix_def bits host Let_def
    using ParseAddr_AppendTo [OF assms(1)] zone show_decimal_text [of "pf_Bits p"] assms(2)
    by (auto simp: prefix_valid_def)
qed

section \<open>Address classes\<close>

definition prefix4 :: "u8 \<Rightarrow> u8 \<Rightarrow> u8 \<Rightarrow> u8 \<Rightarrow> nat \<Rightarrow> Prefix" where
  "prefix4 a b c d n = \<lparr>pf_Addr = Addr4 (of_octets [a, b, c, d]), pf_Bits = n\<rparr>"

definition prefix6 :: "u16 list \<Rightarrow> nat \<Rightarrow> Prefix" where
  "prefix6 gs n = \<lparr>pf_Addr = Addr6 (of_groups (gs @ replicate (8 - length gs) 0)) [], pf_Bits = n\<rparr>"

definition IsLoopback :: "Addr \<Rightarrow> bool" where
  "IsLoopback a = (case a of AddrNone \<Rightarrow> False | Addr4 w \<Rightarrow> drop_bit 24 w = 127 | Addr6 w _ \<Rightarrow> w = 1)"

definition IsMulticast :: "Addr \<Rightarrow> bool" where
  "IsMulticast a = (case a of AddrNone \<Rightarrow> False | Addr4 w \<Rightarrow> drop_bit 28 w = 0xe | Addr6 w _ \<Rightarrow> drop_bit 120 w = 0xff)"

definition IsLinkLocalUnicast :: "Addr \<Rightarrow> bool" where
  "IsLinkLocalUnicast a =
     (case a of AddrNone \<Rightarrow> False | Addr4 w \<Rightarrow> drop_bit 16 w = 0xa9fe | Addr6 w _ \<Rightarrow> drop_bit 118 w = 0x3fa)"

definition IsPrivate :: "Addr \<Rightarrow> bool" where
  "IsPrivate a =
     (case a of AddrNone \<Rightarrow> False
      | Addr4 w \<Rightarrow> drop_bit 24 w = 10 \<or> drop_bit 20 w = 0xac1 \<or> drop_bit 16 w = 0xc0a8
      | Addr6 w _ \<Rightarrow> drop_bit 121 w = 0x7e)"

definition IsGlobalUnicast :: "Addr \<Rightarrow> bool" where
  "IsGlobalUnicast a \<longleftrightarrow>
     a \<noteq> AddrNone \<and> a \<noteq> Addr4 0 \<and> a \<noteq> Addr4 0xffffffff \<and> a \<noteq> Addr6 0 [] \<and>
     \<not> IsLoopback a \<and> \<not> IsMulticast a \<and> \<not> IsLinkLocalUnicast a"

end
