(* ===== verification/VPN_Profile.thy ===== *)
theory VPN_Profile
  imports Net_IP Base64
begin

text \<open>
  The Proton WireGuard profile of \<^verbatim>\<open>internal/vpn/profile.go\<close> and \<^verbatim>\<open>internal/vpn/resolver.go\<close>: the
  bounded reader, the strict parser, the endpoint policy, the text delivered to a guest, and the
  resolution of a host name to a sorted set of public endpoints.  Go byte slices are strings; a
  protected key is its 32 bytes, or nothing once it was destroyed.
\<close>

section \<open>Errors and records\<close>

datatype vpn_error = ErrInvalidProfile | ErrEndpointUnresolved | ErrProfileNotFound | ErrProfileNotReady
  | ErrProfileRotated | ErrProfileLimit | ErrStoreClosed | ErrCallbackRequired | ErrContext | VPNPanic

definition MaximumProfileBytes :: nat where "MaximumProfileBytes = 64 * 1024"
definition maximumProfileLines :: nat where "maximumProfileLines = 256"
definition maximumAddresses :: nat where "maximumAddresses = 8"
definition maximumDNSServers :: nat where "maximumDNSServers = 8"

datatype profile_section = sectionNone | sectionInterface | sectionPeer

record endpoint =
  ep_host :: string
  ep_literal :: Addr
  ep_port :: u16

record profileState =
  ps_privateKey :: "u8 list option"
  ps_addresses :: "Prefix list"
  ps_dnsServers :: "Addr list"
  ps_publicKey :: "u8 list"
  ps_allowedV6 :: bool
  ps_endpoint :: endpoint
  ps_destroyed :: bool

record Inspection =
  in_IPv4Enabled :: bool
  in_IPv6Enabled :: bool
  in_InterfaceAddressCount :: nat
  in_DNSServerCount :: nat

record resolvedEndpoint =
  re_address :: Addr
  re_port :: u16

section \<open>Text helpers of the standard library\<close>

definition byte_in :: "nat \<Rightarrow> nat \<Rightarrow> char \<Rightarrow> bool" where
  "byte_in lo hi c \<longleftrightarrow> lo \<le> of_char c \<and> of_char c \<le> hi"

text \<open>\<^verbatim>\<open>utf8.Valid\<close>.\<close>

fun valid_utf8 :: "string \<Rightarrow> bool" where
  "valid_utf8 [] = True"
| "valid_utf8 (a # s) =
     (if byte_in 0 127 a then valid_utf8 s
      else case s of [] \<Rightarrow> False
       | b # s' \<Rightarrow>
          if byte_in 0xC2 0xDF a then byte_in 0x80 0xBF b \<and> valid_utf8 s'
          else case s' of [] \<Rightarrow> False
           | c # s'' \<Rightarrow>
              if byte_in 0xE0 0xEF a then
                byte_in (if byte_in 0xE0 0xE0 a then 0xA0 else 0x80) (if byte_in 0xED 0xED a then 0x9F else 0xBF) b \<and>
                byte_in 0x80 0xBF c \<and> valid_utf8 s''
              else case s'' of [] \<Rightarrow> False
               | d # s''' \<Rightarrow>
                  byte_in 0xF0 0xF4 a \<and>
                  byte_in (if byte_in 0xF0 0xF0 a then 0x90 else 0x80) (if byte_in 0xF4 0xF4 a then 0x8F else 0xBF) b \<and>
                  byte_in 0x80 0xBF c \<and> byte_in 0x80 0xBF d \<and> valid_utf8 s''')"

text \<open>\<^verbatim>\<open>bytes.TrimSpace\<close> on valid UTF-8: the ASCII spaces and the encoded Unicode ones.\<close>

definition wide2 :: "char \<Rightarrow> char \<Rightarrow> bool" where
  "wide2 a b \<longleftrightarrow> byte_in 0xC2 0xC2 a \<and> (byte_in 0x85 0x85 b \<or> byte_in 0xA0 0xA0 b)"

definition wide3 :: "char \<Rightarrow> char \<Rightarrow> char \<Rightarrow> bool" where
  "wide3 a b c \<longleftrightarrow>
     byte_in 0xE1 0xE1 a \<and> byte_in 0x9A 0x9A b \<and> byte_in 0x80 0x80 c \<or>
     byte_in 0xE2 0xE2 a \<and> byte_in 0x80 0x80 b \<and> (byte_in 0x80 0x8A c \<or> byte_in 0xA8 0xA9 c \<or> byte_in 0xAF 0xAF c) \<or>
     byte_in 0xE2 0xE2 a \<and> byte_in 0x81 0x81 b \<and> byte_in 0x9F 0x9F c \<or>
     byte_in 0xE3 0xE3 a \<and> byte_in 0x80 0x80 b \<and> byte_in 0x80 0x80 c"

fun trim_left :: "(char \<Rightarrow> char \<Rightarrow> bool) \<Rightarrow> (char \<Rightarrow> char \<Rightarrow> char \<Rightarrow> bool) \<Rightarrow> string \<Rightarrow> string" where
  "trim_left w2 w3 [] = []"
| "trim_left w2 w3 (a # s) =
     (if is_space a then trim_left w2 w3 s
      else case s of [] \<Rightarrow> a # s
       | b # s' \<Rightarrow>
          if w2 a b then trim_left w2 w3 s'
          else case s' of [] \<Rightarrow> a # s
           | c # s'' \<Rightarrow> if w3 a b c then trim_left w2 w3 s'' else a # s)"

definition TrimSpace :: "string \<Rightarrow> string" where
  "TrimSpace s = rev (trim_left (\<lambda>a b. wide2 b a) (\<lambda>a b c. wide3 c b a) (rev (trim_left wide2 wide3 s)))"

text \<open>
  \<^verbatim>\<open>strings.ToLower\<close>: apart from the ASCII letters only two code points have an ASCII lower case, the
  dotted capital I and the Kelvin sign; every other non-ASCII byte stays outside ASCII.
\<close>

fun to_lower :: "string \<Rightarrow> string" where
  "to_lower [] = []"
| "to_lower (a # s) =
     (if is_upper a then char_of (of_char a + (32 :: nat)) # to_lower s
      else case s of b # s' \<Rightarrow>
          if byte_in 0xC4 0xC4 a \<and> byte_in 0xB0 0xB0 b then CHR ''i'' # to_lower s'
          else (case s' of c # s'' \<Rightarrow>
              if byte_in 0xE2 0xE2 a \<and> byte_in 0x84 0x84 b \<and> byte_in 0xAA 0xAA c then CHR ''k'' # to_lower s''
              else a # to_lower s | [] \<Rightarrow> a # to_lower s)
        | [] \<Rightarrow> [a])"

text \<open>\<^verbatim>\<open>net.SplitHostPort\<close>.\<close>

definition SplitHostPort :: "string \<Rightarrow> (string \<times> string) option" where
  "SplitHostPort s =
     (if CHR '':'' \<notin> set s then None
      else
        let port = rev (takeWhile (\<lambda>c. c \<noteq> CHR '':'') (rev s)); i = length s - Suc (length port) in
        if hd s = CHR ''['' then
          let host = takeWhile (\<lambda>c. c \<noteq> CHR '']'') (tl s); end' = Suc (length host) in
          if CHR '']'' \<notin> set s \<or> Suc end' \<noteq> i \<or> CHR ''['' \<in> set (tl s) \<or> CHR '']'' \<in> set (drop (Suc end') s) then None
          else Some (host, port)
        else
          let host = take i s in
          if CHR '':'' \<in> set host \<or> CHR ''['' \<in> set s \<or> CHR '']'' \<in> set s then None else Some (host, port))"

section \<open>Endpoint policy\<close>

definition forbiddenPublicEndpointPrefixes :: "Prefix list" where
  "forbiddenPublicEndpointPrefixes =
     [prefix4 0 0 0 0 8, prefix4 10 0 0 0 8, prefix4 100 64 0 0 10, prefix4 127 0 0 0 8, prefix4 169 254 0 0 16,
      prefix4 172 16 0 0 12, prefix4 192 0 0 0 24, prefix4 192 0 2 0 24, prefix4 192 31 196 0 24,
      prefix4 192 52 193 0 24, prefix4 192 88 99 0 24, prefix4 192 168 0 0 16, prefix4 192 175 48 0 24,
      prefix4 198 18 0 0 15, prefix4 198 51 100 0 24, prefix4 203 0 113 0 24, prefix4 224 0 0 0 4, prefix4 240 0 0 0 4,
      prefix6 [] 128, prefix6 [0, 0, 0, 0, 0, 0, 0, 1] 128, prefix6 [0, 0, 0, 0, 0, 0xffff] 96, prefix6 [0x64, 0xff9b] 96,
      prefix6 [0x64, 0xff9b, 1] 48, prefix6 [0x100] 64, prefix6 [0x100, 0, 0, 1] 64, prefix6 [0x2001] 23,
      prefix6 [0x2001, 0xdb8] 32, prefix6 [0x2002] 16, prefix6 [0x2620, 0x4f, 0x8000] 48, prefix6 [0x3fff] 20,
      prefix6 [0x5f00] 16, prefix6 [0xfc00] 7, prefix6 [0xfe80] 10, prefix6 [0xff00] 8]"

definition allocatedIPv6GlobalUnicast :: Prefix where
  "allocatedIPv6GlobalUnicast = prefix6 [0x2000] 3"

definition publicEndpointAddress :: "Addr \<Rightarrow> bool" where
  "publicEndpointAddress a \<longleftrightarrow>
     addr_valid a \<and> Zone a = [] \<and> \<not> Is4In6 a \<and> IsGlobalUnicast a \<and>
     \<not> (Is6 a \<and> \<not> Contains allocatedIPv6GlobalUnicast a) \<and>
     \<not> list_ex (\<lambda>p. Contains p a) forbiddenPublicEndpointPrefixes"

definition safeTunnelAddress :: "Addr \<Rightarrow> bool" where
  "safeTunnelAddress a \<longleftrightarrow>
     addr_valid a \<and> Zone a = [] \<and> \<not> Is4In6 a \<and> IsGlobalUnicast a \<and> (IsPrivate a \<or> publicEndpointAddress a)"

definition safeDNSAddress :: "Addr \<Rightarrow> bool" where
  "safeDNSAddress a = safeTunnelAddress a"

definition safeInterfaceAddress :: "Prefix \<Rightarrow> bool" where
  "safeInterfaceAddress p \<longleftrightarrow>
     prefix_valid p \<and> safeTunnelAddress (pf_Addr p) \<and>
     (if Is4 (pf_Addr p) then pf_Bits p = 32 else Is6 (pf_Addr p) \<and> pf_Bits p = 128)"

definition has_suffix :: "string \<Rightarrow> string \<Rightarrow> bool" where
  "has_suffix suf s \<longleftrightarrow> length suf \<le> length s \<and> drop (length s - length suf) s = suf"

definition safe_label :: "string \<Rightarrow> bool" where
  "safe_label l \<longleftrightarrow>
     l \<noteq> [] \<and> length l \<le> 63 \<and> hd l \<noteq> CHR ''-'' \<and> last l \<noteq> CHR ''-'' \<and>
     list_all (\<lambda>c. is_lower c \<or> is_digit c \<or> c = CHR ''-'') l"

definition safeEndpointHostname :: "string \<Rightarrow> bool" where
  "safeEndpointHostname host \<longleftrightarrow>
     host \<noteq> [] \<and> length host \<le> 253 \<and> host \<noteq> ''localhost'' \<and> \<not> has_suffix ''.localhost'' host \<and>
     \<not> has_suffix ''.local'' host \<and> \<not> has_suffix ''.internal'' host \<and>
     2 \<le> length (split_at (CHR ''.'') host) \<and> list_all safe_label (split_at (CHR ''.'') host)"

section \<open>Field values\<close>

text \<open>
  \<^verbatim>\<open>decodeKey\<close> hands a 32-byte destination to the decoder.  44 characters without padding decode to 33
  bytes, and the decoder then indexes past the destination: a panic, kept apart from a refusal.
\<close>

definition allZeroKey :: "u8 list \<Rightarrow> bool" where
  "allZeroKey value \<longleftrightarrow> foldl or 0 value = (0 :: u8)"

definition decodeKey :: "string \<Rightarrow> vpn_error + u8 list" where
  "decodeKey value =
     (if length value \<noteq> 44 then Inl ErrInvalidProfile
      else case decode_std_strict value of None \<Rightarrow> Inl ErrInvalidProfile
       | Some decoded \<Rightarrow>
           if 32 < length decoded then Inl VPNPanic
           else if length decoded \<noteq> 32 \<or> allZeroKey decoded then Inl ErrInvalidProfile else Inr decoded)"

definition splitCSV :: "string \<Rightarrow> nat \<Rightarrow> string list option" where
  "splitCSV value maximum =
     (let parts = map TrimSpace (split_at (CHR '','') value) in
      if length parts = 0 \<or> maximum < length parts \<or> [] \<in> set parts then None else Some parts)"

fun collectAddresses :: "string list \<Rightarrow> Prefix list \<Rightarrow> Prefix list option" where
  "collectAddresses [] acc = Some acc"
| "collectAddresses (part # parts) acc =
     (case ParsePrefix part of None \<Rightarrow> None
      | Some p \<Rightarrow> if \<not> safeInterfaceAddress p \<or> p \<in> set acc then None else collectAddresses parts (acc @ [p]))"

definition parseAddresses :: "string \<Rightarrow> (Prefix list \<times> bool) option" where
  "parseAddresses value =
     (case splitCSV value maximumAddresses of None \<Rightarrow> None
      | Some parts \<Rightarrow>
          (case collectAddresses parts [] of None \<Rightarrow> None
           | Some addresses \<Rightarrow>
               if \<not> list_ex (\<lambda>p. Is4 (pf_Addr p)) addresses then None
               else Some (addresses, list_ex (\<lambda>p. \<not> Is4 (pf_Addr p)) addresses)))"

fun collectServers :: "string list \<Rightarrow> Addr list \<Rightarrow> Addr list option" where
  "collectServers [] acc = Some acc"
| "collectServers (part # parts) acc =
     (case ParseAddr part of None \<Rightarrow> None
      | Some a \<Rightarrow> if Is4In6 a \<or> \<not> safeDNSAddress a \<or> a \<in> set acc then None else collectServers parts (acc @ [a]))"

definition parseDNS :: "string \<Rightarrow> (Addr list \<times> bool) option" where
  "parseDNS value =
     (case splitCSV value maximumDNSServers of None \<Rightarrow> None
      | Some parts \<Rightarrow>
          (case collectServers parts [] of None \<Rightarrow> None
           | Some servers \<Rightarrow> Some (servers, list_ex Is6 servers)))"

definition parseAllowedIPs :: "string \<Rightarrow> bool option" where
  "parseAllowedIPs value =
     (case splitCSV value 2 of None \<Rightarrow> None
      | Some parts \<Rightarrow>
          if ParsePrefix (hd parts) \<noteq> Some (prefix4 0 0 0 0 0) then None
          else if length parts = 1 then Some False
          else if ParsePrefix (parts ! 1) \<noteq> Some (prefix6 [] 0) then None
          else Some True)"

definition trim_dot :: "string \<Rightarrow> string" where
  "trim_dot s = (if s \<noteq> [] \<and> last s = CHR ''.'' then butlast s else s)"

definition parseEndpoint :: "string \<Rightarrow> endpoint option" where
  "parseEndpoint value =
     (if 512 < length value then None
      else case SplitHostPort value of None \<Rightarrow> None
       | Some (host, portText) \<Rightarrow>
          if host = [] \<or> \<not> list_all is_digit portText then None
          else case ParseUint 16 portText of None \<Rightarrow> None
           | Some port \<Rightarrow>
              if port = 0 then None
              else case ParseAddr host of
                 Some literal \<Rightarrow>
                   if Is4In6 literal \<or> \<not> publicEndpointAddress literal then None
                   else Some \<lparr>ep_host = [], ep_literal = literal, ep_port = of_int port\<rparr>
               | None \<Rightarrow>
                   let name = to_lower (trim_dot host) in
                   if \<not> safeEndpointHostname name then None
                   else Some \<lparr>ep_host = name @ ''.'', ep_literal = AddrNone, ep_port = of_int port\<rparr>)"

section \<open>The parser\<close>

definition hasUnsafeControl :: "string \<Rightarrow> bool" where
  "hasUnsafeControl value \<longleftrightarrow>
     list_ex (\<lambda>c. (of_char c < (32 :: nat) \<and> of_char c \<noteq> (9 :: nat)) \<or> of_char c = (127 :: nat)) value"

fun allowedField :: "profile_section \<Rightarrow> string \<Rightarrow> bool" where
  "allowedField sectionInterface name \<longleftrightarrow> name = ''PrivateKey'' \<or> name = ''Address'' \<or> name = ''DNS''"
| "allowedField sectionPeer name \<longleftrightarrow> name = ''PublicKey'' \<or> name = ''AllowedIPs'' \<or> name = ''Endpoint''"
| "allowedField sectionNone name \<longleftrightarrow> False"

definition hasExactFields :: "(string \<times> string) list \<Rightarrow> string list \<Rightarrow> bool" where
  "hasExactFields fs names \<longleftrightarrow>
     length fs = length names \<and> list_all (\<lambda>n. case map_of fs n of None \<Rightarrow> False | Some v \<Rightarrow> v \<noteq> []) names"

record profile_lines =
  pl_current :: profile_section
  pl_seenInterface :: bool
  pl_seenPeer :: bool
  pl_interface :: "(string \<times> string) list"
  pl_peer :: "(string \<times> string) list"

definition no_lines :: profile_lines where
  "no_lines = \<lparr>pl_current = sectionNone, pl_seenInterface = False, pl_seenPeer = False, pl_interface = [], pl_peer = []\<rparr>"

definition section_fields :: "profile_lines \<Rightarrow> (string \<times> string) list" where
  "section_fields st = (if pl_current st = sectionInterface then pl_interface st else pl_peer st)"

definition set_field :: "string \<Rightarrow> string \<Rightarrow> profile_lines \<Rightarrow> profile_lines" where
  "set_field name value st =
     (if pl_current st = sectionInterface then st\<lparr>pl_interface := pl_interface st @ [(name, value)]\<rparr>
      else st\<lparr>pl_peer := pl_peer st @ [(name, value)]\<rparr>)"

definition parse_line :: "profile_lines \<Rightarrow> string \<Rightarrow> profile_lines option" where
  "parse_line st raw =
     (let line = TrimSpace raw in
      if line = [] \<or> hd line = CHR ''#'' then Some st
      else if hasUnsafeControl line then None
      else if hd line = CHR ''['' then
        (if line = ''[Interface]'' then
           (if pl_seenInterface st \<or> pl_seenPeer st then None
            else Some (st\<lparr>pl_seenInterface := True, pl_current := sectionInterface\<rparr>))
         else if line = ''[Peer]'' then
           (if \<not> pl_seenInterface st \<or> pl_seenPeer st then None
            else Some (st\<lparr>pl_seenPeer := True, pl_current := sectionPeer\<rparr>))
         else None)
      else if pl_current st = sectionNone \<or> CHR ''='' \<notin> set line \<or> hd line = CHR ''='' then None
      else
        let name = TrimSpace (takeWhile (\<lambda>c. c \<noteq> CHR ''='') line);
            value = TrimSpace (tl (dropWhile (\<lambda>c. c \<noteq> CHR ''='') line)) in
        if value = [] \<or> \<not> allowedField (pl_current st) name \<or> map_of (section_fields st) name \<noteq> None then None
        else Some (set_field name value st))"

fun parse_lines :: "profile_lines \<Rightarrow> string list \<Rightarrow> profile_lines option" where
  "parse_lines st [] = Some st"
| "parse_lines st (l # ls) = (case parse_line st l of None \<Rightarrow> None | Some st' \<Rightarrow> parse_lines st' ls)"

definition line_break :: char where "line_break = CHR 0x0A"

text \<open>The lines the loop sees: a final line break ends the last line, it starts no new one.\<close>

definition profile_text_lines :: "string \<Rightarrow> string list" where
  "profile_text_lines raw =
     (let ls = split_at line_break raw in if last ls = [] then butlast ls else ls)"

definition field_of :: "(string \<times> string) list \<Rightarrow> string \<Rightarrow> string" where
  "field_of fs name = (case map_of fs name of None \<Rightarrow> [] | Some v \<Rightarrow> v)"

text \<open>\<open>sealed\<close> says whether protected memory for the private key could be had.\<close>

definition parse_fields :: "bool \<Rightarrow> (string \<times> string) list \<Rightarrow> (string \<times> string) list \<Rightarrow> vpn_error + profileState" where
  "parse_fields sealed iface peer =
     (case decodeKey (field_of iface ''PrivateKey'') of Inl e \<Rightarrow> Inl e
      | Inr privateKey \<Rightarrow>
     if \<not> sealed then Inl ErrInvalidProfile
     else (case parseAddresses (field_of iface ''Address'') of None \<Rightarrow> Inl ErrInvalidProfile
      | Some (addresses, hasV6Address) \<Rightarrow>
     (case parseDNS (field_of iface ''DNS'') of None \<Rightarrow> Inl ErrInvalidProfile
      | Some (dnsServers, hasV6DNS) \<Rightarrow>
     (case decodeKey (field_of peer ''PublicKey'') of Inl e \<Rightarrow> Inl e
      | Inr publicKey \<Rightarrow>
     (case parseAllowedIPs (field_of peer ''AllowedIPs'') of None \<Rightarrow> Inl ErrInvalidProfile
      | Some allowedV6 \<Rightarrow>
     if (hasV6Address \<or> hasV6DNS) \<and> \<not> allowedV6 then Inl ErrInvalidProfile
     else (case parseEndpoint (field_of peer ''Endpoint'') of None \<Rightarrow> Inl ErrInvalidProfile
      | Some peerEndpoint \<Rightarrow>
         Inr \<lparr>ps_privateKey = Some privateKey, ps_addresses = addresses, ps_dnsServers = dnsServers,
             ps_publicKey = publicKey, ps_allowedV6 = allowedV6, ps_endpoint = peerEndpoint, ps_destroyed = False\<rparr>))))))"

definition parse_profile :: "bool \<Rightarrow> string \<Rightarrow> vpn_error + profileState" where
  "parse_profile sealed raw =
     (if \<not> valid_utf8 raw \<or> CHR 0x00 \<in> set raw then Inl ErrInvalidProfile
      else
        let ls = profile_text_lines raw in
        if maximumProfileLines < length ls then Inl ErrInvalidProfile
        else case parse_lines no_lines ls of None \<Rightarrow> Inl ErrInvalidProfile
         | Some st \<Rightarrow>
            if \<not> pl_seenInterface st \<or> \<not> pl_seenPeer st \<or>
               \<not> hasExactFields (pl_interface st) [''PrivateKey'', ''Address'', ''DNS''] \<or>
               \<not> hasExactFields (pl_peer st) [''PublicKey'', ''AllowedIPs'', ''Endpoint''] then Inl ErrInvalidProfile
            else parse_fields sealed (pl_interface st) (pl_peer st))"

section \<open>The bounded reader\<close>

datatype read_end = ReadEOF | ReadError

text \<open>A reader is what its successive calls return: bytes, and an end or nothing.\<close>

type_synonym reader = "nat \<Rightarrow> string \<times> read_end option"

definition profileBuffer :: nat where "profileBuffer = Suc MaximumProfileBytes"

function read_loop :: "reader \<Rightarrow> nat \<Rightarrow> string \<Rightarrow> nat \<Rightarrow> string option" where
  "read_loop reader k used emptyReads =
     (if profileBuffer \<le> length used then Some used
      else case reader k of (chunk, err) \<Rightarrow>
        if profileBuffer - length used < length chunk then None
        else case err of
           Some ReadEOF \<Rightarrow> Some (used @ chunk)
         | Some ReadError \<Rightarrow> None
         | None \<Rightarrow>
             if chunk = [] then
               (if 100 \<le> Suc emptyReads then None else read_loop reader (Suc k) used (Suc emptyReads))
             else read_loop reader (Suc k) (used @ chunk) 0)"
  by pat_completeness auto
termination
  by (relation "measures [\<lambda>(_, _, used, _). profileBuffer - length used, \<lambda>(_, _, _, e). 100 - e]")
    (auto simp flip: length_greater_0_conv)

declare read_loop.simps [simp del]

definition Parse :: "bool \<Rightarrow> reader \<Rightarrow> vpn_error + profileState" where
  "Parse sealed reader =
     (case read_loop reader 0 [] 0 of None \<Rightarrow> Inl ErrInvalidProfile
      | Some used \<Rightarrow>
          if used = [] \<or> MaximumProfileBytes < length used then Inl ErrInvalidProfile else parse_profile sealed used)"

text \<open>The reader over a live secret fills the destination and then reports the end.\<close>

definition secret_reader :: "string \<Rightarrow> reader" where
  "secret_reader value k = (if k = 0 \<and> value \<noteq> [] then (take profileBuffer value, None) else ([], Some ReadEOF))"

definition ParseSecret :: "bool \<Rightarrow> string option \<Rightarrow> vpn_error + profileState" where
  "ParseSecret sealed source =
     (case source of None \<Rightarrow> Inl ErrInvalidProfile
      | Some value \<Rightarrow>
         (case Parse sealed (secret_reader value) of Inl VPNPanic \<Rightarrow> Inl VPNPanic | Inl _ \<Rightarrow> Inl ErrInvalidProfile
          | Inr p \<Rightarrow> Inr p))"

section \<open>Operations on a profile\<close>

definition InspectProfile :: "profileState \<Rightarrow> vpn_error + Inspection" where
  "InspectProfile p =
     (if ps_destroyed p then Inl ErrInvalidProfile
      else Inr \<lparr>in_IPv4Enabled = True, in_IPv6Enabled = ps_allowedV6 p,
        in_InterfaceAddressCount = length (ps_addresses p), in_DNSServerCount = length (ps_dnsServers p)\<rparr>)"

definition DestroyProfile :: "profileState \<Rightarrow> profileState" where
  "DestroyProfile p =
     (if ps_destroyed p then p
      else p\<lparr>ps_privateKey := None, ps_publicKey := replicate (length (ps_publicKey p)) 0, ps_addresses := [],
        ps_dnsServers := [], ps_endpoint := \<lparr>ep_host = [], ep_literal = AddrNone, ep_port = 0\<rparr>, ps_destroyed := True\<rparr>)"

definition endpointSnapshot :: "profileState \<Rightarrow> vpn_error + endpoint" where
  "endpointSnapshot p = (if ps_destroyed p then Inl ErrInvalidProfile else Inr (ps_endpoint p))"

definition resolved_valid :: "resolvedEndpoint \<Rightarrow> bool" where
  "resolved_valid r \<longleftrightarrow> publicEndpointAddress (re_address r) \<and> re_port r \<noteq> 0"

definition writePrefixes :: "Prefix list \<Rightarrow> string" where
  "writePrefixes values = join_with '', '' (map prefix_text values)"

definition writeAddresses :: "Addr list \<Rightarrow> string" where
  "writeAddresses values = join_with '', '' (map AppendTo values)"

definition writeEndpoint :: "Addr \<Rightarrow> u16 \<Rightarrow> string" where
  "writeEndpoint address port =
     (if Is6 address then ''['' else []) @ AppendTo address @ (if Is6 address then '']'' else []) @
     '':'' @ show_base 10 (unat port)"

definition allowed_text :: "bool \<Rightarrow> string" where
  "allowed_text v6 = ''0.0.0.0/0'' @ (if v6 then '', ::/0'' else [])"

text \<open>The configuration lines that both renderings share, from the peer section on.\<close>

definition config_text :: "u8 list \<Rightarrow> string \<Rightarrow> u8 list \<Rightarrow> bool \<Rightarrow> Addr \<Rightarrow> u16 \<Rightarrow> string" where
  "config_text privateKey middle publicKey v6 address port =
     ''[Interface]'' @ [line_break] @ ''PrivateKey = '' @ encode_std privateKey @ middle @ [line_break, line_break] @
     ''[Peer]'' @ [line_break] @ ''PublicKey = '' @ encode_std publicKey @ [line_break] @
     ''AllowedIPs = '' @ allowed_text v6 @ [line_break] @ ''Endpoint = '' @ writeEndpoint address port @ [line_break]"

definition withResolvedConfig :: "bool \<Rightarrow> profileState \<Rightarrow> resolvedEndpoint \<Rightarrow> vpn_error + string" where
  "withResolvedConfig cancelled p r =
     (if cancelled then Inl ErrContext
      else if \<not> resolved_valid r then Inl ErrInvalidProfile
      else if ps_destroyed p \<or> ep_port (ps_endpoint p) \<noteq> re_port r then Inl ErrInvalidProfile
      else case ps_privateKey p of None \<Rightarrow> Inl ErrInvalidProfile
       | Some key \<Rightarrow>
          let config = config_text key
                ([line_break] @ ''Address = '' @ writePrefixes (ps_addresses p) @ [line_break] @
                 ''DNS = '' @ writeAddresses (ps_dnsServers p))
                (ps_publicKey p) (ps_allowedV6 p) (re_address r) (re_port r) in
          if MaximumProfileBytes < length config then Inl ErrInvalidProfile else Inr config)"

section \<open>The guest's view\<close>

text \<open>A callback-scoped view: while the callback runs its lease is active and the profile locked.\<close>

definition WithGuestSetup :: "bool \<Rightarrow> profileState \<Rightarrow> vpn_error + profileState" where
  "WithGuestSetup cancelled p =
     (if cancelled then Inl ErrContext
      else if ps_destroyed p \<or> ep_literal (ps_endpoint p) = AddrNone \<or> \<not> publicEndpointAddress (ep_literal (ps_endpoint p))
      then Inl ErrInvalidProfile else Inr p)"

definition SetupEndpoint :: "profileState \<Rightarrow> Addr \<times> u16" where
  "SetupEndpoint setup = (ep_literal (ps_endpoint setup), ep_port (ps_endpoint setup))"

definition WithWireGuardConfig :: "bool \<Rightarrow> profileState \<Rightarrow> vpn_error + string" where
  "WithWireGuardConfig cancelled setup =
     (if cancelled then Inl ErrContext
      else case ps_privateKey setup of None \<Rightarrow> Inl ErrInvalidProfile
       | Some key \<Rightarrow>
          let config = config_text key [] (ps_publicKey setup) (ps_allowedV6 setup)
                (ep_literal (ps_endpoint setup)) (ep_port (ps_endpoint setup)) in
          if MaximumProfileBytes < length config then Inl ErrInvalidProfile else Inr config)"

section \<open>The resolver\<close>

definition maximumResolvedIPs :: nat where "maximumResolvedIPs = 16"

text \<open>\<^verbatim>\<open>Addr.Compare\<close>: by length, then by value; zones do not occur among public endpoints.\<close>

definition addr_rank :: "Addr \<Rightarrow> nat \<times> nat" where
  "addr_rank a = (case a of AddrNone \<Rightarrow> (0, 0) | Addr4 w \<Rightarrow> (1, unat w) | Addr6 w _ \<Rightarrow> (2, unat w))"

definition addr_le :: "Addr \<Rightarrow> Addr \<Rightarrow> bool" where
  "addr_le a b \<longleftrightarrow> fst (addr_rank a) < fst (addr_rank b) \<or>
     fst (addr_rank a) = fst (addr_rank b) \<and> snd (addr_rank a) \<le> snd (addr_rank b)"

fun insertEndpoint :: "resolvedEndpoint \<Rightarrow> resolvedEndpoint list \<Rightarrow> resolvedEndpoint list" where
  "insertEndpoint x [] = [x]"
| "insertEndpoint x (y # ys) = (if addr_le (re_address x) (re_address y) then x # y # ys else y # insertEndpoint x ys)"

definition sortEndpoints :: "resolvedEndpoint list \<Rightarrow> resolvedEndpoint list" where
  "sortEndpoints endpoints = foldr insertEndpoint endpoints []"

fun collectEndpoints :: "u16 \<Rightarrow> Addr list \<Rightarrow> resolvedEndpoint list \<Rightarrow> resolvedEndpoint list option" where
  "collectEndpoints port [] acc = Some acc"
| "collectEndpoints port (a # as) acc =
     (if Is4In6 a \<or> \<not> publicEndpointAddress a then None
      else if a \<in> re_address ` set acc then collectEndpoints port as acc
      else collectEndpoints port as (acc @ [\<lparr>re_address = a, re_port = port\<rparr>]))"

text \<open>
  What the environment decides: whether the caller's context ended before or after the lookup,
  whether the ten seconds ran out, and what the lookup of a name returned.
\<close>

record lookup_outcome =
  lo_before :: bool
  lo_after :: bool
  lo_timeout :: bool
  lo_answer :: "string \<Rightarrow> Addr list option"

definition resolve :: "lookup_outcome \<Rightarrow> profileState \<Rightarrow> vpn_error + resolvedEndpoint list" where
  "resolve out p =
     (if lo_before out then Inl ErrContext
      else case endpointSnapshot p of Inl e \<Rightarrow> Inl e
       | Inr peer \<Rightarrow>
          if ep_literal peer \<noteq> AddrNone then Inr [\<lparr>re_address = ep_literal peer, re_port = ep_port peer\<rparr>]
          else if lo_after out then Inl ErrContext
          else case lo_answer out (ep_host peer) of None \<Rightarrow> Inl ErrEndpointUnresolved
           | Some addresses \<Rightarrow>
              if lo_timeout out \<or> addresses = [] \<or> maximumResolvedIPs < length addresses then Inl ErrEndpointUnresolved
              else case collectEndpoints (ep_port peer) addresses [] of None \<Rightarrow> Inl ErrEndpointUnresolved
               | Some resolved \<Rightarrow> if resolved = [] then Inl ErrEndpointUnresolved else Inr (sortEndpoints resolved))"

end
