(* ===== verification/VPN_Delivery.thy ===== *)
theory VPN_Delivery
  imports VPN_Profile "HOL-Library.Multiset"
begin

text \<open>
  What the profile parser guarantees and that the text delivered to a guest reads back: the facts
  about trimming, lines and lists that the round trip needs, the invariant of parsed profiles, and
  the properties of the parser, the policy and the resolver.
\<close>

section \<open>Trimming\<close>

definition graphic :: "char \<Rightarrow> bool" where
  "graphic c \<longleftrightarrow> byte_in 33 126 c"

definition tidy :: "string \<Rightarrow> bool" where
  "tidy s \<longleftrightarrow> s \<noteq> [] \<and> list_all (byte_in 32 126) s \<and> graphic (hd s) \<and> graphic (last s)"

lemma graphic_ascii: "graphic c \<Longrightarrow> 126 < lo \<Longrightarrow> \<not> byte_in lo hi c"
  by (simp add: graphic_def byte_in_def)

lemma graphic_not_space: "graphic c \<Longrightarrow> \<not> is_space c"
  unfolding graphic_def byte_in_def is_space_def by linarith

lemma graphic_not_wide: "graphic c \<Longrightarrow> \<not> wide2 c b" "graphic c \<Longrightarrow> \<not> wide3 c b d"
    "graphic c \<Longrightarrow> \<not> wide2 b c" "graphic c \<Longrightarrow> \<not> wide3 d b c"
  by (simp_all add: wide2_def wide3_def graphic_ascii)


lemma trim_left_graphic:
  assumes "graphic a" "\<And>b. \<not> w2 a b" "\<And>b c. \<not> w3 a b c"
  shows "trim_left w2 w3 (a # s) = a # s"
  using graphic_not_space [OF assms(1)] assms(2,3) by (cases s; cases "tl s") simp_all

lemma tidy_head: "tidy s \<Longrightarrow> \<exists>a r. s = a # r \<and> graphic a"
  by (cases s) (simp_all add: tidy_def)

lemma tidy_last: "tidy s \<Longrightarrow> \<exists>a r. rev s = a # r \<and> graphic a"
  by (cases s rule: rev_cases) (simp_all add: tidy_def)

lemma trim_left_tidy: "tidy s \<Longrightarrow> trim_left wide2 wide3 (s @ r) = s @ r"
proof -
  assume "tidy s"
  then obtain a q where "s = a # q" "graphic a" using tidy_head by blast
  then show ?thesis using trim_left_graphic [of a wide2 wide3 "q @ r"] graphic_not_wide by simp
qed

lemma trim_right_tidy: "tidy s \<Longrightarrow> trim_left (\<lambda>a b. wide2 b a) (\<lambda>a b c. wide3 c b a) (rev s) = rev s"
proof -
  assume "tidy s"
  then obtain a q where a: "rev s = a # q" "graphic a" using tidy_last by blast
  show ?thesis unfolding a(1) by (rule trim_left_graphic) (use a(2) graphic_not_wide in auto)
qed

lemma TrimSpace_tidy: "tidy s \<Longrightarrow> TrimSpace s = s"
  using trim_left_tidy [of s "[]"] trim_right_tidy [of s] by (simp add: TrimSpace_def)

lemma is_space_blank: "is_space (CHR '' '')"
  by (simp add: is_space_def)

lemma TrimSpace_blank: "tidy s \<Longrightarrow> TrimSpace (CHR '' '' # s) = s"
  using TrimSpace_tidy [of s] is_space_blank by (simp add: TrimSpace_def)

lemma TrimSpace_blank_end: "tidy s \<Longrightarrow> TrimSpace (s @ '' '') = s"
  using trim_left_tidy [of s "'' ''"] trim_right_tidy [of s] is_space_blank by (simp add: TrimSpace_def)

lemma TrimSpace_Nil: "TrimSpace [] = []"
  by (simp add: TrimSpace_def)

section \<open>A field line\<close>

lemma printable_safe: "list_all (byte_in 32 126) s \<Longrightarrow> \<not> hasUnsafeControl s"
  by (auto simp: hasUnsafeControl_def list_all_iff list_ex_iff byte_in_def)

lemma tidy_appends: "tidy s \<Longrightarrow> tidy t \<Longrightarrow> list_all (byte_in 32 126) m \<Longrightarrow> tidy (s @ m @ t)"
  by (auto simp: tidy_def)

lemma parse_line_field:
  assumes name: "tidy name" "CHR ''='' \<notin> set name" "hd name \<noteq> CHR ''#''" "hd name \<noteq> CHR ''[''"
    and "tidy value" "pl_current st \<noteq> sectionNone"
    and "allowedField (pl_current st) name" "map_of (section_fields st) name = None"
  shows "parse_line st (name @ '' = '' @ value) = Some (set_field name value st)"
proof -
  let ?line = "name @ '' = '' @ value"
  have t: "tidy ?line" using tidy_appends [OF name(1) assms(5), of "'' = ''"] by (simp add: byte_in_def)
  obtain n ns where n: "name = n # ns" using name(1) by (cases name) (auto simp: tidy_def)
  have "takeWhile (\<lambda>c. c \<noteq> CHR ''='') ?line = name @ '' ''"
    using takeWhile_until [of "CHR ''=''" "name @ '' ''" "'' '' @ value"] name(2) by simp
  moreover have "dropWhile (\<lambda>c. c \<noteq> CHR ''='') ?line = CHR ''='' # CHR '' '' # value"
    using name(2) by (induction name) auto
  moreover have "\<not> hasUnsafeControl ?line" using t by (intro printable_safe) (simp add: tidy_def)
  moreover have "value \<noteq> []" using assms(5) by (simp add: tidy_def)
  moreover have "hd ?line = n" "CHR ''='' \<in> set ?line" using n by simp_all
  moreover have "n \<noteq> CHR ''=''" "n \<noteq> CHR ''#''" "n \<noteq> CHR ''[''" using name n by auto
  ultimately show ?thesis
    unfolding parse_line_def TrimSpace_tidy [OF t] Let_def
    using assms(6-) TrimSpace_blank_end [OF name(1)] TrimSpace_blank [OF assms(5)] by simp
qed

section \<open>Lists of values\<close>

definition word_like :: "string \<Rightarrow> bool" where
  "word_like s \<longleftrightarrow> s \<noteq> [] \<and> list_all graphic s"

lemma word_like_tidy: "word_like s \<Longrightarrow> tidy s"
  by (auto simp: word_like_def tidy_def list_all_iff graphic_def byte_in_def)

lemma word_like_append: "word_like s \<Longrightarrow> word_like t \<Longrightarrow> word_like (s @ t)"
  by (auto simp: word_like_def)

lemma addr_char_graphic: "addr_char c \<Longrightarrow> graphic c"
  unfolding addr_char_def is_hex_def hex_value_def is_digit_def char_between_def graphic_def byte_in_def
  by (auto split: if_splits)

lemma AppendTo_word: "plain_addr a \<Longrightarrow> word_like (AppendTo a)"
  using AppendTo_chars addr_char_graphic AppendTo_nonempty by (auto simp: word_like_def list_all_iff)

lemma decimal_word: "word_like (show_base 10 n)"
  using show_decimal_text(1) [of n] digit_hex addr_char_graphic
  by (auto simp: word_like_def list_all_iff addr_char_def)

lemma prefix_word: "plain_addr (pf_Addr p) \<Longrightarrow> word_like (prefix_text p)"
  using AppendTo_word [of "pf_Addr p"] decimal_word [of "pf_Bits p"]
  by (auto simp: prefix_text_def word_like_def graphic_def byte_in_def)

lemma no_comma: "plain_addr a \<Longrightarrow> CHR '','' \<notin> set (AppendTo a)"
  using AppendTo_chars [of a "CHR '',''"] addr_char_slash by auto

lemma prefix_no_comma: "plain_addr (pf_Addr p) \<Longrightarrow> CHR '','' \<notin> set (prefix_text p)"
  using no_comma show_decimal_text(1) [of "pf_Bits p"]
  by (auto simp: prefix_text_def list_all_iff is_digit_def char_between_def)

lemma split_at_list:
  "ps \<noteq> [] \<Longrightarrow> \<forall>p \<in> set ps. CHR '','' \<notin> set p \<Longrightarrow>
   split_at (CHR '','') (join_with '', '' ps) = hd ps # map (\<lambda>p. CHR '' '' # p) (tl ps)"
proof (induction "'', ''" ps rule: join_with.induct)
  case (3 p q ps)
  then have IH: "split_at (CHR '','') (join_with '', '' (q # ps)) = q # map (\<lambda>p. CHR '' '' # p) ps" by simp
  have "split_at (CHR '','') (CHR '' '' # join_with '', '' (q # ps)) = (CHR '' '' # q) # map (\<lambda>p. CHR '' '' # p) ps"
    using IH by simp
  then show ?case using 3(3) by (simp add: split_at_cons)
qed (simp_all add: split_at_plain)

lemma splitCSV_list:
  assumes "ps \<noteq> []" "length ps \<le> maximum" "\<And>p. p \<in> set ps \<Longrightarrow> word_like p \<and> CHR '','' \<notin> set p"
  shows "splitCSV (join_with '', '' ps) maximum = Some ps"
proof -
  have trims: "TrimSpace p = p" "TrimSpace (CHR '' '' # p) = p" if "p \<in> set ps" for p
    using assms(3) [OF that] by (auto intro: TrimSpace_tidy TrimSpace_blank word_like_tidy)
  have "map TrimSpace (hd ps # map (\<lambda>p. CHR '' '' # p) (tl ps)) = ps"
    using assms(1) trims by (cases ps) (auto intro!: map_idI)
  moreover have "[] \<notin> set ps" using assms(3) by (auto simp: word_like_def)
  ultimately show ?thesis
    using assms split_at_list [of ps] by (simp add: splitCSV_def Let_def)
qed

lemma join_tidy:
  assumes "ps \<noteq> []" "\<And>p. p \<in> set ps \<Longrightarrow> word_like p"
  shows "tidy (join_with '', '' ps)"
  using assms
proof (induction "'', ''" ps rule: join_with.induct)
  case (3 p q ps)
  then have "tidy (join_with '', '' (q # ps))" "tidy p" by (auto intro: word_like_tidy)
  then show ?case using tidy_appends [of p "join_with '', '' (q # ps)" "'', ''"] by (simp add: byte_in_def)
qed (auto intro: word_like_tidy)

section \<open>Parsed profiles\<close>

lemma safe_plain: "safeTunnelAddress a \<Longrightarrow> plain_addr a"
  by (cases a) (auto simp: safeTunnelAddress_def plain_addr_def addr_valid_def Zone_def)

lemma public_plain: "publicEndpointAddress a \<Longrightarrow> plain_addr a"
  by (cases a) (auto simp: publicEndpointAddress_def plain_addr_def addr_valid_def Zone_def)

lemma collectAddresses_Some:
  "collectAddresses parts acc = Some ps \<Longrightarrow> distinct acc \<Longrightarrow> \<forall>p \<in> set acc. safeInterfaceAddress p \<Longrightarrow>
   distinct ps \<and> (\<forall>p \<in> set ps. safeInterfaceAddress p) \<and> length ps = length acc + length parts"
  by (induction parts acc rule: collectAddresses.induct) (auto split: option.splits if_splits)

lemma collectAddresses_text:
  "distinct (acc @ ps) \<Longrightarrow> \<forall>p \<in> set ps. safeInterfaceAddress p \<Longrightarrow>
   collectAddresses (map prefix_text ps) acc = Some (acc @ ps)"
proof (induction ps arbitrary: acc)
  case (Cons p ps)
  then have "ParsePrefix (prefix_text p) = Some p"
    by (intro ParsePrefix_text) (auto simp: safeInterfaceAddress_def intro: safe_plain)
  with Cons show ?case by simp
qed simp

lemma collectServers_Some:
  "collectServers parts acc = Some as \<Longrightarrow> distinct acc \<Longrightarrow> \<forall>a \<in> set acc. safeTunnelAddress a \<Longrightarrow>
   distinct as \<and> (\<forall>a \<in> set as. safeTunnelAddress a) \<and> length as = length acc + length parts"
  by (induction parts acc rule: collectServers.induct) (auto simp: safeDNSAddress_def split: option.splits if_splits)

lemma collectServers_text:
  "distinct (acc @ as) \<Longrightarrow> \<forall>a \<in> set as. safeTunnelAddress a \<Longrightarrow> collectServers (map AppendTo as) acc = Some (acc @ as)"
proof (induction as arbitrary: acc)
  case (Cons a as)
  then have "plain_addr a" by (auto intro: safe_plain)
  then have "ParseAddr (AppendTo a) = Some a" "\<not> Is4In6 a"
    by (auto intro: ParseAddr_AppendTo simp: plain_addr_def Is4In6_def split: Addr.splits)
  with Cons show ?case by (simp add: safeDNSAddress_def)
qed simp

text \<open>The invariant of parsed profiles, and that the two list fields read back what is written.\<close>

definition key_ok :: "u8 list \<Rightarrow> bool" where
  "key_ok k \<longleftrightarrow> length k = 32 \<and> \<not> allZeroKey k"

definition addresses_ok :: "Prefix list \<Rightarrow> bool" where
  "addresses_ok ps \<longleftrightarrow> ps \<noteq> [] \<and> length ps \<le> maximumAddresses \<and> distinct ps \<and>
     (\<forall>p \<in> set ps. safeInterfaceAddress p) \<and> (\<exists>p \<in> set ps. Is4 (pf_Addr p))"

definition servers_ok :: "Addr list \<Rightarrow> bool" where
  "servers_ok as \<longleftrightarrow> as \<noteq> [] \<and> length as \<le> maximumDNSServers \<and> distinct as \<and> (\<forall>a \<in> set as. safeTunnelAddress a)"

definition endpoint_ok :: "endpoint \<Rightarrow> bool" where
  "endpoint_ok e \<longleftrightarrow> ep_port e \<noteq> 0 \<and>
     (if ep_literal e = AddrNone then \<exists>name. safeEndpointHostname name \<and> ep_host e = name @ ''.''
      else ep_host e = [] \<and> publicEndpointAddress (ep_literal e))"

definition profile_ok :: "profileState \<Rightarrow> bool" where
  "profile_ok p \<longleftrightarrow> (\<exists>k. ps_privateKey p = Some k \<and> key_ok k) \<and> key_ok (ps_publicKey p) \<and>
     addresses_ok (ps_addresses p) \<and> servers_ok (ps_dnsServers p) \<and> endpoint_ok (ps_endpoint p) \<and> \<not> ps_destroyed p \<and>
     ((\<exists>q \<in> set (ps_addresses p). \<not> Is4 (pf_Addr q)) \<or> (\<exists>a \<in> set (ps_dnsServers p). Is6 a) \<longrightarrow> ps_allowedV6 p)"

lemma splitCSV_Some: "splitCSV v m = Some parts \<Longrightarrow> parts \<noteq> [] \<and> length parts \<le> m"
  by (auto simp: splitCSV_def Let_def split: if_splits)

lemma parseAddresses_Some:
  assumes "parseAddresses v = Some (ps, v6)"
  shows "addresses_ok ps \<and> v6 = (\<exists>p \<in> set ps. \<not> Is4 (pf_Addr p))"
proof -
  from assms obtain parts where parts: "splitCSV v maximumAddresses = Some parts" "collectAddresses parts [] = Some ps"
    and v4: "list_ex (\<lambda>p. Is4 (pf_Addr p)) ps" "v6 = list_ex (\<lambda>p. \<not> Is4 (pf_Addr p)) ps"
    by (auto simp: parseAddresses_def split: option.splits if_splits)
  then show ?thesis
    using splitCSV_Some [OF parts(1)] collectAddresses_Some [OF parts(2)] by (auto simp: addresses_ok_def list_ex_iff)
qed

lemma parseDNS_Some:
  assumes "parseDNS v = Some (as, v6)"
  shows "servers_ok as \<and> v6 = (\<exists>a \<in> set as. Is6 a)"
proof -
  from assms obtain parts where parts: "splitCSV v maximumDNSServers = Some parts" "collectServers parts [] = Some as"
    and v6: "v6 = list_ex Is6 as"
    by (auto simp: parseDNS_def split: option.splits)
  then show ?thesis
    using splitCSV_Some [OF parts(1)] collectServers_Some [OF parts(2)] by (auto simp: servers_ok_def list_ex_iff)
qed

lemma decodeKey_Inr: "decodeKey v = Inr k \<Longrightarrow> key_ok k"
  unfolding decodeKey_def key_ok_def by (simp split: if_splits option.splits)

lemma digit_int: "is_digit c \<Longrightarrow> digit_value c = int (the (hex_value c))"
proof -
  have "(of_char c :: int) = int (of_char c)" by (simp add: of_nat_of_char)
  then show "is_digit c \<Longrightarrow> ?thesis"
    unfolding digit_value_def hex_value_def by (simp add: is_digit_def char_between_def of_nat_diff)
qed

lemma decimal_read: "list_all is_digit s \<Longrightarrow> decimal s = int (read_base 10 s)"
proof -
  have "foldl (\<lambda>n c. 10 * n + digit_value c) (int m) s = int (foldl (\<lambda>n c. 10 * n + the (hex_value c)) m s)"
    if "list_all is_digit s" for m
    using that
  proof (induction s arbitrary: m)
    case (Cons c s)
    then show ?case using Cons.IH [of "10 * m + the (hex_value c)"] by (simp add: digit_int)
  qed simp
  from this [of 0] show "list_all is_digit s \<Longrightarrow> ?thesis" by (simp add: decimal_def read_base_def)
qed

lemma ParseUint_bounds: "ParseUint 16 s = Some n \<Longrightarrow> 0 \<le> n \<and> n < 65536"
  unfolding ParseUint_def using decimal_read [of s] by (simp split: if_splits)

lemma port_nonzero: "0 \<le> n \<Longrightarrow> n < 65536 \<Longrightarrow> n \<noteq> 0 \<Longrightarrow> (of_int n :: u16) \<noteq> 0"
  using zdvd_imp_le [of 65536 n] by (auto simp: word_of_int_eq_0_iff)

lemma parseEndpoint_Some: "parseEndpoint v = Some e \<Longrightarrow> endpoint_ok e"
proof -
  assume a: "parseEndpoint v = Some e"
  then obtain host portText n where h: "ParseUint 16 portText = Some n" "n \<noteq> 0" "ep_port e = of_int n"
    and r: "if ep_literal e = AddrNone then \<exists>name. safeEndpointHostname name \<and> ep_host e = name @ ''.''
      else ep_host e = [] \<and> publicEndpointAddress (ep_literal e)"
    by (auto simp: parseEndpoint_def Let_def publicEndpointAddress_def addr_valid_def split: if_splits option.splits)
  then show ?thesis using ParseUint_bounds [OF h(1)] port_nonzero [of n] by (simp add: endpoint_ok_def)
qed

lemma parse_fields_ok: "parse_fields sealed iface peer = Inr p \<Longrightarrow> profile_ok p"
  by (auto simp: parse_fields_def profile_ok_def split: sum.splits option.splits if_splits
      dest!: decodeKey_Inr parseAddresses_Some parseDNS_Some parseEndpoint_Some)

lemma parse_profile_ok: "parse_profile sealed raw = Inr p \<Longrightarrow> profile_ok p"
  by (auto simp: parse_profile_def Let_def split: if_splits option.splits dest: parse_fields_ok)

section \<open>Values read back\<close>

lemma decodeKey_text: "key_ok k \<Longrightarrow> decodeKey (encode_std k) = Inr k"
  by (simp add: decodeKey_def key_ok_def encode_std_length decode_encode_std)

lemma parseAddresses_text:
  assumes "addresses_ok ps"
  shows "parseAddresses (writePrefixes ps) = Some (ps, \<exists>p \<in> set ps. \<not> Is4 (pf_Addr p))"
proof -
  have plain: "plain_addr (pf_Addr p)" if "p \<in> set ps" for p
    using assms that by (auto simp: addresses_ok_def safeInterfaceAddress_def intro: safe_plain)
  have "splitCSV (writePrefixes ps) maximumAddresses = Some (map prefix_text ps)"
    unfolding writePrefixes_def using assms plain
    by (intro splitCSV_list) (auto simp: addresses_ok_def intro: prefix_word dest: prefix_no_comma)
  then show ?thesis
    using assms collectAddresses_text [of "[]" ps] by (auto simp: parseAddresses_def addresses_ok_def list_ex_iff)
qed

lemma parseDNS_text:
  assumes "servers_ok as"
  shows "parseDNS (writeAddresses as) = Some (as, \<exists>a \<in> set as. Is6 a)"
proof -
  have plain: "plain_addr a" if "a \<in> set as" for a using assms that by (auto simp: servers_ok_def intro: safe_plain)
  have "splitCSV (writeAddresses as) maximumDNSServers = Some (map AppendTo as)"
    unfolding writeAddresses_def using assms plain
    by (intro splitCSV_list) (auto simp: servers_ok_def intro: AppendTo_word dest: no_comma)
  then show ?thesis
    using assms collectServers_text [of "[]" as] by (auto simp: parseDNS_def servers_ok_def list_ex_iff)
qed

lemma default_prefix_texts: "prefix_text (prefix4 0 0 0 0 0) = ''0.0.0.0/0''" "prefix_text (prefix6 [] 0) = ''::/0''"
  by code_simp+

lemma parseAllowedIPs_text: "parseAllowedIPs (allowed_text v6) = Some v6"
proof -
  have "ParsePrefix ''0.0.0.0/0'' = Some (prefix4 0 0 0 0 0)" "ParsePrefix ''::/0'' = Some (prefix6 [] 0)"
    unfolding default_prefix_texts [symmetric]
    by (rule ParsePrefix_text; code_simp)+
  moreover have "splitCSV ''0.0.0.0/0'' 2 = Some [''0.0.0.0/0'']" "splitCSV ''0.0.0.0/0, ::/0'' 2 = Some [''0.0.0.0/0'', ''::/0'']"
    by code_simp+
  ultimately show ?thesis by (cases v6) (simp_all add: parseAllowedIPs_def allowed_text_def)
qed

lemma port_text: "ParseUint 16 (show_base 10 (unat (port :: u16))) = Some (int (unat port))"
proof -
  have "decimal (show_base 10 (unat port)) = int (unat port)"
    using decimal_read [OF show_decimal_text(1)] by (simp add: read_show_base)
  moreover have "uint port < 65536" using unsigned_less [of port, where ?'a = int] by simp
  ultimately show ?thesis using show_decimal_text(1) [of "unat port"] by (simp add: ParseUint_def)
qed

lemma digits_no: "\<not> is_digit c \<Longrightarrow> c \<notin> set (show_base 10 n)"
  using show_decimal_text(1) [of n] by (auto simp: list_all_iff)

lemma SplitHostPort_text:
  assumes "plain_addr a"
  shows "SplitHostPort (writeEndpoint a port) = Some (AppendTo a, show_base 10 (unat port))"
proof -
  let ?h = "AppendTo a" and ?p = "show_base 10 (unat port)"
  have nd: "\<not> is_digit (CHR '':'')" "\<not> is_digit (CHR ''['')" "\<not> is_digit (CHR '']'')"
    by (simp_all add: is_digit_def char_between_def)
  have brackets: "CHR ''['' \<notin> set ?h" "CHR '']'' \<notin> set ?h"
    using AppendTo_chars [OF assms] addr_char_slash by blast+
  have port: "rev (takeWhile (\<lambda>c. c \<noteq> CHR '':'') (rev (r @ CHR '':'' # ?p))) = ?p" for r
    using takeWhile_until [of "CHR '':''" "rev ?p" "rev r"] digits_no [OF nd(1)] by simp
  show ?thesis
  proof (cases "Is6 a")
    case True
    have s: "writeEndpoint a port = (CHR ''['' # ?h @ '']'') @ CHR '':'' # ?p" using True by (simp add: writeEndpoint_def)
    have host: "takeWhile (\<lambda>c. c \<noteq> CHR '']'') (tl (writeEndpoint a port)) = ?h"
      using takeWhile_until [of "CHR '']''" ?h "CHR '':'' # ?p"] brackets unfolding s by simp
    have len: "length (writeEndpoint a port) - Suc (length ?p) = Suc (Suc (length ?h))" unfolding s by simp
    show ?thesis
      unfolding SplitHostPort_def Let_def port [of "CHR ''['' # ?h @ '']''", folded s] host len
      using brackets digits_no [OF nd(2), of "unat port"] digits_no [OF nd(3), of "unat port"] unfolding s by simp
  next
    case False
    then have "c \<noteq> CHR '':''" if "c \<in> set ?h" for c
      using set_show4 [of c] that assms nd(1) by (cases a) (auto simp: AppendTo_def plain_addr_def Is6_def)
    then have colon: "CHR '':'' \<notin> set ?h" by auto
    have s: "writeEndpoint a port = ?h @ CHR '':'' # ?p" using False by (simp add: writeEndpoint_def)
    have host: "take (length (writeEndpoint a port) - Suc (length ?p)) (writeEndpoint a port) = ?h" unfolding s by simp
    have "hd (writeEndpoint a port) \<noteq> CHR ''[''" using AppendTo_nonempty [OF assms] brackets unfolding s by (cases ?h) auto
    then show ?thesis
      unfolding SplitHostPort_def Let_def port [of ?h, folded s] host
      using colon brackets digits_no [OF nd(2), of "unat port"] digits_no [OF nd(3), of "unat port"] unfolding s by simp
  qed
qed

section \<open>Bounds\<close>

lemma length_join:
  "\<forall>p \<in> set ps. length p \<le> m \<Longrightarrow> length (join_with sep ps) \<le> (m + length sep) * length ps"
  by (induction sep ps rule: join_with.induct) auto

lemma show4_length: "length (show4 w) \<le> 16"
proof -
  have "length (show_base 10 (unat (b :: u8))) \<le> 3" for b
    using length_show_base [of 10 "unat b" 2] unsigned_less [of b, where ?'a = nat] by simp
  then have "length (show4 w) \<le> (3 + length ''.'') * length (map (\<lambda>b. show_base 10 (unat b)) (octets w))"
    unfolding show4_def by (intro length_join) simp
  then show ?thesis by (simp add: octets_def)
qed

lemma show_fields_length: "length (show_fields gs) \<le> 5 * length gs"
proof -
  have "length (show_fields gs) \<le> (4 + length '':'') * length (map (\<lambda>g. show_base 16 (unat g)) gs)"
    unfolding show_fields_def using field_text(2) by (intro length_join) auto
  then show ?thesis by simp
qed

lemma AppendTo_length: "plain_addr a \<Longrightarrow> length (AppendTo a) \<le> 100"
proof (cases a)
  case (Addr4 w)
  then show ?thesis using show4_length [of w] by (simp add: AppendTo_def)
next
  case (Addr6 w zone)
  assume "plain_addr a"
  obtain s l where "best_run (groups w) = (s, l)" by (cases "best_run (groups w)")
  moreover have "length (show_fields (take s (groups w))) \<le> 40" "length (show_fields (drop (s + l) (groups w))) \<le> 40"
    using show_fields_length [of "take s (groups w)"] show_fields_length [of "drop (s + l) (groups w)"] by auto
  ultimately have "length (show6 (groups w)) \<le> 5 * 8 + (2 + 5 * 8)"
    using show_fields_length [of "groups w"] by (simp add: show6_def)
  with \<open>plain_addr a\<close> Addr6 show ?thesis by (auto simp: AppendTo_def plain_addr_def)
qed (simp add: AppendTo_def)

lemma writeEndpoint_length: "plain_addr a \<Longrightarrow> length (writeEndpoint a port) \<le> 200"
proof -
  have "length (show_base 10 (unat port)) \<le> 5"
    using length_show_base [of 10 "unat port" 4] unsigned_less [of port, where ?'a = nat] by simp
  then show "plain_addr a \<Longrightarrow> ?thesis" using AppendTo_length [of a] by (simp add: writeEndpoint_def)
qed

lemma parseEndpoint_text:
  assumes "publicEndpointAddress a" "port \<noteq> 0"
  shows "parseEndpoint (writeEndpoint a port) = Some \<lparr>ep_host = [], ep_literal = a, ep_port = port\<rparr>"
proof -
  have plain: "plain_addr a" by (rule public_plain [OF assms(1)])
  have "\<not> Is4In6 a" using assms(1) by (simp add: publicEndpointAddress_def)
  moreover have "int (unat port) \<noteq> 0" using assms(2) by (metis of_nat_eq_0_iff unsigned_eq_0_iff)
  moreover have "length (writeEndpoint a port) \<le> 512" using writeEndpoint_length [OF plain, of port] by simp
  ultimately show ?thesis
    using SplitHostPort_text [OF plain, of port] ParseAddr_AppendTo [OF plain] AppendTo_nonempty [OF plain]
      port_text [of port] show_decimal_text(1) [of "unat port"] assms
    by (simp add: parseEndpoint_def)
qed

section \<open>The delivered text reads back\<close>

lemma printable_no_break: "list_all (byte_in 32 126) s \<Longrightarrow> line_break \<notin> set s"
  by (auto simp: list_all_iff line_break_def byte_in_def)

lemma ascii_valid: "list_all (byte_in 0 127) s \<Longrightarrow> valid_utf8 s"
  by (induction s) auto

lemma split_at_lines:
  "ls \<noteq> [] \<Longrightarrow> \<forall>l \<in> set ls. c \<notin> set l \<Longrightarrow> split_at c (join_with [c] ls @ [c]) = ls @ [[]]"
proof (induction "[c]" ls rule: join_with.induct)
  case (2 p)
  then show ?case using split_at_cons [of c p "[]"] by simp
qed (auto simp: split_at_cons)

lemma parse_printable_lines:
  assumes "ls \<noteq> []" "length ls \<le> maximumProfileLines" "\<forall>l \<in> set ls. list_all (byte_in 32 126) l"
  shows "parse_profile sealed (join_with [line_break] ls @ [line_break]) =
    (case parse_lines no_lines ls of None \<Rightarrow> Inl ErrInvalidProfile
     | Some st \<Rightarrow>
        if \<not> pl_seenInterface st \<or> \<not> pl_seenPeer st \<or>
           \<not> hasExactFields (pl_interface st) [''PrivateKey'', ''Address'', ''DNS''] \<or>
           \<not> hasExactFields (pl_peer st) [''PublicKey'', ''AllowedIPs'', ''Endpoint''] then Inl ErrInvalidProfile
        else parse_fields sealed (pl_interface st) (pl_peer st))"
proof -
  let ?raw = "join_with [line_break] ls @ [line_break]"
  have chars: "c = line_break \<or> byte_in 32 126 c" if "c \<in> set ?raw" for c
    using that assms(3) set_join_with [of "[line_break]" ls] by (auto simp: list_all_iff)
  have "byte_in 0 127 c \<and> c \<noteq> CHR 0x00" if "c = line_break \<or> byte_in 32 126 c" for c
    using that by (auto simp: line_break_def byte_in_def)
  with chars have "list_all (byte_in 0 127) ?raw" "CHR 0x00 \<notin> set ?raw" by (auto simp: list_all_iff)
  moreover have "split_at line_break ?raw = ls @ [[]]"
    using assms(1,3) printable_no_break by (intro split_at_lines) auto
  then have "profile_text_lines ?raw = ls" by (simp add: profile_text_lines_def)
  ultimately show ?thesis using assms(2) ascii_valid by (simp add: parse_profile_def not_less)
qed

lemma encode_std_word: "bs \<noteq> [] \<Longrightarrow> word_like (encode_std bs)"
proof -
  have c: "graphic (std_char c)" if "value64 c \<noteq> None" for c
    using that unfolding value64_def is_upper_def is_lower_def is_digit_def char_between_def std_char_def graphic_def byte_in_def
    by (auto split: if_splits)
  have "list_all graphic (encode_std bs)"
    using c encode64_chars by (auto simp: encode_std_def list_all_iff graphic_def [of "CHR ''=''"] byte_in_def [of _ _ "CHR ''=''"])
  moreover assume "bs \<noteq> []"
  then have "encode64 bs \<noteq> []" by (cases bs rule: encode64.cases) (auto simp: Let_def)
  ultimately show ?thesis by (simp add: word_like_def encode_std_def)
qed

lemma allowed_text_tidy: "tidy (allowed_text v6)"
  by (cases v6) (simp_all add: allowed_text_def tidy_def graphic_def byte_in_def)

lemma writeEndpoint_word: "plain_addr a \<Longrightarrow> word_like (writeEndpoint a port)"
  using AppendTo_word [of a] decimal_word [of "unat port"]
  by (auto simp: writeEndpoint_def word_like_def graphic_def byte_in_def)

definition field_line_text :: "string \<Rightarrow> string \<Rightarrow> string" where
  "field_line_text name value = name @ '' = '' @ value"

definition config_lines :: "string \<Rightarrow> string \<Rightarrow> string \<Rightarrow> string \<Rightarrow> string \<Rightarrow> string \<Rightarrow> string list" where
  "config_lines key addresses servers public allowed endpoint =
     [''[Interface]'', field_line_text ''PrivateKey'' key, field_line_text ''Address'' addresses,
      field_line_text ''DNS'' servers, [], ''[Peer]'', field_line_text ''PublicKey'' public,
      field_line_text ''AllowedIPs'' allowed, field_line_text ''Endpoint'' endpoint]"

lemma parse_section_lines:
  "parse_line no_lines ''[Interface]'' = Some (no_lines\<lparr>pl_seenInterface := True, pl_current := sectionInterface\<rparr>)"
  "parse_line st [] = Some st"
  "pl_seenInterface st \<Longrightarrow> \<not> pl_seenPeer st \<Longrightarrow>
     parse_line st ''[Peer]'' = Some (st\<lparr>pl_seenPeer := True, pl_current := sectionPeer\<rparr>)"
proof -
  have "TrimSpace ''[Interface]'' = ''[Interface]''" "TrimSpace ''[Peer]'' = ''[Peer]''"
    by (rule TrimSpace_tidy; simp add: tidy_def graphic_def byte_in_def)+
  moreover have "\<not> hasUnsafeControl ''[Interface]''" "\<not> hasUnsafeControl ''[Peer]''"
    by (rule printable_safe; simp add: byte_in_def)+
  ultimately show "parse_line no_lines ''[Interface]'' = Some (no_lines\<lparr>pl_seenInterface := True, pl_current := sectionInterface\<rparr>)"
    "pl_seenInterface st \<Longrightarrow> \<not> pl_seenPeer st \<Longrightarrow>
       parse_line st ''[Peer]'' = Some (st\<lparr>pl_seenPeer := True, pl_current := sectionPeer\<rparr>)"
    by (simp_all add: parse_line_def no_lines_def)
  show "parse_line st [] = Some st" by (simp add: parse_line_def TrimSpace_Nil)
qed

lemma field_line:
  assumes "name \<in> {''PrivateKey'', ''Address'', ''DNS'', ''PublicKey'', ''AllowedIPs'', ''Endpoint''}" "tidy value"
    "allowedField (pl_current st) name" "map_of (section_fields st) name = None"
  shows "parse_line st (field_line_text name value) = Some (set_field name value st)"
  unfolding field_line_text_def
proof (rule parse_line_field)
  show "tidy name" "CHR ''='' \<notin> set name" "hd name \<noteq> CHR ''#''" "hd name \<noteq> CHR ''[''"
    using assms(1) by (auto simp: tidy_def graphic_def byte_in_def)
  show "pl_current st \<noteq> sectionNone" using assms(3) by (cases "pl_current st") auto
qed (use assms in auto)

lemma parse_config_lines:
  assumes "tidy key" "tidy addresses" "tidy servers" "tidy public" "tidy allowed" "tidy endpoint"
  shows "parse_lines no_lines (config_lines key addresses servers public allowed endpoint) =
    Some \<lparr>pl_current = sectionPeer, pl_seenInterface = True, pl_seenPeer = True,
      pl_interface = [(''PrivateKey'', key), (''Address'', addresses), (''DNS'', servers)],
      pl_peer = [(''PublicKey'', public), (''AllowedIPs'', allowed), (''Endpoint'', endpoint)]\<rparr>"
  unfolding config_lines_def
  by (simp add: parse_section_lines field_line assms) (simp add: set_field_def section_fields_def no_lines_def parse_section_lines field_line assms)

definition resolved_profile :: "profileState \<Rightarrow> resolvedEndpoint \<Rightarrow> profileState" where
  "resolved_profile p r = p\<lparr>ps_endpoint := \<lparr>ep_host = [], ep_literal = re_address r, ep_port = re_port r\<rparr>\<rparr>"

lemma list_lengths:
  assumes "addresses_ok ps" "servers_ok as"
  shows "length (writePrefixes ps) \<le> 848" "length (writeAddresses as) \<le> 816"
proof -
  have "length (prefix_text q) \<le> 104" if "q \<in> set ps" for q
  proof -
    have q: "plain_addr (pf_Addr q)" "pf_Bits q < 10 ^ Suc 2"
      using assms(1) that by (auto simp: addresses_ok_def safeInterfaceAddress_def intro: safe_plain split: if_splits)
    show ?thesis using AppendTo_length [OF q(1)] length_show_base [OF _ q(2)] by (simp add: prefix_text_def)
  qed
  then have "length (writePrefixes ps) \<le> (104 + length '', '') * length (map prefix_text ps)"
    unfolding writePrefixes_def by (intro length_join) auto
  with assms(1) show "length (writePrefixes ps) \<le> 848" by (simp add: addresses_ok_def maximumAddresses_def)
  have "length (writeAddresses as) \<le> (100 + length '', '') * length (map AppendTo as)"
    unfolding writeAddresses_def using assms(2) by (intro length_join) (auto simp: servers_ok_def intro: AppendTo_length safe_plain)
  with assms(2) show "length (writeAddresses as) \<le> 816" by (simp add: servers_ok_def maximumDNSServers_def)
qed

lemma config_text_lines:
  "config_text key ([line_break] @ ''Address = '' @ addresses @ [line_break] @ ''DNS = '' @ servers) public v6 a port =
   join_with [line_break] (config_lines (encode_std key) addresses servers (encode_std public) (allowed_text v6)
     (writeEndpoint a port)) @ [line_break]"
  by (simp add: config_text_def config_lines_def field_line_text_def)

lemma profile_texts_tidy:
  assumes "profile_ok p" "ps_privateKey p = Some key" "plain_addr a"
  shows "tidy (encode_std key)" "tidy (writePrefixes (ps_addresses p))" "tidy (writeAddresses (ps_dnsServers p))"
    "tidy (encode_std (ps_publicKey p))" "tidy (writeEndpoint a port)"
proof -
  show "tidy (encode_std key)" "tidy (encode_std (ps_publicKey p))"
    using assms(1,2) by (auto simp: profile_ok_def key_ok_def intro!: word_like_tidy encode_std_word)
  show "tidy (writePrefixes (ps_addresses p))" "tidy (writeAddresses (ps_dnsServers p))"
    using assms(1) unfolding writePrefixes_def writeAddresses_def
    by (auto simp: profile_ok_def addresses_ok_def servers_ok_def safeInterfaceAddress_def
        intro!: join_tidy prefix_word AppendTo_word safe_plain)
  show "tidy (writeEndpoint a port)" by (rule word_like_tidy [OF writeEndpoint_word [OF assms(3)]])
qed

lemma config_lines_printable:
  assumes "tidy a" "tidy b" "tidy c" "tidy d" "tidy e" "tidy f"
  shows "\<forall>l \<in> set (config_lines a b c d e f). list_all (byte_in 32 126) l"
  using assms by (simp add: config_lines_def field_line_text_def tidy_def byte_in_def)

lemma delivered_text_reads_back:
  assumes p: "profile_ok p" and r: "resolved_valid r" "re_port r = ep_port (ps_endpoint p)"
  shows "\<exists>config. withResolvedConfig False p r = Inr config \<and> parse_profile True config = Inr (resolved_profile p r)"
proof -
  obtain key where key: "ps_privateKey p = Some key" "key_ok key" using p by (auto simp: profile_ok_def)
  have plain: "plain_addr (re_address r)" using r(1) by (auto simp: resolved_valid_def intro: public_plain)
  let ?A = "writePrefixes (ps_addresses p)" and ?D = "writeAddresses (ps_dnsServers p)"
  let ?ls = "config_lines (encode_std key) ?A ?D (encode_std (ps_publicKey p)) (allowed_text (ps_allowedV6 p))
    (writeEndpoint (re_address r) (re_port r))"
  let ?config = "join_with [line_break] ?ls @ [line_break]"
  note tidies = profile_texts_tidy [OF p key(1) plain] allowed_text_tidy [of "ps_allowedV6 p"]
  have "length ?config \<le> MaximumProfileBytes"
    using list_lengths [of "ps_addresses p" "ps_dnsServers p"] writeEndpoint_length [OF plain, of "re_port r"] p key(2)
    by (auto simp: profile_ok_def key_ok_def config_lines_def field_line_text_def encode_std_length allowed_text_def MaximumProfileBytes_def)
  then have "withResolvedConfig False p r = Inr ?config"
    using p r key by (simp add: withResolvedConfig_def config_text_lines profile_ok_def del: append.simps)
  moreover have "parse_profile True ?config =
      parse_fields True [(''PrivateKey'', encode_std key), (''Address'', ?A), (''DNS'', ?D)]
        [(''PublicKey'', encode_std (ps_publicKey p)), (''AllowedIPs'', allowed_text (ps_allowedV6 p)),
         (''Endpoint'', writeEndpoint (re_address r) (re_port r))]"
  proof -
    have "?ls \<noteq> []" "length ?ls \<le> maximumProfileLines" by (simp_all add: config_lines_def maximumProfileLines_def)
    then show ?thesis
      using parse_printable_lines [OF _ _ config_lines_printable [OF tidies(1-4,6,5)], where sealed = True]
        parse_config_lines [OF tidies(1-4,6,5)] tidies
      by (simp add: hasExactFields_def tidy_def)
  qed
  moreover have "parse_fields True [(''PrivateKey'', encode_std key), (''Address'', ?A), (''DNS'', ?D)]
        [(''PublicKey'', encode_std (ps_publicKey p)), (''AllowedIPs'', allowed_text (ps_allowedV6 p)),
         (''Endpoint'', writeEndpoint (re_address r) (re_port r))] = Inr (resolved_profile p r)"
    using p key r
    by (auto simp: parse_fields_def field_of_def decodeKey_text parseAddresses_text parseDNS_text parseAllowedIPs_text
        parseEndpoint_text profile_ok_def resolved_valid_def resolved_profile_def)
  ultimately show ?thesis by metis
qed

section \<open>The resolver\<close>

lemma insertEndpoint_mset: "mset (insertEndpoint x ys) = add_mset x (mset ys)"
  by (induction ys) auto

lemma sortEndpoints_mset: "mset (sortEndpoints es) = mset es"
  by (induction es) (simp_all add: sortEndpoints_def insertEndpoint_mset)

lemma addr_le_order: "addr_le a b \<or> addr_le b a" "addr_le a b \<Longrightarrow> addr_le b c \<Longrightarrow> addr_le a c"
  by (auto simp: addr_le_def)

definition endpoints_sorted :: "resolvedEndpoint list \<Rightarrow> bool" where
  "endpoints_sorted es = sorted_wrt (\<lambda>x y. addr_le (re_address x) (re_address y)) es"

lemma insertEndpoint_sorted: "endpoints_sorted ys \<Longrightarrow> endpoints_sorted (insertEndpoint x ys)"
proof (induction ys)
  case (Cons y ys)
  have "set (insertEndpoint x ys) = insert x (set ys)"
    using insertEndpoint_mset [of x ys] by (metis set_mset_mset set_mset_add_mset_insert)
  with Cons show ?case using addr_le_order by (auto simp: endpoints_sorted_def)
qed (simp add: endpoints_sorted_def)

lemma sortEndpoints_sorted: "endpoints_sorted (sortEndpoints es)"
  unfolding sortEndpoints_def by (induction es) (simp_all add: insertEndpoint_sorted, simp add: endpoints_sorted_def)

lemma collectEndpoints_Some:
  "collectEndpoints port as acc = Some es \<Longrightarrow> distinct (map re_address acc) \<Longrightarrow>
   distinct (map re_address es) \<and> length es \<le> length acc + length as \<and>
   re_address ` set es = re_address ` set acc \<union> set as \<and>
   (\<forall>e \<in> set es. e \<in> set acc \<or> publicEndpointAddress (re_address e) \<and> re_port e = port)"
proof (induction port as acc rule: collectEndpoints.induct)
  case (2 port a as acc)
  show ?case
  proof (cases "a \<in> re_address ` set acc")
    case True
    with 2 show ?thesis by (auto split: if_splits)
  next
    case False
    with 2(3) have pub: "publicEndpointAddress a"
      and rec: "collectEndpoints port as (acc @ [\<lparr>re_address = a, re_port = port\<rparr>]) = Some es"
      by (auto split: if_splits)
    have "\<not> (Is4In6 a \<or> \<not> publicEndpointAddress a)" using pub by (simp add: publicEndpointAddress_def)
    then have "distinct (map re_address es) \<and> length es \<le> length (acc @ [\<lparr>re_address = a, re_port = port\<rparr>]) + length as \<and>
        re_address ` set es = re_address ` set (acc @ [\<lparr>re_address = a, re_port = port\<rparr>]) \<union> set as \<and>
        (\<forall>e \<in> set es. e \<in> set (acc @ [\<lparr>re_address = a, re_port = port\<rparr>]) \<or> publicEndpointAddress (re_address e) \<and> re_port e = port)"
      using 2(2) False rec 2(4) by auto
    with pub show ?thesis by auto
  qed
qed auto

lemma resolve_Inr:
  assumes "resolve out p = Inr es" "profile_ok p"
  shows "es \<noteq> [] \<and> length es \<le> maximumResolvedIPs \<and> endpoints_sorted es \<and> distinct (map re_address es) \<and>
    (\<forall>e \<in> set es. resolved_valid e \<and> re_port e = ep_port (ps_endpoint p))"
proof -
  have ep: "endpoint_ok (ps_endpoint p)" using assms(2) by (simp add: profile_ok_def)
  show ?thesis
  proof (cases "ep_literal (ps_endpoint p) = AddrNone")
    case False
    then have "es = [\<lparr>re_address = ep_literal (ps_endpoint p), re_port = ep_port (ps_endpoint p)\<rparr>]"
      using assms(1) by (auto simp: resolve_def endpointSnapshot_def split: if_splits)
    then show ?thesis
      using ep False by (simp add: maximumResolvedIPs_def endpoints_sorted_def resolved_valid_def endpoint_ok_def)
  next
    case True
    then obtain as rs where rs: "collectEndpoints (ep_port (ps_endpoint p)) as [] = Some rs" "rs \<noteq> []"
        "length as \<le> maximumResolvedIPs" "es = sortEndpoints rs"
      using assms(1) by (auto simp: resolve_def endpointSnapshot_def split: if_splits sum.splits option.splits)
    have ms: "mset es = mset rs" using rs(4) sortEndpoints_mset by simp
    have "set es = set rs" "length es = length rs" using ms by (metis set_mset_mset, metis size_mset)
    moreover have "distinct (map re_address es) \<longleftrightarrow> distinct (map re_address rs)"
      using ms by (metis mset_eq_imp_distinct_iff mset_map)
    moreover have "ep_port (ps_endpoint p) \<noteq> 0" using ep by (simp add: endpoint_ok_def)
    ultimately show ?thesis
      using collectEndpoints_Some [OF rs(1)] rs sortEndpoints_sorted by (auto simp: resolved_valid_def)
  qed
qed

section \<open>Reading a secret\<close>

lemma read_loop_secret: "value \<noteq> [] \<Longrightarrow> length value \<le> MaximumProfileBytes \<Longrightarrow> read_loop (secret_reader value) 0 [] 0 = Some value"
proof -
  assume a: "value \<noteq> []" "length value \<le> MaximumProfileBytes"
  have "read_loop (secret_reader value) (Suc 0) value 0 = Some value"
    using a by (subst read_loop.simps) (simp add: secret_reader_def)
  then show ?thesis
    using a by (subst read_loop.simps) (simp add: secret_reader_def profileBuffer_def)
qed

lemma ParseSecret_live:
  "value \<noteq> [] \<Longrightarrow> length value \<le> MaximumProfileBytes \<Longrightarrow>
   ParseSecret sealed (Some value) =
     (case parse_profile sealed value of Inl VPNPanic \<Rightarrow> Inl VPNPanic | Inl _ \<Rightarrow> Inl ErrInvalidProfile | Inr p \<Rightarrow> Inr p)"
  by (simp add: ParseSecret_def Parse_def read_loop_secret)

lemma ParseSecret_ok: "ParseSecret sealed source = Inr p \<Longrightarrow> profile_ok p"
  by (auto simp: ParseSecret_def Parse_def split: option.splits sum.splits vpn_error.splits if_splits dest: parse_profile_ok)

section \<open>Keys that panic the parser\<close>

lemma decode_values_length: "decode_values vs = Some bs \<Longrightarrow> length bs = 3 * length vs div 4"
  by (induction vs arbitrary: bs rule: decode_values.induct) (auto simp: Let_def)

lemma decode_values_Some: "length vs mod 4 = 0 \<Longrightarrow> \<exists>bs. decode_values vs = Some bs"
proof (induction vs rule: decode_values.induct)
  case (1 a b c d rest)
  then have "length rest mod 4 = 0" by simp
  with 1 show ?case by (auto simp: Let_def)
qed (auto simp: Let_def)

lemma std_value_char_class: "std_value c \<noteq> None \<Longrightarrow> c \<noteq> CHR ''='' \<and> \<not> is_break c"
proof -
  assume a: "std_value c \<noteq> None"
  have "c \<noteq> CHR ''=''" using a by (auto simp: std_value_def value64_def is_upper_def is_lower_def is_digit_def char_between_def)
  moreover have "\<not> is_break c"
    using a unfolding std_value_def value64_def is_upper_def is_lower_def is_digit_def char_between_def is_break_def
    by (auto split: if_splits)
  ultimately show ?thesis by simp
qed

lemma decodeKey_panic_iff:
  "decodeKey v = Inl VPNPanic \<longleftrightarrow> length v = 44 \<and> list_all (\<lambda>c. std_value c \<noteq> None) v"
proof
  assume r: "length v = 44 \<and> list_all (\<lambda>c. std_value c \<noteq> None) v"
  then have chars: "\<forall>c \<in> set v. c \<noteq> CHR ''='' \<and> \<not> is_break c" using std_value_char_class by (auto simp: list_all_iff)
  then have "filter (\<lambda>c. \<not> is_break c) v = v" "takeWhile (\<lambda>c. c \<noteq> CHR ''='') v = v"
    by (auto simp: filter_id_conv takeWhile_eq_all_conv)
  then have un: "unpad (filter (\<lambda>c. \<not> is_break c) v) = Some v"
    using r by (simp only: unpad_def Let_def) simp
  obtain bs where bs: "decode_values (map (\<lambda>c. the (std_value c)) v) = Some bs"
    using decode_values_Some [of "map (\<lambda>c. the (std_value c)) v"] r by auto
  have "length bs = 33" using decode_values_length [OF bs] r by simp
  then show "decodeKey v = Inl VPNPanic"
    using r un bs by (simp add: decodeKey_def decode_std_strict_def trailing_zero_def)
next
  assume p: "decodeKey v = Inl VPNPanic"
  then obtain bs where len: "length v = 44" and dec: "decode_std_strict v = Some bs" and long: "32 < length bs"
    unfolding decodeKey_def by (auto split: if_splits option.splits)
  let ?kept = "filter (\<lambda>c. \<not> is_break c) v"
  let ?body = "takeWhile (\<lambda>c. c \<noteq> CHR ''='') ?kept"
  from dec have body: "list_all (\<lambda>c. std_value c \<noteq> None) ?body" "decode_values (map (\<lambda>c. the (std_value c)) ?body) = Some bs"
    by (auto simp: decode_std_strict_def unpad_def Let_def split: option.splits if_splits)
  have "length ?body \<le> length ?kept" "length ?kept \<le> length v" by (rule length_takeWhile_le, rule length_filter_le)
  moreover have "44 \<le> length ?body" using decode_values_length [OF body(2)] long by simp
  ultimately have "length ?kept = length v" "length ?body = length ?kept" using len by simp_all
  then have "?kept = v" "?body = ?kept"
    by (metis filter_id_conv length_filter_less less_irrefl, metis takeWhile_eq_take take_all order_refl)
  then have "?body = v" by (simp only:)
  with body(1) len show "length v = 44 \<and> list_all (\<lambda>c. std_value c \<noteq> None) v" by (simp only: simp_thms)
qed

section \<open>Properties\<close>

definition example_profile :: profileState where
  "example_profile = \<lparr>ps_privateKey = Some (replicate 32 1), ps_addresses = [prefix4 10 2 0 2 32],
     ps_dnsServers = [pf_Addr (prefix4 10 2 0 1 32)], ps_publicKey = replicate 32 2, ps_allowedV6 = False,
     ps_endpoint = \<lparr>ep_host = [], ep_literal = Addr4 0x01010101, ep_port = 51820\<rparr>, ps_destroyed = False\<rparr>"

definition example_endpoint :: resolvedEndpoint where
  "example_endpoint = \<lparr>re_address = Addr4 0x01010101, re_port = 51820\<rparr>"

definition example_lookup :: lookup_outcome where
  "example_lookup = \<lparr>lo_before = False, lo_after = False, lo_timeout = False, lo_answer = (\<lambda>_. None)\<rparr>"

lemma public_example: "publicEndpointAddress (Addr4 0x01010101)"
  by code_simp

lemma example_profile_ok: "profile_ok example_profile"
proof -
  have "key_ok (replicate 32 1)" "key_ok (replicate 32 2)" by code_simp+
  moreover have "addresses_ok [prefix4 10 2 0 2 32]"
    by (simp add: addresses_ok_def maximumAddresses_def) code_simp
  moreover have "servers_ok [pf_Addr (prefix4 10 2 0 1 32)]"
    by (simp add: servers_ok_def maximumDNSServers_def) code_simp
  moreover have "Is4 (pf_Addr (prefix4 10 2 0 2 32))" "\<not> Is6 (pf_Addr (prefix4 10 2 0 1 32))" by code_simp+
  ultimately show ?thesis
    using public_example by (simp add: profile_ok_def example_profile_def endpoint_ok_def)
qed

lemma example_config: "\<exists>raw. raw \<noteq> [] \<and> length raw \<le> MaximumProfileBytes \<and> parse_profile True raw = Inr example_profile"
proof -
  have r: "resolved_valid example_endpoint" "re_port example_endpoint = ep_port (ps_endpoint example_profile)"
    using public_example by (simp_all add: resolved_valid_def example_endpoint_def example_profile_def)
  from delivered_text_reads_back [OF example_profile_ok r] obtain config
    where c: "withResolvedConfig False example_profile example_endpoint = Inr config"
      "parse_profile True config = Inr (resolved_profile example_profile example_endpoint)" by blast
  have "config \<noteq> []" "length config \<le> MaximumProfileBytes"
    using c(1) by (auto simp: withResolvedConfig_def Let_def config_text_def split: if_splits option.splits)
  moreover have "resolved_profile example_profile example_endpoint = example_profile"
    by (simp add: resolved_profile_def example_profile_def example_endpoint_def)
  ultimately show ?thesis using c(2) by auto
qed

lemma example_imported: "\<exists>raw. ParseSecret True (Some raw) = Inr example_profile"
  using example_config ParseSecret_live [of _ True] by fastforce

text \<open>C33: What the host delivers is what the guest reads.  Take a profile the parser accepted and any
  endpoint its resolution produced.  Rendering the configuration for that endpoint never fails, and
  parsing the rendered text gives back the same keys, addresses, servers and routes with the
  resolved literal endpoint in place of the name, in a form the guest can set up from.\<close>

theorem delivered_profile_round_trip:
  assumes "ParseSecret sealed source = Inr p" "resolve out p = Inr endpoints" "r \<in> set endpoints"
  shows "\<exists>config. withResolvedConfig False p r = Inr config \<and>
    parse_profile True config = Inr (resolved_profile p r) \<and> is_ok (WithGuestSetup False (resolved_profile p r))"
proof -
  have ok: "profile_ok p" by (rule ParseSecret_ok [OF assms(1)])
  have r: "resolved_valid r" "re_port r = ep_port (ps_endpoint p)" using resolve_Inr [OF assms(2) ok] assms(3) by auto
  have "is_ok (WithGuestSetup False (resolved_profile p r))"
    using r(1) ok by (auto simp: WithGuestSetup_def resolved_profile_def profile_ok_def resolved_valid_def
        publicEndpointAddress_def addr_valid_def)
  with delivered_text_reads_back [OF ok r] show ?thesis by auto
qed

theorem delivered_profile_round_trip_witness:
  "\<exists>raw config. ParseSecret True (Some raw) = Inr example_profile \<and>
     resolve example_lookup example_profile = Inr [example_endpoint] \<and>
     withResolvedConfig False example_profile example_endpoint = Inr config \<and>
     parse_profile True config = Inr (resolved_profile example_profile example_endpoint)"
proof -
  obtain raw where raw: "ParseSecret True (Some raw) = Inr example_profile" using example_imported by blast
  have res: "resolve example_lookup example_profile = Inr [example_endpoint]"
    by (simp add: resolve_def example_lookup_def endpointSnapshot_def example_profile_def example_endpoint_def)
  have "example_endpoint \<in> set [example_endpoint]" by simp
  from delivered_profile_round_trip [OF raw res this] raw res show ?thesis by auto
qed

text \<open>Only public endpoints, in one order.  Whatever the lookup of the endpoint's name answers, a
  resolution that succeeds holds between one and sixteen endpoints, without repetition, sorted by
  address, every one of them a public unicast address with the port of the profile.\<close>

theorem resolved_endpoints_public:
  assumes "ParseSecret sealed source = Inr p" "resolve out p = Inr endpoints"
  shows "endpoints \<noteq> [] \<and> length endpoints \<le> maximumResolvedIPs \<and> endpoints_sorted endpoints \<and>
    distinct (map re_address endpoints) \<and>
    (\<forall>e \<in> set endpoints. resolved_valid e \<and> re_port e = ep_port (ps_endpoint p))"
  by (rule resolve_Inr [OF assms(2) ParseSecret_ok [OF assms(1)]])

theorem resolved_endpoints_public_witness:
  "\<exists>raw. ParseSecret True (Some raw) = Inr example_profile \<and>
     resolve example_lookup example_profile = Inr [example_endpoint] \<and> resolved_valid example_endpoint"
proof -
  obtain raw where raw: "ParseSecret True (Some raw) = Inr example_profile" using example_imported by blast
  have res: "resolve example_lookup example_profile = Inr [example_endpoint]"
    by (simp add: resolve_def example_lookup_def endpointSnapshot_def example_profile_def example_endpoint_def)
  from resolved_endpoints_public [OF raw res] raw res show ?thesis by auto
qed

text \<open>Keys that stop the parser.  Decoding a key panics exactly if the field holds 44 characters
  of the base64 alphabet and no padding, since they decode to 33 bytes and the destination has 32;
  and a profile with such a key reaches that point.\<close>

theorem unpadded_key_panics:
  "(decodeKey v = Inl VPNPanic \<longleftrightarrow> length v = 44 \<and> list_all (\<lambda>c. std_value c \<noteq> None) v) \<and>
   (\<exists>raw. ParseSecret True (Some raw) = Inl VPNPanic)"
proof -
  let ?k = "replicate 44 (CHR ''A'')"
  let ?ls = "config_lines ?k ''x'' ''x'' ''x'' ''x'' ''x''"
  let ?raw = "join_with [line_break] ?ls @ [line_break]"
  have tidies: "tidy ?k" "tidy ''x''" by (simp_all add: tidy_def graphic_def byte_in_def list_all_iff)
  have "decodeKey ?k = Inl VPNPanic"
    unfolding decodeKey_panic_iff by (simp add: list_all_iff std_value_def value64_def is_upper_def char_between_def)
  moreover have "?ls \<noteq> []" "length ?ls \<le> maximumProfileLines" by (simp_all add: config_lines_def maximumProfileLines_def)
  ultimately have "parse_profile True ?raw = Inl VPNPanic"
    using parse_printable_lines [OF _ _ config_lines_printable [OF tidies(1,2,2,2,2,2)], where sealed = True]
      parse_config_lines [OF tidies(1,2,2,2,2,2)]
    by (simp add: hasExactFields_def parse_fields_def field_of_def)
  moreover have "?raw \<noteq> []" "length ?raw \<le> MaximumProfileBytes"
    by (simp_all add: config_lines_def field_line_text_def MaximumProfileBytes_def)
  ultimately have "ParseSecret True (Some ?raw) = Inl VPNPanic" using ParseSecret_live [of ?raw True] by simp
  then show ?thesis by (intro conjI exI [of _ ?raw] decodeKey_panic_iff)
qed

text \<open>C35: Parsed profiles are well formed.  Whatever bytes were imported, a profile the parser
  accepts has two keys of 32 bytes that are not blank, between one and eight distinct interface
  addresses that are single hosts of tunnel ranges with at least one IPv4 address among them, between
  one and eight distinct name servers, a public literal or an acceptable host name with a port as
  endpoint, and routes for IPv6 whenever an address or server is IPv6.\<close>

theorem parsed_profile_well_formed:
  assumes "ParseSecret sealed source = Inr p"
  shows "profile_ok p"
  by (rule ParseSecret_ok [OF assms])

theorem parsed_profile_well_formed_witness:
  "\<exists>raw p. ParseSecret True (Some raw) = Inr p \<and> profile_ok p \<and> length (ps_addresses p) = 1"
proof -
  obtain raw where raw: "ParseSecret True (Some raw) = Inr example_profile" using example_imported by blast
  from parsed_profile_well_formed [OF raw] raw show ?thesis
    by (intro exI [of _ raw] exI [of _ example_profile]) (simp add: example_profile_def)
qed

end
