(* ===== verification/VPN_Store.thy ===== *)
theory VPN_Store
  imports VPN_Delivery "HOL-Library.AList"
begin

text \<open>
  The volatile profile store of \<^verbatim>\<open>internal/vpn/store.go\<close>.  Stored profiles and resolution plans are
  reached through pointers that outlive their entry, so both live in lists and a pointer is an
  index.  \<^verbatim>\<open>Resolve\<close> gives up the lock around the name lookup: it is two operations with the lookup
  between them, and other callers run in the gap.
\<close>

section \<open>State\<close>

datatype RotationState = RotationNotImported | RotationResolutionNeeded | RotationCurrent | RotationRequired

record vpn_status =
  vs_Present :: bool
  vs_Generation :: u64
  vs_Rotation :: RotationState
  vs_Code :: string
  vs_Profile :: "Inspection option"

record resolutionPlan =
  rp_owner :: u32
  rp_name :: string
  rp_generation :: u64
  rp_epoch :: u64
  rp_endpoints :: "resolvedEndpoint list"

record storedProfile =
  sp_profile :: profileState
  sp_generation :: u64
  sp_epoch :: u64
  sp_rotation :: RotationState
  sp_plan :: "nat option"

type_synonym profileKey = "u32 \<times> string"

record MemoryStore =
  ms_profiles :: "(profileKey \<times> nat) list"
  ms_entries :: "storedProfile list"
  ms_plans :: "resolutionPlan list"
  ms_nextByOwner :: "(u32 \<times> u64) list"
  ms_closed :: bool

definition maximumProfilesPerOwner :: nat where "maximumProfilesPerOwner = 8"
definition maximumStoredProfiles :: nat where "maximumStoredProfiles = 64"

definition NewMemoryStore :: MemoryStore where
  "NewMemoryStore = \<lparr>ms_profiles = [], ms_entries = [], ms_plans = [], ms_nextByOwner = [], ms_closed = False\<rparr>"

definition profileNamePattern :: "string \<Rightarrow> bool" where
  "profileNamePattern name \<longleftrightarrow>
     (case name of [] \<Rightarrow> False
      | c # cs \<Rightarrow> (is_upper c \<or> is_lower c \<or> is_digit c) \<and> length cs \<le> 63 \<and>
          list_all (\<lambda>d. is_upper d \<or> is_lower d \<or> is_digit d \<or> d = CHR ''_'' \<or> d = CHR ''.'' \<or> d = CHR ''-'') cs)"

section \<open>Operations\<close>

definition destroyPlan :: "resolutionPlan \<Rightarrow> resolutionPlan" where
  "destroyPlan p = \<lparr>rp_owner = 0, rp_name = [], rp_generation = 0, rp_epoch = 0, rp_endpoints = []\<rparr>"

definition change_entry :: "nat \<Rightarrow> (storedProfile \<Rightarrow> storedProfile) \<Rightarrow> MemoryStore \<Rightarrow> MemoryStore" where
  "change_entry e f s = s\<lparr>ms_entries := (ms_entries s)[e := f (ms_entries s ! e)]\<rparr>"

definition invalidatePlan :: "nat \<Rightarrow> MemoryStore \<Rightarrow> MemoryStore" where
  "invalidatePlan e s =
     (case sp_plan (ms_entries s ! e) of None \<Rightarrow> s
      | Some i \<Rightarrow> change_entry e (\<lambda>x. x\<lparr>sp_plan := None\<rparr>) (s\<lparr>ms_plans := (ms_plans s)[i := destroyPlan (ms_plans s ! i)]\<rparr>))"

text \<open>What replacing, removing and closing do to the entry they drop.\<close>

definition retire :: "nat \<Rightarrow> MemoryStore \<Rightarrow> MemoryStore" where
  "retire e s = change_entry e (\<lambda>x. x\<lparr>sp_profile := DestroyProfile (sp_profile x)\<rparr>) (invalidatePlan e s)"

definition missingStatus :: vpn_status where
  "missingStatus = \<lparr>vs_Present = False, vs_Generation = 0, vs_Rotation = RotationNotImported,
     vs_Code = ''VPN_PROFILE_NOT_IMPORTED'', vs_Profile = None\<rparr>"

definition statusFor :: "storedProfile option \<Rightarrow> vpn_status" where
  "statusFor entry =
     (case entry of None \<Rightarrow> missingStatus
      | Some x \<Rightarrow>
         (case InspectProfile (sp_profile x) of Inl _ \<Rightarrow> missingStatus
          | Inr inspection \<Rightarrow>
              \<lparr>vs_Present = True, vs_Generation = sp_generation x, vs_Rotation = sp_rotation x,
               vs_Code = (case sp_rotation x of RotationCurrent \<Rightarrow> ''VPN_PROFILE_CURRENT''
                 | RotationRequired \<Rightarrow> ''VPN_PROFILE_ROTATION_REQUIRED'' | _ \<Rightarrow> ''VPN_ENDPOINT_CHECK_REQUIRED''),
               vs_Profile = Some inspection\<rparr>))"

definition closeLocked :: "MemoryStore \<Rightarrow> MemoryStore" where
  "closeLocked s =
     (if ms_closed s then s
      else (fold (\<lambda>ke. retire (snd ke)) (ms_profiles s) s)\<lparr>ms_profiles := [], ms_nextByOwner := [], ms_closed := True\<rparr>)"

definition ownerCount :: "u32 \<Rightarrow> MemoryStore \<Rightarrow> nat" where
  "ownerCount owner s = length (filter (\<lambda>ke. fst (fst ke) = owner) (ms_profiles s))"

definition nextGeneration :: "u32 \<Rightarrow> MemoryStore \<Rightarrow> u64" where
  "nextGeneration owner s = (case map_of (ms_nextByOwner s) owner of None \<Rightarrow> 0 | Some n \<Rightarrow> n) + 1"

definition installProfile :: "profileKey \<Rightarrow> profileState \<Rightarrow> MemoryStore \<Rightarrow> MemoryStore" where
  "installProfile key parsed s =
     (let s' = s\<lparr>ms_nextByOwner := AList.update (fst key) (nextGeneration (fst key) s) (ms_nextByOwner s),
          ms_entries := ms_entries s @ [\<lparr>sp_profile = parsed, sp_generation = nextGeneration (fst key) s, sp_epoch = 0,
            sp_rotation = RotationResolutionNeeded, sp_plan = None\<rparr>],
          ms_profiles := AList.update key (length (ms_entries s)) (ms_profiles s)\<rparr> in
      case map_of (ms_profiles s) key of None \<Rightarrow> s' | Some old \<Rightarrow> retire old s')"

definition Import :: "bool \<Rightarrow> u32 \<Rightarrow> string \<Rightarrow> string option \<Rightarrow> MemoryStore \<Rightarrow> MemoryStore \<times> (vpn_error + vpn_status)" where
  "Import sealed owner name source s =
     (if \<not> profileNamePattern name \<or> source = None then (s, Inl ErrInvalidProfile)
      else case ParseSecret sealed source of Inl e \<Rightarrow> (s, Inl e)
       | Inr parsed \<Rightarrow>
          if ms_closed s then (s, Inl ErrStoreClosed)
          else if map_of (ms_profiles s) (owner, name) = None \<and>
            (maximumStoredProfiles \<le> length (ms_profiles s) \<or> maximumProfilesPerOwner \<le> ownerCount owner s)
          then (s, Inl ErrProfileLimit)
          else if nextGeneration owner s = 0 then (closeLocked s, Inl ErrStoreClosed)
          else let s' = installProfile (owner, name) parsed s in
            (s', Inr (statusFor (Some (ms_entries s' ! length (ms_entries s))))))"

record resolve_ticket =
  rt_key :: profileKey
  rt_entry :: nat
  rt_generation :: u64
  rt_epoch :: u64

definition Resolve_begin :: "u32 \<Rightarrow> string \<Rightarrow> MemoryStore \<Rightarrow> MemoryStore \<times> (vpn_error + resolve_ticket)" where
  "Resolve_begin owner name s =
     (if \<not> profileNamePattern name then (s, Inl ErrProfileNotFound)
      else if ms_closed s then (s, Inl ErrStoreClosed)
      else case map_of (ms_profiles s) (owner, name) of None \<Rightarrow> (s, Inl ErrProfileNotFound)
       | Some e \<Rightarrow>
          let s1 = change_entry e (\<lambda>x. x\<lparr>sp_epoch := sp_epoch x + 1\<rparr>) s in
          if sp_epoch (ms_entries s1 ! e) = 0 then (s1, Inl ErrStoreClosed)
          else let s2 = change_entry e (\<lambda>x. x\<lparr>sp_rotation := RotationResolutionNeeded\<rparr>) (invalidatePlan e s1) in
            (s2, Inr \<lparr>rt_key = (owner, name), rt_entry = e, rt_generation = sp_generation (ms_entries s2 ! e),
                rt_epoch = sp_epoch (ms_entries s2 ! e)\<rparr>))"

definition Resolve_end :: "bool \<Rightarrow> resolve_ticket \<Rightarrow> vpn_error + resolvedEndpoint list \<Rightarrow> MemoryStore \<Rightarrow>
    MemoryStore \<times> (vpn_error + nat)" where
  "Resolve_end cancelled t result s =
     (if ms_closed s then (s, Inl ErrStoreClosed)
      else case map_of (ms_profiles s) (rt_key t) of None \<Rightarrow> (s, Inl ErrProfileNotFound)
       | Some e \<Rightarrow>
          let current = ms_entries s ! e in
          if e \<noteq> rt_entry t \<or> sp_generation current \<noteq> rt_generation t \<or> sp_epoch current \<noteq> rt_epoch t
          then (s, Inl ErrProfileRotated)
          else case (if is_ok result \<and> cancelled then Inl ErrContext else result) of
             Inl err \<Rightarrow>
               (change_entry e (\<lambda>x. x\<lparr>sp_rotation := if cancelled then RotationResolutionNeeded else RotationRequired\<rparr>) s, Inl err)
           | Inr endpoints \<Rightarrow>
               (change_entry e (\<lambda>x. x\<lparr>sp_plan := Some (length (ms_plans s)), sp_rotation := RotationCurrent\<rparr>)
                  (s\<lparr>ms_plans := ms_plans s @ [\<lparr>rp_owner = fst (rt_key t), rp_name = snd (rt_key t),
                     rp_generation = rt_generation t, rp_epoch = rt_epoch t, rp_endpoints = endpoints\<rparr>]\<rparr>),
                Inr (length (ms_plans s))))"

text \<open>The view a plan gives: the plan and the entry, while the lock is held.\<close>

definition UsePlan :: "bool \<Rightarrow> u32 \<Rightarrow> string \<Rightarrow> nat \<Rightarrow> MemoryStore \<Rightarrow> vpn_error + nat \<times> nat" where
  "UsePlan cancelled owner name plan s =
     (if \<not> profileNamePattern name then Inl ErrProfileNotFound
      else if ms_closed s then Inl ErrStoreClosed
      else case map_of (ms_profiles s) (owner, name) of None \<Rightarrow> Inl ErrProfileNotFound
       | Some e \<Rightarrow>
          let entry = ms_entries s ! e; concrete = ms_plans s ! plan in
          if sp_plan entry \<noteq> Some plan \<or> rp_owner concrete \<noteq> owner \<or> rp_name concrete \<noteq> name \<or>
             rp_generation concrete \<noteq> sp_generation entry \<or> rp_epoch concrete \<noteq> sp_epoch entry \<or>
             sp_rotation entry \<noteq> RotationCurrent then Inl ErrProfileRotated
          else if cancelled then Inl ErrContext else Inr (plan, e))"

definition Endpoints :: "nat \<times> nat \<Rightarrow> MemoryStore \<Rightarrow> resolvedEndpoint list" where
  "Endpoints view s = rp_endpoints (ms_plans s ! fst view)"

definition WithGuestConfig :: "bool \<Rightarrow> nat \<times> nat \<Rightarrow> MemoryStore \<Rightarrow> vpn_error + string" where
  "WithGuestConfig cancelled view s =
     (case rp_endpoints (ms_plans s ! fst view) of [] \<Rightarrow> Inl ErrProfileNotReady
      | r # _ \<Rightarrow> withResolvedConfig cancelled (sp_profile (ms_entries s ! snd view)) r)"

definition InspectStore :: "u32 \<Rightarrow> string \<Rightarrow> MemoryStore \<Rightarrow> vpn_status" where
  "InspectStore owner name s =
     (if \<not> profileNamePattern name \<or> ms_closed s then missingStatus
      else statusFor (map_option (\<lambda>e. ms_entries s ! e) (map_of (ms_profiles s) (owner, name))))"

definition RemoveProfile :: "u32 \<Rightarrow> string \<Rightarrow> MemoryStore \<Rightarrow> MemoryStore" where
  "RemoveProfile owner name s =
     (let s' = s\<lparr>ms_profiles := AList.delete (owner, name) (ms_profiles s)\<rparr> in
      case map_of (ms_profiles s) (owner, name) of None \<Rightarrow> s' | Some e \<Rightarrow> retire e s')"

section \<open>Callers and their interleaving\<close>

text \<open>The store with the resolutions in flight, each with the result of its lookup once it is there.\<close>

record vpn_system =
  vy_store :: MemoryStore
  vy_pending :: "(resolve_ticket \<times> (vpn_error + resolvedEndpoint list) option) list"

definition on_store :: "(MemoryStore \<Rightarrow> MemoryStore) \<Rightarrow> vpn_system \<Rightarrow> vpn_system" where
  "on_store f y = y\<lparr>vy_store := f (vy_store y)\<rparr>"

inductive store_step :: "vpn_system \<Rightarrow> vpn_system \<Rightarrow> bool" where
  "store_step y (on_store (\<lambda>s. fst (Import sealed owner name source s)) y)"
| "store_step y (on_store (RemoveProfile owner name) y)"
| "store_step y (on_store closeLocked y)"
| "Resolve_begin owner name (vy_store y) = (s, Inl e) \<Longrightarrow> store_step y (y\<lparr>vy_store := s\<rparr>)"
| "Resolve_begin owner name (vy_store y) = (s, Inr t) \<Longrightarrow>
     store_step y (y\<lparr>vy_store := s, vy_pending := vy_pending y @ [(t, None)]\<rparr>)"
| "j < length (vy_pending y) \<Longrightarrow> vy_pending y ! j = (t, None) \<Longrightarrow>
     result \<in> {Inl ErrEndpointUnresolved, resolve out (sp_profile (ms_entries (vy_store y) ! rt_entry t))} \<Longrightarrow>
     store_step y (y\<lparr>vy_pending := (vy_pending y)[j := (t, Some result)]\<rparr>)"
| "j < length (vy_pending y) \<Longrightarrow> vy_pending y ! j = (t, Some result) \<Longrightarrow>
     store_step y (y\<lparr>vy_store := fst (Resolve_end cancelled t result (vy_store y)),
       vy_pending := take j (vy_pending y) @ drop (Suc j) (vy_pending y)\<rparr>)"

definition vpn_start :: vpn_system where
  "vpn_start = \<lparr>vy_store = NewMemoryStore, vy_pending = []\<rparr>"

section \<open>The invariant\<close>

definition endpoints_for :: "profileState \<Rightarrow> resolvedEndpoint list \<Rightarrow> bool" where
  "endpoints_for p es \<longleftrightarrow> es \<noteq> [] \<and> length es \<le> maximumResolvedIPs \<and> endpoints_sorted es \<and>
     (\<forall>e \<in> set es. resolved_valid e \<and> re_port e = ep_port (ps_endpoint p))"

definition heap_inv :: "MemoryStore \<Rightarrow> bool" where
  "heap_inv s \<longleftrightarrow>
     (\<forall>e < length (ms_entries s). \<forall>i. sp_plan (ms_entries s ! e) = Some i \<longrightarrow> i < length (ms_plans s)) \<and>
     (\<forall>e < length (ms_entries s). \<forall>f < length (ms_entries s). \<forall>i.
        sp_plan (ms_entries s ! e) = Some i \<longrightarrow> sp_plan (ms_entries s ! f) = Some i \<longrightarrow> e = f) \<and>
     (\<forall>e < length (ms_entries s). profile_ok (sp_profile (ms_entries s ! e)) \<or> ps_destroyed (sp_profile (ms_entries s ! e)))"

definition entry_ok :: "MemoryStore \<Rightarrow> profileKey \<Rightarrow> nat \<Rightarrow> bool" where
  "entry_ok s k e \<longleftrightarrow> e < length (ms_entries s) \<and> profile_ok (sp_profile (ms_entries s ! e)) \<and>
     (\<forall>i. sp_plan (ms_entries s ! e) = Some i \<longrightarrow> endpoints_for (sp_profile (ms_entries s ! e)) (rp_endpoints (ms_plans s ! i)))"

definition map_inv :: "MemoryStore \<Rightarrow> bool" where
  "map_inv s \<longleftrightarrow> distinct (map fst (ms_profiles s)) \<and>
     (\<forall>k e. map_of (ms_profiles s) k = Some e \<longrightarrow> entry_ok s k e) \<and>
     (\<forall>k l e. map_of (ms_profiles s) k = Some e \<longrightarrow> map_of (ms_profiles s) l = Some e \<longrightarrow> k = l) \<and>
     length (ms_profiles s) \<le> maximumStoredProfiles \<and> (\<forall>owner. ownerCount owner s \<le> maximumProfilesPerOwner)"

definition pending_ok :: "MemoryStore \<Rightarrow> resolve_ticket \<times> (vpn_error + resolvedEndpoint list) option \<Rightarrow> bool" where
  "pending_ok s tr \<longleftrightarrow> rt_entry (fst tr) < length (ms_entries s) \<and>
     (\<forall>es. snd tr = Some (Inr es) \<longrightarrow> profile_ok (sp_profile (ms_entries s ! rt_entry (fst tr))) \<longrightarrow>
        endpoints_for (sp_profile (ms_entries s ! rt_entry (fst tr))) es)"

definition store_inv :: "vpn_system \<Rightarrow> bool" where
  "store_inv y \<longleftrightarrow> heap_inv (vy_store y) \<and> map_inv (vy_store y) \<and> (\<forall>tr \<in> set (vy_pending y). pending_ok (vy_store y) tr)"

text \<open>Profiles in the heap change only by being destroyed.\<close>

definition prof_stable :: "MemoryStore \<Rightarrow> MemoryStore \<Rightarrow> bool" where
  "prof_stable s s' \<longleftrightarrow> length (ms_entries s) \<le> length (ms_entries s') \<and>
     (\<forall>e < length (ms_entries s). sp_profile (ms_entries s' ! e) = sp_profile (ms_entries s ! e) \<or>
        ps_destroyed (sp_profile (ms_entries s' ! e)))"

lemma profile_ok_live: "profile_ok p \<Longrightarrow> \<not> ps_destroyed p"
  by (simp add: profile_ok_def)

lemma pending_stable: "prof_stable s s' \<Longrightarrow> pending_ok s tr \<Longrightarrow> pending_ok s' tr"
  unfolding prof_stable_def pending_ok_def using profile_ok_live by (metis order_less_le_trans)

lemma prof_stable_refl: "prof_stable s s"
  by (simp add: prof_stable_def)


lemma prof_stable_trans: "prof_stable s t \<Longrightarrow> prof_stable t u \<Longrightarrow> prof_stable s u"
  unfolding prof_stable_def by (metis order_less_le_trans order_trans)

section \<open>Effects on the heap\<close>

lemma change_entry_simps [simp]:
  "ms_profiles (change_entry e f s) = ms_profiles s" "ms_plans (change_entry e f s) = ms_plans s"
  "ms_closed (change_entry e f s) = ms_closed s" "length (ms_entries (change_entry e f s)) = length (ms_entries s)"
  "ms_nextByOwner (change_entry e f s) = ms_nextByOwner s"
  by (simp_all add: change_entry_def)

lemma change_entry_nth:
  "x < length (ms_entries s) \<Longrightarrow> ms_entries (change_entry e f s) ! x = (if x = e then f (ms_entries s ! e) else ms_entries s ! x)"
  by (auto simp: change_entry_def)

lemma invalidatePlan_simps [simp]:
  "ms_profiles (invalidatePlan e s) = ms_profiles s" "ms_closed (invalidatePlan e s) = ms_closed s"
  "length (ms_entries (invalidatePlan e s)) = length (ms_entries s)" "length (ms_plans (invalidatePlan e s)) = length (ms_plans s)"
  by (simp_all add: invalidatePlan_def split: option.splits)

lemma invalidatePlan_nth:
  "x < length (ms_entries s) \<Longrightarrow>
   ms_entries (invalidatePlan e s) ! x = (if x = e then (ms_entries s ! e)\<lparr>sp_plan := None\<rparr> else ms_entries s ! x)"
  by (auto simp: invalidatePlan_def change_entry_nth split: option.splits)

lemma invalidatePlan_plans:
  "sp_plan (ms_entries s ! e) \<noteq> Some i \<Longrightarrow> ms_plans (invalidatePlan e s) ! i = ms_plans s ! i"
  by (auto simp: invalidatePlan_def split: option.splits)

lemma retire_simps [simp]:
  "ms_profiles (retire e s) = ms_profiles s" "ms_closed (retire e s) = ms_closed s"
  "length (ms_entries (retire e s)) = length (ms_entries s)" "length (ms_plans (retire e s)) = length (ms_plans s)"
  by (simp_all add: retire_def)

lemma retire_nth:
  "x < length (ms_entries s) \<Longrightarrow> ms_entries (retire e s) ! x =
     (if x = e then (ms_entries s ! e)\<lparr>sp_plan := None, sp_profile := DestroyProfile (sp_profile (ms_entries s ! e))\<rparr>
      else ms_entries s ! x)"
  by (auto simp: retire_def change_entry_nth invalidatePlan_nth)

lemma retire_plans: "sp_plan (ms_entries s ! e) \<noteq> Some i \<Longrightarrow> ms_plans (retire e s) ! i = ms_plans s ! i"
  by (simp add: retire_def invalidatePlan_plans)

lemma DestroyProfile_destroyed [simp]: "ps_destroyed (DestroyProfile p)"
  by (simp add: DestroyProfile_def)

lemma retire_stable: "prof_stable s (retire e s)"
  by (auto simp: prof_stable_def retire_nth)

text \<open>An operation that drops plans, destroys profiles or changes nothing keeps the heap in order.\<close>

lemma heap_inv_shrink:
  assumes "heap_inv s" "length (ms_entries s') = length (ms_entries s)" "length (ms_plans s) \<le> length (ms_plans s')"
    "\<And>e. e < length (ms_entries s) \<Longrightarrow> sp_plan (ms_entries s' ! e) \<in> {None, sp_plan (ms_entries s ! e)}"
    "prof_stable s s'"
  shows "heap_inv s'"
proof -
  have old: "sp_plan (ms_entries s ! e) = Some i" if "e < length (ms_entries s)" "sp_plan (ms_entries s' ! e) = Some i" for e i
    using assms(4) [OF that(1)] that(2) by auto
  show ?thesis
    unfolding heap_inv_def
  proof (intro conjI allI impI)
    fix e i
    assume "e < length (ms_entries s')" "sp_plan (ms_entries s' ! e) = Some i"
    then show "i < length (ms_plans s')"
      using assms(1-3) old unfolding heap_inv_def by (metis order_less_le_trans)
  next
    fix e f i
    assume "e < length (ms_entries s')" "f < length (ms_entries s')" "sp_plan (ms_entries s' ! e) = Some i" "sp_plan (ms_entries s' ! f) = Some i"
    then show "e = f" using assms(1,2) old unfolding heap_inv_def by metis
  next
    fix e
    assume "e < length (ms_entries s')"
    then show "profile_ok (sp_profile (ms_entries s' ! e)) \<or> ps_destroyed (sp_profile (ms_entries s' ! e))"
      using assms(1,2,5) unfolding heap_inv_def prof_stable_def by metis
  qed
qed

lemma retire_heap: "heap_inv s \<Longrightarrow> heap_inv (retire e s)"
  by (rule heap_inv_shrink [OF _ _ _ _ retire_stable]) (auto simp: retire_nth)

lemma fold_retire:
  "heap_inv s \<Longrightarrow> heap_inv (fold (\<lambda>ke. retire (snd ke)) ks s) \<and> prof_stable s (fold (\<lambda>ke. retire (snd ke)) ks s)"
proof (induction ks arbitrary: s)
  case (Cons k ks)
  then show ?case
    using Cons.IH [OF retire_heap [OF Cons.prems, of "snd k"]] retire_stable prof_stable_trans by fastforce
qed (simp add: prof_stable_refl)

lemma heap_inv_profiles: "heap_inv (s\<lparr>ms_profiles := x, ms_nextByOwner := n, ms_closed := c\<rparr>) = heap_inv s"
  "heap_inv (s\<lparr>ms_profiles := x\<rparr>) = heap_inv s"
  by (simp_all add: heap_inv_def)

lemma closeLocked_inv:
  assumes "heap_inv s" "map_inv s"
  shows "heap_inv (closeLocked s) \<and> map_inv (closeLocked s) \<and> prof_stable s (closeLocked s)"
proof (cases "ms_closed s")
  case False
  let ?t = "fold (\<lambda>ke. retire (snd ke)) (ms_profiles s) s"
  have "prof_stable s (?t\<lparr>ms_profiles := [], ms_nextByOwner := [], ms_closed := True\<rparr>)"
    using fold_retire [OF assms(1), of "ms_profiles s"] by (simp add: prof_stable_def)
  then show ?thesis
    using False fold_retire [OF assms(1), of "ms_profiles s"]
    by (simp add: closeLocked_def heap_inv_profiles map_inv_def ownerCount_def)
qed (use assms in \<open>simp add: closeLocked_def prof_stable_refl\<close>)

lemma map_inv_entry: "map_inv s \<Longrightarrow> map_of (ms_profiles s) k = Some e \<Longrightarrow> entry_ok s k e"
  unfolding map_inv_def by blast

lemma map_inv_inj: "map_inv s \<Longrightarrow> map_of (ms_profiles s) k = Some e \<Longrightarrow> map_of (ms_profiles s) l = Some e \<Longrightarrow> k = l"
  unfolding map_inv_def by blast

text \<open>Retiring an entry that no name leads to any more.\<close>

lemma retire_map:
  assumes "heap_inv s" "map_inv s" "\<And>k. map_of (ms_profiles s) k \<noteq> Some e" "e < length (ms_entries s)"
  shows "map_inv (retire e s)"
proof -
  have "entry_ok (retire e s) k f" if "map_of (ms_profiles s) k = Some f" for k f
  proof -
    have ok: "entry_ok s k f" and ne: "f \<noteq> e"
      using map_inv_entry [OF assms(2) that] assms(3) [of k] that by auto
    then have f: "ms_entries (retire e s) ! f = ms_entries s ! f" by (simp add: entry_ok_def retire_nth)
    have "ms_plans (retire e s) ! i = ms_plans s ! i" if "sp_plan (ms_entries s ! f) = Some i" for i
      using assms(1,4) ok ne that by (intro retire_plans) (auto simp: heap_inv_def entry_ok_def)
    with ok show ?thesis by (simp add: entry_ok_def f)
  qed
  with assms(2) show ?thesis by (simp add: map_inv_def ownerCount_def)
qed

text \<open>Operations that keep every profile and drop or keep plans.\<close>

lemma map_inv_shrink:
  assumes "map_inv s" "ms_profiles s' = ms_profiles s" "length (ms_entries s') = length (ms_entries s)"
    "\<And>e. e < length (ms_entries s) \<Longrightarrow> sp_profile (ms_entries s' ! e) = sp_profile (ms_entries s ! e)"
    "\<And>e i. e < length (ms_entries s) \<Longrightarrow> sp_plan (ms_entries s' ! e) = Some i \<Longrightarrow>
       sp_plan (ms_entries s ! e) = Some i \<and> ms_plans s' ! i = ms_plans s ! i"
  shows "map_inv s'"
proof -
  have "entry_ok s' k e" if "map_of (ms_profiles s) k = Some e" for k e
    using map_inv_entry [OF assms(1) that] assms(3-5) by (auto simp: entry_ok_def)
  with assms(1,2) show ?thesis unfolding map_inv_def ownerCount_def by auto
qed

definition kept :: "MemoryStore \<Rightarrow> MemoryStore \<Rightarrow> bool" where
  "kept s s' \<longleftrightarrow> heap_inv s' \<and> map_inv s' \<and> prof_stable s s'"

lemma kept_trans: "kept s t \<Longrightarrow> kept t u \<Longrightarrow> kept s u"
  by (auto simp: kept_def intro: prof_stable_trans)

lemma change_entry_kept:
  assumes "heap_inv s" "map_inv s" "\<And>x. sp_profile (f x) = sp_profile x" "\<And>x. sp_plan (f x) = sp_plan x"
  shows "kept s (change_entry e f s)"
proof -
  have st: "prof_stable s (change_entry e f s)" using assms(3) by (auto simp: prof_stable_def change_entry_nth)
  have "heap_inv (change_entry e f s)"
    by (rule heap_inv_shrink [OF assms(1) _ _ _ st]) (auto simp: change_entry_nth assms(4))
  moreover have "map_inv (change_entry e f s)"
    by (rule map_inv_shrink [OF assms(2)]) (auto simp: change_entry_nth assms(3,4) split: if_splits)
  ultimately show ?thesis using st by (simp add: kept_def)
qed

lemma invalidatePlan_kept:
  assumes "heap_inv s" "map_inv s" "e < length (ms_entries s)"
  shows "kept s (invalidatePlan e s)"
proof -
  have st: "prof_stable s (invalidatePlan e s)" by (auto simp: prof_stable_def invalidatePlan_nth)
  have "heap_inv (invalidatePlan e s)"
    by (rule heap_inv_shrink [OF assms(1) _ _ _ st]) (auto simp: invalidatePlan_nth)
  moreover have "sp_plan (ms_entries s ! x) = Some i \<and> ms_plans (invalidatePlan e s) ! i = ms_plans s ! i"
    if "x < length (ms_entries s)" "sp_plan (ms_entries (invalidatePlan e s) ! x) = Some i" for x i
  proof -
    have x: "x \<noteq> e" "sp_plan (ms_entries s ! x) = Some i" using that by (auto simp: invalidatePlan_nth split: if_splits)
    moreover have "sp_plan (ms_entries s ! e) \<noteq> Some i"
      using assms(1,3) that(1) x unfolding heap_inv_def by blast
    ultimately show ?thesis using invalidatePlan_plans by blast
  qed
  then have "map_inv (invalidatePlan e s)"
    by (intro map_inv_shrink [OF assms(2)]) (auto simp: invalidatePlan_nth)
  ultimately show ?thesis using st by (simp add: kept_def)
qed

lemma Resolve_begin_kept:
  assumes "heap_inv s" "map_inv s" "Resolve_begin owner name s = (s', r)"
  shows "kept s s' \<and> (\<forall>t. r = Inr t \<longrightarrow> rt_entry t < length (ms_entries s'))"
proof (cases "s' = s \<and> \<not> is_ok r")
  case True
  then show ?thesis using assms by (auto simp: kept_def prof_stable_refl)
next
  case False
  then obtain e where e: "map_of (ms_profiles s) (owner, name) = Some e"
    using assms(3) by (auto simp: Resolve_begin_def split: if_splits option.splits)
  have len: "e < length (ms_entries s)" using map_inv_entry [OF assms(2) e] by (simp add: entry_ok_def)
  let ?s1 = "change_entry e (\<lambda>x. x\<lparr>sp_epoch := sp_epoch x + 1\<rparr>) s"
  let ?s2 = "change_entry e (\<lambda>x. x\<lparr>sp_rotation := RotationResolutionNeeded\<rparr>) (invalidatePlan e ?s1)"
  have k1: "kept s ?s1" by (rule change_entry_kept [OF assms(1,2)]) simp_all
  have k2: "kept ?s1 (invalidatePlan e ?s1)" using k1 len by (intro invalidatePlan_kept) (simp_all add: kept_def)
  have k3: "kept (invalidatePlan e ?s1) ?s2" using k2 by (intro change_entry_kept) (simp_all add: kept_def)
  have "(s' = ?s1 \<and> \<not> is_ok r) \<or> (s' = ?s2 \<and> (\<forall>t. r = Inr t \<longrightarrow> rt_entry t = e))"
    using assms(3) e False by (auto simp: Resolve_begin_def Let_def split: if_splits)
  then show ?thesis using k1 kept_trans [OF kept_trans [OF k1 k2] k3] len by auto
qed

lemma install_plan_kept:
  assumes "heap_inv s" "map_inv s" "map_of (ms_profiles s) k = Some e"
    "endpoints_for (sp_profile (ms_entries s ! e)) (rp_endpoints p)"
  shows "kept s (change_entry e (\<lambda>x. x\<lparr>sp_plan := Some (length (ms_plans s)), sp_rotation := RotationCurrent\<rparr>)
    (s\<lparr>ms_plans := ms_plans s @ [p]\<rparr>))" (is "kept s ?s'")
proof -
  have len: "e < length (ms_entries s)" using map_inv_entry [OF assms(2,3)] by (simp add: entry_ok_def)
  have nth: "ms_entries ?s' ! x = (if x = e then (ms_entries s ! e)\<lparr>sp_plan := Some (length (ms_plans s)),
      sp_rotation := RotationCurrent\<rparr> else ms_entries s ! x)" if "x < length (ms_entries s)" for x
    using that change_entry_nth [of x "s\<lparr>ms_plans := ms_plans s @ [p]\<rparr>" e] by simp
  have plans: "ms_plans ?s' = ms_plans s @ [p]" "length (ms_entries ?s') = length (ms_entries s)"
    "ms_profiles ?s' = ms_profiles s" by simp_all
  have old: "i < length (ms_plans s)" if "x < length (ms_entries s)" "sp_plan (ms_entries s ! x) = Some i" for x i
    using assms(1) that unfolding heap_inv_def by blast
  have "heap_inv ?s'"
    unfolding heap_inv_def plans
  proof (intro conjI allI impI)
    fix x i
    assume "x < length (ms_entries s)" "sp_plan (ms_entries ?s' ! x) = Some i"
    then show "i < length (ms_plans s @ [p])" using old nth by (fastforce split: if_splits)
  next
    fix x y i
    assume "x < length (ms_entries s)" "y < length (ms_entries s)"
      "sp_plan (ms_entries ?s' ! x) = Some i" "sp_plan (ms_entries ?s' ! y) = Some i"
    then show "x = y" using assms(1) old [of x i] old [of y i] unfolding heap_inv_def by (auto simp: nth split: if_splits)
  next
    fix x
    assume "x < length (ms_entries s)"
    then show "profile_ok (sp_profile (ms_entries ?s' ! x)) \<or> ps_destroyed (sp_profile (ms_entries ?s' ! x))"
      using assms(1) len unfolding heap_inv_def by (simp add: nth)
  qed
  moreover have "entry_ok ?s' l f" if "map_of (ms_profiles s) l = Some f" for l f
  proof -
    have ok: "entry_ok s l f" by (rule map_inv_entry [OF assms(2) that])
    then show ?thesis
      using assms(4) old [of f] unfolding entry_ok_def plans by (auto simp: nth nth_append)
  qed
  then have "map_inv ?s'" using assms(2) unfolding map_inv_def plans(3) ownerCount_def by auto
  moreover have "prof_stable s ?s'" unfolding prof_stable_def plans by (simp add: nth)
  ultimately show ?thesis by (simp add: kept_def)
qed

lemma Resolve_end_kept:
  assumes "heap_inv s" "map_inv s" "pending_ok s (t, Some result)"
  shows "kept s (fst (Resolve_end cancelled t result s))"
proof (cases "fst (Resolve_end cancelled t result s) = s")
  case True
  then show ?thesis using assms by (simp add: kept_def prof_stable_refl)
next
  case False
  then obtain e where e: "map_of (ms_profiles s) (rt_key t) = Some e" "e = rt_entry t"
    by (auto simp: Resolve_end_def Let_def split: if_splits option.splits)
  have live: "profile_ok (sp_profile (ms_entries s ! e))" using map_inv_entry [OF assms(2) e(1)] by (simp add: entry_ok_def)
  have rot: "kept s (change_entry e (\<lambda>x. x\<lparr>sp_rotation := v\<rparr>) s)" for v
    by (rule change_entry_kept [OF assms(1,2)]) simp_all
  show ?thesis
  proof (cases "if is_ok result \<and> cancelled then Inl ErrContext else result")
    case (Inl err)
    then show ?thesis using rot False e by (auto simp: Resolve_end_def Let_def split: if_splits)
  next
    case (Inr es)
    then have "endpoints_for (sp_profile (ms_entries s ! e)) es"
      using assms(3) live e(2) by (auto simp: pending_ok_def split: if_splits)
    then show ?thesis
      using install_plan_kept [OF assms(1,2) e(1), of "\<lparr>rp_owner = fst (rt_key t), rp_name = snd (rt_key t),
          rp_generation = rt_generation t, rp_epoch = rt_epoch t, rp_endpoints = es\<rparr>"] False e Inr
      by (auto simp: Resolve_end_def Let_def split: if_splits)
  qed
qed



lemma RemoveProfile_kept:
  assumes "heap_inv s" "map_inv s"
  shows "kept s (RemoveProfile owner name s)"
proof -
  let ?k = "(owner, name)"
  let ?s = "s\<lparr>ms_profiles := AList.delete ?k (ms_profiles s)\<rparr>"
  have sub: "map_of (ms_profiles ?s) l = Some f \<longleftrightarrow> l \<noteq> ?k \<and> map_of (ms_profiles s) l = Some f" for l f
    by (simp add: delete_conv')
  have "entry_ok ?s l f" if "map_of (ms_profiles ?s) l = Some f" for l f
    using map_inv_entry [OF assms(2), of l f] that unfolding sub by (simp add: entry_ok_def)
  moreover have count: "length (ms_profiles ?s) \<le> length (ms_profiles s)" "ownerCount o' ?s \<le> ownerCount o' s" for o'
    by (simp_all add: ownerCount_def length_delete_le AList.length_delete_le)
  moreover have "length (ms_profiles ?s) \<le> maximumStoredProfiles" "ownerCount o' ?s \<le> maximumProfilesPerOwner" for o'
    using assms(2) count(1) count(2) [of o'] unfolding map_inv_def by (blast intro: order_trans)+
  moreover have "distinct (map fst (ms_profiles ?s))" using assms(2) by (simp add: map_inv_def distinct_delete)
  moreover have "l = m" if "map_of (ms_profiles ?s) l = Some f" "map_of (ms_profiles ?s) m = Some f" for l m f
    using map_inv_inj [OF assms(2)] that unfolding sub by blast
  ultimately have m: "map_inv ?s" unfolding map_inv_def by blast
  have h: "heap_inv ?s" using assms(1) by (simp add: heap_inv_profiles)
  show ?thesis
  proof (cases "map_of (ms_profiles s) ?k")
    case None
    then show ?thesis using h m by (simp add: RemoveProfile_def kept_def prof_stable_def)
  next
    case (Some e)
    have "map_of (ms_profiles ?s) l \<noteq> Some e" for l using map_inv_inj [OF assms(2) Some, of l] unfolding sub by blast
    moreover have "e < length (ms_entries ?s)" using map_inv_entry [OF assms(2) Some] by (simp add: entry_ok_def)
    ultimately have "map_inv (retire e ?s)" by (intro retire_map [OF h m])
    moreover have "prof_stable s (retire e ?s)" using retire_stable [of ?s e] by (simp add: prof_stable_def)
    ultimately show ?thesis using Some retire_heap [OF h] by (simp add: RemoveProfile_def Let_def kept_def)
  qed
qed

definition profile_room :: "profileKey \<Rightarrow> MemoryStore \<Rightarrow> bool" where
  "profile_room k s \<longleftrightarrow> map_of (ms_profiles s) k \<noteq> None \<or>
     length (ms_profiles s) < maximumStoredProfiles \<and> ownerCount (fst k) s < maximumProfilesPerOwner"

lemma update_counts:
  assumes "map_inv s" "profile_room k s"
  shows "length (AList.update k v (ms_profiles s)) \<le> maximumStoredProfiles \<and>
    length (filter (\<lambda>ke. fst (fst ke) = owner) (AList.update k v (ms_profiles s))) \<le> maximumProfilesPerOwner"
proof -
  have old: "length (ms_profiles s) \<le> maximumStoredProfiles" "ownerCount owner s \<le> maximumProfilesPerOwner"
    "distinct (map fst (ms_profiles s))"
    using assms(1) by (simp_all add: map_inv_def)
  show ?thesis
  proof (cases "map_of (ms_profiles s) k")
    case None
    then show ?thesis
      using assms(2) old by (auto simp: filter_update_new profile_room_def ownerCount_def)
  next
    case (Some e)
    then show ?thesis
      using old filter_update_existing [OF Some old(3), of "\<lambda>_. True" v]
        filter_update_existing [OF Some old(3), of "\<lambda>ke. fst (fst ke) = owner" v] by (simp add: ownerCount_def)
  qed
qed

lemma append_entry_inv:
  fixes n :: "(u32 \<times> u64) list"
  assumes "heap_inv s" "map_inv s" "profile_ok (sp_profile x)" "sp_plan x = None" "profile_room k s"
  defines "s' \<equiv> s\<lparr>ms_nextByOwner := n, ms_entries := ms_entries s @ [x], ms_profiles := AList.update k (length (ms_entries s)) (ms_profiles s)\<rparr>"
  shows "heap_inv s'" "map_inv s'" "prof_stable s s'"
proof -
  have old: "sp_plan (ms_entries s' ! e) = Some i \<Longrightarrow> e < length (ms_entries s) \<and> sp_plan (ms_entries s ! e) = Some i"
    if "e < length (ms_entries s')" for e i
    using that assms(4) by (auto simp: s'_def nth_append split: if_splits)
  show st: "prof_stable s s'" by (simp add: s'_def prof_stable_def nth_append)
  show "heap_inv s'"
    unfolding heap_inv_def
  proof (intro conjI allI impI)
    fix e i
    assume "e < length (ms_entries s')" "sp_plan (ms_entries s' ! e) = Some i"
    then show "i < length (ms_plans s')" using old assms(1) unfolding heap_inv_def by (auto simp: s'_def)
  next
    fix e f i
    assume "e < length (ms_entries s')" "f < length (ms_entries s')" "sp_plan (ms_entries s' ! e) = Some i" "sp_plan (ms_entries s' ! f) = Some i"
    then show "e = f" using old assms(1) unfolding heap_inv_def by metis
  next
    fix e
    assume "e < length (ms_entries s')"
    then show "profile_ok (sp_profile (ms_entries s' ! e)) \<or> ps_destroyed (sp_profile (ms_entries s' ! e))"
      using assms(1,3) unfolding heap_inv_def by (auto simp: s'_def nth_append)
  qed
  have look: "map_of (ms_profiles s') l = Some f \<longleftrightarrow>
      (if l = k then f = length (ms_entries s) else map_of (ms_profiles s) l = Some f)" for l f
    by (auto simp: s'_def update_conv')
  have below: "f < length (ms_entries s)" if "map_of (ms_profiles s) l = Some f" for l f
    using map_inv_entry [OF assms(2) that] by (simp add: entry_ok_def)
  have "entry_ok s' l f" if "map_of (ms_profiles s') l = Some f" for l f
  proof (cases "l = k")
    case True
    with that show ?thesis unfolding look using assms(3,4) by (simp add: entry_ok_def s'_def nth_append)
  next
    case False
    with that have "entry_ok s l f" unfolding look using map_inv_entry [OF assms(2)] by simp
    then show ?thesis by (simp add: entry_ok_def s'_def nth_append)
  qed
  moreover have "l = m" if "map_of (ms_profiles s') l = Some f" "map_of (ms_profiles s') m = Some f" for l m f
    using that map_inv_inj [OF assms(2), of l f m] below [of l f] below [of m f] unfolding look by (auto split: if_splits)
  moreover have "distinct (map fst (ms_profiles s'))"
    using assms(2) by (simp add: s'_def map_inv_def distinct_update)
  ultimately show "map_inv s'"
    using update_counts [OF assms(2,5)] unfolding map_inv_def by (simp add: s'_def ownerCount_def)
qed

lemma Import_cases:
  obtains (same) "fst (Import sealed owner name source s) = s"
  | (closing) "fst (Import sealed owner name source s) = closeLocked s"
  | (stored) parsed where "ParseSecret sealed source = Inr parsed" "profile_room (owner, name) s"
      "fst (Import sealed owner name source s) = installProfile (owner, name) parsed s"
proof (cases "ParseSecret sealed source")
  case (Inl e)
  then have "fst (Import sealed owner name source s) = s" by (simp add: Import_def)
  then show ?thesis by (rule same)
next
  case (Inr parsed)
  show ?thesis
  proof (cases "profile_room (owner, name) s \<and> \<not> ms_closed s \<and> profileNamePattern name \<and> source \<noteq> None")
    case False
    then have "fst (Import sealed owner name source s) = s"
      using Inr by (auto simp: Import_def profile_room_def not_less)
    then show ?thesis by (rule same)
  next
    case True
    then have guard: "\<not> (map_of (ms_profiles s) (owner, name) = None \<and>
        (maximumStoredProfiles \<le> length (ms_profiles s) \<or> maximumProfilesPerOwner \<le> ownerCount owner s))"
      by (auto simp: profile_room_def)
    from True have "\<not> (\<not> profileNamePattern name \<or> source = None)" "\<not> ms_closed s" by auto
    then have "fst (Import sealed owner name source s) =
        (if nextGeneration owner s = 0 then closeLocked s else installProfile (owner, name) parsed s)"
      unfolding Import_def Let_def by (simp only: Inr sum.case guard if_False fst_conv split: if_split) simp
    then show ?thesis using closing stored [OF Inr] True by (cases "nextGeneration owner s = 0") simp_all
  qed
qed

lemma Import_kept:
  assumes "heap_inv s" "map_inv s"
  shows "kept s (fst (Import sealed owner name source s))"
proof (cases rule: Import_cases [of sealed owner name source s])
  case same
  then show ?thesis using assms by (simp add: kept_def prof_stable_refl)
next
  case closing
  then show ?thesis using closeLocked_inv [OF assms] by (simp add: kept_def)
next
  case (stored parsed)
  note p = stored(1) stored(3) stored(2)
  let ?x = "\<lparr>sp_profile = parsed, sp_generation = nextGeneration owner s, sp_epoch = 0,
      sp_rotation = RotationResolutionNeeded, sp_plan = None\<rparr>"
  have ok: "profile_ok (sp_profile ?x)" using ParseSecret_ok [OF p(1)] by simp
  note new = append_entry_inv [OF assms ok _ p(3), of "AList.update owner (nextGeneration owner s) (ms_nextByOwner s)"]
  show ?thesis
  proof (cases "map_of (ms_profiles s) (owner, name)")
    case None
    then show ?thesis using new p(2) by (simp add: installProfile_def kept_def)
  next
    case (Some old)
    let ?s = "s\<lparr>ms_nextByOwner := AList.update owner (nextGeneration owner s) (ms_nextByOwner s),
      ms_entries := ms_entries s @ [?x], ms_profiles := AList.update (owner, name) (length (ms_entries s)) (ms_profiles s)\<rparr>"
    have len: "old < length (ms_entries s)" using map_inv_entry [OF assms(2) Some] by (simp add: entry_ok_def)
    have "map_of (ms_profiles ?s) l \<noteq> Some old" for l
      using map_inv_inj [OF assms(2) Some, of l] len by (auto simp: update_conv')
    then have "map_inv (retire old ?s)" using new len by (intro retire_map) simp_all
    moreover have "prof_stable s (retire old ?s)"
      using new(3) retire_stable [of ?s old] by (auto intro: prof_stable_trans)
    ultimately show ?thesis using retire_heap [of ?s old] new(1) p(2) Some by (simp add: installProfile_def Let_def kept_def)
  qed
qed

section \<open>Reachable stores\<close>

lemma store_inv_kept:
  assumes "kept (vy_store y) s" "store_inv y" "\<And>tr. tr \<in> set ps \<Longrightarrow> tr \<in> set (vy_pending y) \<or> pending_ok s tr"
  shows "store_inv (y\<lparr>vy_store := s, vy_pending := ps\<rparr>)"
  using assms pending_stable unfolding store_inv_def kept_def by fastforce

lemma store_step_inv: "store_step y y' \<Longrightarrow> store_inv y \<Longrightarrow> store_inv y'"
proof (induction rule: store_step.induct)
  case (1 y sealed owner name source)
  then show ?case
    using store_inv_kept [OF Import_kept, of y "vy_pending y"] by (simp add: on_store_def store_inv_def)
next
  case (2 y owner name)
  then show ?case
    using store_inv_kept [OF RemoveProfile_kept, of y "vy_pending y"] by (simp add: on_store_def store_inv_def)
next
  case (3 y)
  then have "kept (vy_store y) (closeLocked (vy_store y))" using closeLocked_inv by (simp add: store_inv_def kept_def)
  from store_inv_kept [OF this 3, of "vy_pending y"] show ?case by (simp add: on_store_def)
next
  case (4 owner name y s e)
  then have "kept (vy_store y) s" using Resolve_begin_kept [OF _ _ 4(1)] by (simp add: store_inv_def)
  from store_inv_kept [OF this 4(2), of "vy_pending y"] show ?case by simp
next
  case (5 owner name y s t)
  then have k: "kept (vy_store y) s" "rt_entry t < length (ms_entries s)"
    using Resolve_begin_kept [OF _ _ 5(1)] by (simp_all add: store_inv_def)
  show ?case by (rule store_inv_kept [OF k(1) 5(2)]) (auto simp: pending_ok_def k(2))
next
  case (6 j y t result out)
  let ?s = "vy_store y" and ?p = "sp_profile (ms_entries (vy_store y) ! rt_entry t)"
  have old: "pending_ok ?s (t, None)" using 6 unfolding store_inv_def by (metis nth_mem)
  have "endpoints_for ?p es" if "result = Inr es" "profile_ok ?p" for es
    using 6(3) that resolve_Inr [of out ?p es] by (auto simp: endpoints_for_def)
  with old have "pending_ok ?s (t, Some result)" by (auto simp: pending_ok_def)
  moreover have "kept ?s ?s" using 6(4) by (simp add: kept_def store_inv_def prof_stable_refl)
  ultimately have "store_inv (y\<lparr>vy_store := ?s, vy_pending := (vy_pending y)[j := (t, Some result)]\<rparr>)"
    using 6(4) set_update_subset_insert [of "vy_pending y" j "(t, Some result)"] by (intro store_inv_kept) auto
  then show ?case by simp
next
  case (7 j y t result cancelled)
  have "pending_ok (vy_store y) (t, Some result)" using 7 unfolding store_inv_def by (metis nth_mem)
  then have "kept (vy_store y) (fst (Resolve_end cancelled t result (vy_store y)))"
    using 7(3) by (intro Resolve_end_kept) (simp_all add: store_inv_def)
  then show ?case using 7(3) by (rule store_inv_kept) (auto dest: in_set_takeD in_set_dropD)
qed

lemma vpn_reachable_inv: "store_step\<^sup>*\<^sup>* vpn_start y \<Longrightarrow> store_inv y"
proof (induction rule: rtranclp_induct)
  case base
  show ?case by (simp add: store_inv_def vpn_start_def NewMemoryStore_def heap_inv_def map_inv_def ownerCount_def)
qed (rule store_step_inv)

lemma UsePlan_Inr:
  "UsePlan cancelled owner name plan s = Inr view \<Longrightarrow>
   \<exists>e. map_of (ms_profiles s) (owner, name) = Some e \<and> view = (plan, e) \<and> sp_plan (ms_entries s ! e) = Some plan"
  by (auto simp: UsePlan_def Let_def split: if_splits option.splits)


definition example_stored :: "storedProfile list" where
  "example_stored = [\<lparr>sp_profile = example_profile, sp_generation = 1, sp_epoch = 1, sp_rotation = RotationCurrent, sp_plan = Some 0\<rparr>]"

definition example_store :: MemoryStore where
  "example_store = \<lparr>ms_profiles = [((1000, ''home''), 0)], ms_entries = example_stored,
     ms_plans = [\<lparr>rp_owner = 1000, rp_name = ''home'', rp_generation = 1, rp_epoch = 1, rp_endpoints = [example_endpoint]\<rparr>],
     ms_nextByOwner = [(1000, 1)], ms_closed = False\<rparr>"

lemma example_name: "profileNamePattern ''home''"
  by (simp add: profileNamePattern_def is_lower_def char_between_def)

definition example_imported_store :: "u64 \<Rightarrow> MemoryStore" where
  "example_imported_store epoch = \<lparr>ms_profiles = [((1000, ''home''), 0)],
     ms_entries = [\<lparr>sp_profile = example_profile, sp_generation = 1, sp_epoch = epoch, sp_rotation = RotationResolutionNeeded, sp_plan = None\<rparr>],
     ms_plans = [], ms_nextByOwner = [(1000, 1)], ms_closed = False\<rparr>"

definition example_ticket :: resolve_ticket where
  "example_ticket = \<lparr>rt_key = (1000, ''home''), rt_entry = 0, rt_generation = 1, rt_epoch = 1\<rparr>"

lemma example_resolved: "resolve example_lookup example_profile = Inr [example_endpoint]"
  by (simp add: resolve_def example_lookup_def endpointSnapshot_def example_profile_def example_endpoint_def)

lemma example_store_reachable: "store_step\<^sup>*\<^sup>* vpn_start \<lparr>vy_store = example_store, vy_pending = []\<rparr>"
proof -
  obtain raw where raw: "ParseSecret True (Some raw) = Inr example_profile" using example_imported by blast
  let ?y = "\<lambda>s ps. \<lparr>vy_store = s, vy_pending = ps\<rparr>"
  have "on_store (\<lambda>s. fst (Import True 1000 ''home'' (Some raw) s)) vpn_start = ?y (example_imported_store 0) []"
    by (simp add: on_store_def vpn_start_def NewMemoryStore_def Import_def raw example_name installProfile_def nextGeneration_def
        ownerCount_def maximumStoredProfiles_def maximumProfilesPerOwner_def Let_def example_imported_store_def)
  then have s1: "store_step vpn_start (?y (example_imported_store 0) [])" by (metis store_step.intros(1))
  have b: "Resolve_begin 1000 ''home'' (example_imported_store 0) = (example_imported_store 1, Inr example_ticket)"
    by (simp add: Resolve_begin_def example_name example_imported_store_def Let_def change_entry_def invalidatePlan_def example_ticket_def)
  have s2: "store_step (?y (example_imported_store 0) []) (?y (example_imported_store 1) [(example_ticket, None)])"
    using store_step.intros(5) [of 1000 "''home''" "?y (example_imported_store 0) []"] b by simp
  have s3: "store_step (?y (example_imported_store 1) [(example_ticket, None)])
      (?y (example_imported_store 1) [(example_ticket, Some (Inr [example_endpoint]))])"
    using store_step.intros(6) [of 0 "?y (example_imported_store 1) [(example_ticket, None)]" example_ticket
        "Inr [example_endpoint]" example_lookup] example_resolved
    by (simp add: example_imported_store_def example_ticket_def)
  have e: "fst (Resolve_end False example_ticket (Inr [example_endpoint]) (example_imported_store 1)) = example_store"
    by (simp add: Resolve_end_def example_ticket_def example_imported_store_def change_entry_def example_store_def example_stored_def)
  have s4: "store_step (?y (example_imported_store 1) [(example_ticket, Some (Inr [example_endpoint]))]) (?y example_store [])"
    using store_step.intros(7) [of 0 "?y (example_imported_store 1) [(example_ticket, Some (Inr [example_endpoint]))]"
        example_ticket "Inr [example_endpoint]" False] e by simp
  show ?thesis
    by (rule rtranclp.rtrancl_into_rtrancl [OF rtranclp.rtrancl_into_rtrancl
          [OF rtranclp.rtrancl_into_rtrancl [OF r_into_rtranclp [of store_step, OF s1] s2] s3] s4])
qed


end
