(* ===== verification/Host_Policy.thy ===== *)
theory Host_Policy
  imports VPN_Profile "HOL-Library.Multiset"
begin

text \<open>
  The host's side of a session network, \<^verbatim>\<open>internal/network/model.go\<close> and \<^verbatim>\<open>policy.go\<close>: the names and addresses of a
  topology, the endpoint policy, and the two nftables programs as data with the text that is loaded.  A forwarded
  packet passes a hook when every base chain on it lets it pass: a drop is final, an accept hands the packet to the
  chain of the next priority, and returning from a base chain applies its policy.  SHA-256 is a parameter.
\<close>

section \<open>Topology\<close>

record topologySpec =
  tsp_namespace :: string
  tsp_hostVeth :: string
  tsp_namespaceVeth :: string
  tsp_tap :: string
  tsp_namespaceTable :: string
  tsp_hostTable :: string
  tsp_guestNetwork4 :: Prefix
  tsp_guestGateway4 :: Prefix
  tsp_guestAddress4 :: Prefix
  tsp_uplinkNetwork4 :: Prefix
  tsp_hostUplink4 :: Prefix
  tsp_namespaceUplink4 :: Prefix
  tsp_guestNetwork6 :: Prefix
  tsp_guestGateway6 :: Prefix
  tsp_guestAddress6 :: Prefix
  tsp_uplinkNetwork6 :: Prefix
  tsp_hostUplink6 :: Prefix
  tsp_namespaceUplink6 :: Prefix
  tsp_slot :: u16

definition maximumAllocationAttempts :: nat where "maximumAllocationAttempts = 64"
definition maximumEndpointTuples :: nat where "maximumEndpointTuples = 16"
definition interfaceNameLimit :: nat where "interfaceNameLimit = 15"

text \<open>\<^verbatim>\<open>Addr.Next\<close>: the address after the last one of a family is the invalid one.\<close>

definition addr_next :: "Addr \<Rightarrow> Addr" where
  "addr_next a = (case a of AddrNone \<Rightarrow> AddrNone | Addr4 w \<Rightarrow> if w = - 1 then AddrNone else Addr4 (w + 1)
     | Addr6 w zone \<Rightarrow> if w = - 1 then AddrNone else Addr6 (w + 1) zone)"

definition hex_text :: "u8 list \<Rightarrow> string" where
  "hex_text bytes = concat (map (\<lambda>b. [digit_char (unat b div 16), digit_char (unat b mod 16)]) bytes)"

definition slot_of :: "u8 list \<Rightarrow> u16" where
  "slot_of digest = push_bit 8 (ucast (digest ! 5)) OR ucast (digest ! 6)"

definition base4 :: "u16 \<Rightarrow> u32" where
  "base4 slot = 0x0af00000 + ucast slot * 8"

definition base6 :: "u16 \<Rightarrow> u128" where
  "base6 slot = push_bit 96 0xfd70766d OR push_bit 80 (ucast slot)"

definition candidateFor :: "(string \<Rightarrow> u8 list) \<Rightarrow> string \<Rightarrow> nat \<Rightarrow> topologySpec" where
  "candidateFor sha256 sessionID attempt =
     (let digest = sha256 (sessionID @ '':'' @ show_base 10 attempt); suffix = hex_text (take 5 digest); slot = slot_of digest;
          guest4 = Addr4 (base4 slot); uplink4 = Addr4 (base4 slot + 4); guest6 = Addr6 (base6 slot) []; uplink6 = Addr6 (base6 slot OR 4) [];
          net = (\<lambda>bits address. \<lparr>pf_Addr = address, pf_Bits = bits\<rparr>) in
      \<lparr>tsp_namespace = ''pvmn-'' @ suffix, tsp_hostVeth = ''pvh'' @ suffix, tsp_namespaceVeth = ''pvn'' @ suffix, tsp_tap = ''pvt'' @ suffix,
       tsp_namespaceTable = ''pvm_'' @ suffix, tsp_hostTable = ''pvmh_'' @ suffix,
       tsp_guestNetwork4 = net 30 guest4, tsp_guestGateway4 = net 30 (addr_next guest4), tsp_guestAddress4 = net 30 (addr_next (addr_next guest4)),
       tsp_uplinkNetwork4 = net 30 uplink4, tsp_hostUplink4 = net 30 (addr_next uplink4), tsp_namespaceUplink4 = net 30 (addr_next (addr_next uplink4)),
       tsp_guestNetwork6 = net 126 guest6, tsp_guestGateway6 = net 126 (addr_next guest6), tsp_guestAddress6 = net 126 (addr_next (addr_next guest6)),
       tsp_uplinkNetwork6 = net 126 uplink6, tsp_hostUplink6 = net 126 (addr_next uplink6), tsp_namespaceUplink6 = net 126 (addr_next (addr_next uplink6)),
       tsp_slot = slot\<rparr>)"

section \<open>Endpoints\<close>

datatype network_error = NetInvalidRequest | NetTopologyExists | NetCollisionExhausted | NetTopologyFailed | NetPolicyFailed | NetPolicyAuditFailed
  | NetTopologyNotReady | NetCleanupIncomplete | NetBackendUnavailable | NetCommandFailed | NetOutputBound | NetContext | NetProfile vpn_error

record endpointTuple =
  et_address :: Addr
  et_port :: u16

record endpointPolicy =
  np_v4 :: "endpointTuple list"
  np_v6 :: "endpointTuple list"

definition tupleLess :: "endpointTuple \<Rightarrow> endpointTuple \<Rightarrow> bool" where
  "tupleLess left right \<longleftrightarrow>
     (if addr_rank (et_address left) \<noteq> addr_rank (et_address right)
      then addr_le (et_address left) (et_address right) else et_port left < et_port right)"

fun insert_tuple :: "endpointTuple \<Rightarrow> endpointTuple list \<Rightarrow> endpointTuple list" where
  "insert_tuple x [] = [x]"
| "insert_tuple x (y # ys) = (if tupleLess y x then y # insert_tuple x ys else x # y # ys)"

definition sort_tuples :: "endpointTuple list \<Rightarrow> endpointTuple list" where
  "sort_tuples xs = foldr insert_tuple xs []"

definition endpoint_usable :: "endpointTuple \<Rightarrow> bool" where
  "endpoint_usable e \<longleftrightarrow> et_address e \<noteq> AddrNone \<and> Zone (et_address e) = [] \<and> \<not> Is4In6 (et_address e) \<and> IsGlobalUnicast (et_address e) \<and> et_port e \<noteq> 0"

text \<open>The loop: the first endpoint that is not usable ends it, a repeated one is skipped.\<close>

fun collect_tuples :: "endpointTuple list \<Rightarrow> endpointTuple list \<Rightarrow> endpointTuple list option" where
  "collect_tuples [] seen = Some (rev seen)"
| "collect_tuples (e # es) seen =
     (if \<not> endpoint_usable e then None else collect_tuples es (if e \<in> set seen then seen else e # seen))"

definition collectPolicy :: "endpointTuple list \<Rightarrow> network_error + endpointPolicy" where
  "collectPolicy endpoints =
     (if endpoints = [] \<or> maximumEndpointTuples < length endpoints then Inl NetInvalidRequest
      else case collect_tuples endpoints [] of None \<Rightarrow> Inl NetInvalidRequest
       | Some es \<Rightarrow> Inr \<lparr>np_v4 = sort_tuples (filter (\<lambda>e. Is4 (et_address e)) es), np_v6 = sort_tuples (filter (\<lambda>e. \<not> Is4 (et_address e)) es)\<rparr>)"

section \<open>Programs\<close>

datatype nft_match = Iif "string list" | Oif "string list" | Saddr Addr | Daddr Addr | EndpointIn bool | Established | Neighbour
  | Family bool | DnsPort | DaddrIn bool "Prefix list"

datatype nft_action = Accept | Drop | Masquerade | Count string | CountReturn string

type_synonym nft_rule = "nft_match list \<times> nft_action"

record nft_chain =
  nc_name :: string
  nc_type :: string
  nc_hook :: string
  nc_priority :: string
  nc_drops :: bool
  nc_rules :: "nft_rule list"

definition policyOwnerComment :: string where "policyOwnerComment = ''private-vm:session-network-policy:v1''"
definition policyAuditChain :: string where "policyAuditChain = ''egress_audit''"
definition auditForbiddenIPv4 :: string where "auditForbiddenIPv4 = ''private-vm:audit:forbidden-ipv4''"
definition auditForbiddenIPv6 :: string where "auditForbiddenIPv6 = ''private-vm:audit:forbidden-ipv6''"
definition auditForbiddenDNS :: string where "auditForbiddenDNS = ''private-vm:audit:forbidden-dns''"
definition auditForbiddenLANIPv4 :: string where "auditForbiddenLANIPv4 = ''private-vm:audit:forbidden-lan-ipv4''"
definition auditForbiddenLANIPv6 :: string where "auditForbiddenLANIPv6 = ''private-vm:audit:forbidden-lan-ipv6''"
definition auditUnrelatedPublic :: string where "auditUnrelatedPublic = ''private-vm:audit:unrelated-public''"

definition lan4 :: "Prefix list" where
  "lan4 = [prefix4 0 0 0 0 8, prefix4 10 0 0 0 8, prefix4 100 64 0 0 10, prefix4 127 0 0 0 8, prefix4 169 254 0 0 16, prefix4 172 16 0 0 12,
     prefix4 192 0 0 0 24, prefix4 192 0 2 0 24, prefix4 192 168 0 0 16, prefix4 198 18 0 0 15, prefix4 198 51 100 0 24, prefix4 203 0 113 0 24,
     prefix4 224 0 0 0 4, prefix4 240 0 0 0 4]"

definition lan6 :: "Prefix list" where
  "lan6 = [prefix6 [] 128, prefix6 [0, 0, 0, 0, 0, 0, 0, 1] 128, prefix6 [0x100] 64, prefix6 [0x2001, 0xdb8] 32, prefix6 [0xfc00] 7, prefix6 [0xfe80] 10,
     prefix6 [0xff00] 8]"

definition guest_of :: "topologySpec \<Rightarrow> bool \<Rightarrow> Addr" where
  "guest_of spec v6 = pf_Addr (if v6 then tsp_guestAddress6 spec else tsp_guestAddress4 spec)"

text \<open>The families with endpoints, and one rule for each of them.\<close>

definition families :: "endpointPolicy \<Rightarrow> bool list" where
  "families policy = (if np_v4 policy \<noteq> [] then [False] else []) @ (if np_v6 policy \<noteq> [] then [True] else [])"

definition endpoint_rules :: "nft_match list \<Rightarrow> nft_action \<Rightarrow> topologySpec \<Rightarrow> endpointPolicy \<Rightarrow> nft_rule list" where
  "endpoint_rules place action spec policy = map (\<lambda>v6. (place @ [Saddr (guest_of spec v6), EndpointIn v6], action)) (families policy)"

definition audit_chain :: "string \<Rightarrow> topologySpec \<Rightarrow> endpointPolicy \<Rightarrow> nft_chain" where
  "audit_chain inputInterface spec policy =
     \<lparr>nc_name = policyAuditChain, nc_type = ''filter'', nc_hook = ''forward'', nc_priority = ''filter + 1'', nc_drops = True,
      nc_rules = endpoint_rules [Iif [inputInterface]] Accept spec policy @
        [([Iif [inputInterface], Family False], Count auditForbiddenIPv4), ([Iif [inputInterface], Family True], Count auditForbiddenIPv6),
         ([Iif [inputInterface], DnsPort], CountReturn auditForbiddenDNS), ([Iif [inputInterface], DaddrIn False lan4], CountReturn auditForbiddenLANIPv4),
         ([Iif [inputInterface], DaddrIn True lan6], CountReturn auditForbiddenLANIPv6), ([Iif [inputInterface]], Count auditUnrelatedPublic)]\<rparr>"

definition namespace_chains :: "topologySpec \<Rightarrow> endpointPolicy \<Rightarrow> nft_chain list" where
  "namespace_chains spec policy =
     [\<lparr>nc_name = ''input'', nc_type = ''filter'', nc_hook = ''input'', nc_priority = ''filter'', nc_drops = True,
       nc_rules = [([Iif [tsp_tap spec, tsp_namespaceVeth spec], Neighbour], Accept)]\<rparr>,
      \<lparr>nc_name = ''output'', nc_type = ''filter'', nc_hook = ''output'', nc_priority = ''filter'', nc_drops = True,
       nc_rules = [([Oif [tsp_tap spec, tsp_namespaceVeth spec], Neighbour], Accept)]\<rparr>,
      \<lparr>nc_name = ''forward'', nc_type = ''filter'', nc_hook = ''forward'', nc_priority = ''filter'', nc_drops = True,
       nc_rules = map (\<lambda>v6. ([Iif [tsp_namespaceVeth spec], Oif [tsp_tap spec], Daddr (guest_of spec v6), Established], Accept)) [False, True] @
         endpoint_rules [Iif [tsp_tap spec], Oif [tsp_namespaceVeth spec]] Accept spec policy\<rparr>,
      audit_chain (tsp_tap spec) spec policy]"

definition host_chains :: "topologySpec \<Rightarrow> endpointPolicy \<Rightarrow> nft_chain list" where
  "host_chains spec policy =
     [\<lparr>nc_name = ''forward'', nc_type = ''filter'', nc_hook = ''forward'', nc_priority = ''filter'', nc_drops = False,
       nc_rules = map (\<lambda>v6. ([Oif [tsp_hostVeth spec], Daddr (guest_of spec v6), Established], Accept)) [False, True] @
         endpoint_rules [Iif [tsp_hostVeth spec]] Accept spec policy @
         [([Iif [tsp_hostVeth spec]], Drop), ([Oif [tsp_hostVeth spec]], Drop)]\<rparr>,
      \<lparr>nc_name = ''postrouting'', nc_type = ''nat'', nc_hook = ''postrouting'', nc_priority = ''srcnat'', nc_drops = False,
       nc_rules = endpoint_rules [Iif [tsp_hostVeth spec]] Masquerade spec policy\<rparr>,
      audit_chain (tsp_hostVeth spec) spec policy]"

subsection \<open>Text\<close>

definition quoted_text :: "string \<Rightarrow> string" where
  "quoted_text s = [CHR 0x22] @ s @ [CHR 0x22]"

definition name_set :: "string list \<Rightarrow> string" where
  "name_set names = (case names of [name] \<Rightarrow> quoted_text name | _ \<Rightarrow> ''{ '' @ join_with '', '' (map quoted_text names) @ '' }'')"

definition ip_word :: "bool \<Rightarrow> string" where
  "ip_word v6 = (if v6 then ''ip6'' else ''ip'')"

definition match_text :: "nft_match \<Rightarrow> string" where
  "match_text m =
     (case m of Iif names \<Rightarrow> ''iifname '' @ name_set names
      | Oif names \<Rightarrow> ''oifname '' @ name_set names
      | Saddr a \<Rightarrow> ip_word (Is6 a) @ '' saddr '' @ AppendTo a
      | Daddr a \<Rightarrow> ip_word (Is6 a) @ '' daddr '' @ AppendTo a
      | EndpointIn v6 \<Rightarrow> ip_word v6 @ '' daddr . udp dport @proton'' @ (if v6 then ''6'' else ''4'')
      | Established \<Rightarrow> ''ct state { established, related }''
      | Neighbour \<Rightarrow> ''ip6 nexthdr icmpv6 icmpv6 type { nd-neighbor-solicit, nd-neighbor-advert }''
      | Family v6 \<Rightarrow> ''meta nfproto ipv'' @ (if v6 then ''6'' else ''4'')
      | DnsPort \<Rightarrow> ''meta l4proto { tcp, udp } th dport 53''
      | DaddrIn v6 prefixes \<Rightarrow> ip_word v6 @ '' daddr { '' @ join_with '', '' (map prefix_text prefixes) @ '' }'')"

definition action_text :: "nft_action \<Rightarrow> string" where
  "action_text a =
     (case a of Accept \<Rightarrow> ''accept'' | Drop \<Rightarrow> ''drop'' | Masquerade \<Rightarrow> ''masquerade''
      | Count comment \<Rightarrow> ''counter comment '' @ quoted_text comment
      | CountReturn comment \<Rightarrow> ''counter return comment '' @ quoted_text comment)"

definition rule_text :: "nft_rule \<Rightarrow> string" where
  "rule_text r = ''  '' @ join_with '' '' (map match_text (fst r) @ [action_text (snd r)])"

definition chain_lines :: "nft_chain \<Rightarrow> string list" where
  "chain_lines c =
     ['' chain '' @ nc_name c @ '' {'',
      ''  type '' @ nc_type c @ '' hook '' @ nc_hook c @ '' priority '' @ nc_priority c @ ''; policy '' @ (if nc_drops c then ''drop'' else ''accept'') @ '';''] @
     map rule_text (nc_rules c) @ ['' }'']"

definition set_line :: "string \<Rightarrow> string \<Rightarrow> endpointTuple list \<Rightarrow> string" where
  "set_line name addressType values =
     '' set '' @ name @ '' { type '' @ addressType @ '' . inet_service; elements = { '' @
     join_with '', '' (map (\<lambda>e. AppendTo (et_address e) @ '' . '' @ show_base 10 (unat (et_port e))) values) @ '' } }''"

definition set_lines :: "endpointPolicy \<Rightarrow> string list" where
  "set_lines policy =
     (if np_v4 policy \<noteq> [] then [set_line ''proton4'' ''ipv4_addr'' (np_v4 policy)] else []) @
     (if np_v6 policy \<noteq> [] then [set_line ''proton6'' ''ipv6_addr'' (np_v6 policy)] else [])"

definition table_text :: "string \<Rightarrow> endpointPolicy \<Rightarrow> nft_chain list \<Rightarrow> string" where
  "table_text name policy programs =
     concat (map (\<lambda>l. l @ [line_break])
       ([''table inet '' @ name @ '' {'', '' comment '' @ quoted_text policyOwnerComment] @ set_lines policy @ concat (map chain_lines programs) @ [''}'']))"

definition namespaceRules :: "topologySpec \<Rightarrow> endpointPolicy \<Rightarrow> string" where
  "namespaceRules spec policy = table_text (tsp_namespaceTable spec) policy (namespace_chains spec policy)"

definition hostRules :: "topologySpec \<Rightarrow> endpointPolicy \<Rightarrow> string" where
  "hostRules spec policy = table_text (tsp_hostTable spec) policy (host_chains spec policy)"

definition deleteTableRules :: "string \<Rightarrow> string" where
  "deleteTableRules table = ''delete table inet '' @ table @ [line_break]"

section \<open>What the kernel does with them\<close>

datatype transport = OverUDP u16 | OverTCP u16 | NeighbourMessage | OtherTransport

record forwarded =
  fw_iif :: string
  fw_oif :: string
  fw_src :: Addr
  fw_dst :: Addr
  fw_l4 :: transport
  fw_established :: bool

definition in_policy :: "endpointPolicy \<Rightarrow> bool \<Rightarrow> forwarded \<Rightarrow> bool" where
  "in_policy policy v6 p \<longleftrightarrow>
     (\<exists>e \<in> set (if v6 then np_v6 policy else np_v4 policy). fw_dst p = et_address e \<and> fw_l4 p = OverUDP (et_port e))"

definition matches :: "endpointPolicy \<Rightarrow> forwarded \<Rightarrow> nft_match \<Rightarrow> bool" where
  "matches policy p m =
     (case m of Iif names \<Rightarrow> fw_iif p \<in> set names
      | Oif names \<Rightarrow> fw_oif p \<in> set names
      | Saddr a \<Rightarrow> fw_src p = a
      | Daddr a \<Rightarrow> fw_dst p = a
      | EndpointIn v6 \<Rightarrow> in_policy policy v6 p
      | Established \<Rightarrow> fw_established p
      | Neighbour \<Rightarrow> fw_l4 p = NeighbourMessage
      | Family v6 \<Rightarrow> Is6 (fw_dst p) = v6
      | DnsPort \<Rightarrow> fw_l4 p = OverUDP 53 \<or> fw_l4 p = OverTCP 53
      | DaddrIn v6 prefixes \<Rightarrow> list_ex (\<lambda>prefix. Contains prefix (fw_dst p)) prefixes)"

fun rules_pass :: "endpointPolicy \<Rightarrow> forwarded \<Rightarrow> bool \<Rightarrow> nft_rule list \<Rightarrow> bool" where
  "rules_pass policy p drops [] = (\<not> drops)"
| "rules_pass policy p drops ((ms, action) # rules) =
     (if list_all (matches policy p) ms
      then (case action of Accept \<Rightarrow> True | Drop \<Rightarrow> False | CountReturn _ \<Rightarrow> \<not> drops | _ \<Rightarrow> rules_pass policy p drops rules)
      else rules_pass policy p drops rules)"

definition hook_passes :: "string \<Rightarrow> nft_chain list \<Rightarrow> endpointPolicy \<Rightarrow> forwarded \<Rightarrow> bool" where
  "hook_passes hook programs policy p \<longleftrightarrow> list_all (\<lambda>c. nc_hook c = hook \<longrightarrow> rules_pass policy p (nc_drops c) (nc_rules c)) programs"

section \<open>The endpoint policy\<close>

lemma collect_tuples_Some:
  "collect_tuples es seen = Some ts \<Longrightarrow> distinct seen \<Longrightarrow>
     set ts = set seen \<union> set es \<and> distinct ts \<and> list_all endpoint_usable es"
proof (induction es arbitrary: seen)
  case (Cons e es)
  then show ?case by (cases "e \<in> set seen") (auto split: if_splits)
qed auto

lemma insert_tuple_mset: "mset (insert_tuple x ys) = add_mset x (mset ys)"
  by (induction ys) auto

lemma sort_tuples_mset: "mset (sort_tuples xs) = mset xs"
  by (induction xs) (simp_all add: sort_tuples_def insert_tuple_mset)

lemma sort_tuples_set [simp]: "set (sort_tuples xs) = set xs"
  using sort_tuples_mset [of xs] mset_eq_setD by blast

lemma sort_tuples_distinct [simp]: "distinct (sort_tuples xs) = distinct xs"
  using sort_tuples_mset [of xs] mset_eq_imp_distinct_iff by blast

definition tuple_le :: "endpointTuple \<Rightarrow> endpointTuple \<Rightarrow> bool" where
  "tuple_le x y \<longleftrightarrow> \<not> tupleLess y x"

lemma tuple_le_trans: "tuple_le x y \<Longrightarrow> tuple_le y z \<Longrightarrow> tuple_le x z"
  by (auto simp: tuple_le_def tupleLess_def addr_le_def prod_eq_iff split: if_splits)

lemma tupleLess_le: "tupleLess x y \<Longrightarrow> tuple_le x y"
  by (auto simp: tuple_le_def tupleLess_def addr_le_def prod_eq_iff split: if_splits)

lemma insert_tuple_set: "set (insert_tuple x ys) = insert x (set ys)"
  by (induction ys) auto

lemma insert_tuple_sorted: "sorted_wrt tuple_le ys \<Longrightarrow> sorted_wrt tuple_le (insert_tuple x ys)"
proof (induction ys)
  case (Cons y ys)
  then show ?case by (cases "tupleLess y x") (auto simp: insert_tuple_set tupleLess_le tuple_le_def [symmetric] intro: tuple_le_trans)
qed auto

lemma sort_tuples_sorted: "sorted_wrt tuple_le (sort_tuples xs)"
  by (induction xs) (simp_all add: sort_tuples_def insert_tuple_sorted)

text \<open>What a policy holds: exactly the endpoints of the plan, each once, in the order of their addresses and ports, by family.\<close>

definition policy_of :: "endpointTuple list \<Rightarrow> endpointPolicy \<Rightarrow> bool" where
  "policy_of endpoints policy \<longleftrightarrow>
     set (np_v4 policy) = {e \<in> set endpoints. Is4 (et_address e)} \<and> set (np_v6 policy) = {e \<in> set endpoints. \<not> Is4 (et_address e)} \<and>
     distinct (np_v4 policy @ np_v6 policy) \<and> sorted_wrt tuple_le (np_v4 policy) \<and> sorted_wrt tuple_le (np_v6 policy)"

lemma collectPolicy_Inr:
  assumes "collectPolicy endpoints = Inr policy"
  shows "policy_of endpoints policy" "list_all endpoint_usable endpoints" "endpoints \<noteq> []" "length endpoints \<le> maximumEndpointTuples"
proof -
  obtain ts where ts: "collect_tuples endpoints [] = Some ts" "endpoints \<noteq> []" "length endpoints \<le> maximumEndpointTuples"
    and p: "np_v4 policy = sort_tuples (filter (\<lambda>e. Is4 (et_address e)) ts)" "np_v6 policy = sort_tuples (filter (\<lambda>e. \<not> Is4 (et_address e)) ts)"
    using assms by (auto simp: collectPolicy_def split: if_splits option.splits)
  note c = collect_tuples_Some [OF ts(1)]
  show "policy_of endpoints policy" using c unfolding policy_of_def p by (auto simp: sort_tuples_sorted)
  show "list_all endpoint_usable endpoints" "endpoints \<noteq> []" "length endpoints \<le> maximumEndpointTuples" using c ts by auto
qed

lemma collect_tuples_usable: "list_all endpoint_usable es \<Longrightarrow> \<exists>ts. collect_tuples es seen = Some ts"
  by (induction es arbitrary: seen) auto

lemma collectPolicy_total:
  "(\<exists>policy. collectPolicy endpoints = Inr policy) \<longleftrightarrow>
     endpoints \<noteq> [] \<and> length endpoints \<le> maximumEndpointTuples \<and> list_all endpoint_usable endpoints"
proof
  assume "\<exists>policy. collectPolicy endpoints = Inr policy"
  then show "endpoints \<noteq> [] \<and> length endpoints \<le> maximumEndpointTuples \<and> list_all endpoint_usable endpoints"
    using collectPolicy_Inr by blast
next
  assume "endpoints \<noteq> [] \<and> length endpoints \<le> maximumEndpointTuples \<and> list_all endpoint_usable endpoints"
  then show "\<exists>policy. collectPolicy endpoints = Inr policy"
    using collect_tuples_usable [of endpoints "[]"] by (auto simp: collectPolicy_def)
qed

section \<open>Confinement\<close>

lemma rules_pass_append_drop:
  "rules_pass policy p True (xs @ ys) \<Longrightarrow> (\<forall>r \<in> set ys. snd r \<noteq> Accept \<or> \<not> list_all (matches policy p) (fst r)) \<Longrightarrow> rules_pass policy p True xs"
proof (induction xs)
  case Nil
  then have "rules_pass policy p True ys" by simp
  then show ?case using Nil(2)
  proof (induction ys)
    case (Cons y ys)
    then show ?case by (cases y; cases "snd y") (auto split: if_splits)
  qed simp
next
  case (Cons x xs)
  then show ?case by (cases x; cases "snd x") (auto split: if_splits)
qed

text \<open>A rule program that lets a packet pass under a drop policy has an accepting rule that matches it.\<close>

lemma rules_pass_accepted:
  "rules_pass policy p True rules \<Longrightarrow> \<exists>r \<in> set rules. snd r = Accept \<and> list_all (matches policy p) (fst r)"
  using rules_pass_append_drop [of policy p "[]" rules] by auto

lemma endpoint_rules_accept:
  "r \<in> set (endpoint_rules place Accept spec policy) \<Longrightarrow> list_all (matches policy p) (fst r) \<Longrightarrow>
     list_all (matches policy p) place \<and> (\<exists>v6. fw_src p = guest_of spec v6 \<and> in_policy policy v6 p)"
  by (auto simp: endpoint_rules_def matches_def)

lemma audit_chain_passes:
  "rules_pass policy p (nc_drops (audit_chain i spec policy)) (nc_rules (audit_chain i spec policy)) \<Longrightarrow>
     fw_iif p = i \<and> (\<exists>v6. fw_src p = guest_of spec v6 \<and> in_policy policy v6 p)"
  using rules_pass_accepted [of policy p "nc_rules (audit_chain i spec policy)"]
    endpoint_rules_accept [of _ "[Iif [i]]" spec policy p]
  by (fastforce simp: audit_chain_def matches_def [of policy p "Iif [i]"])

lemma namespace_forward:
  assumes "hook_passes ''forward'' (namespace_chains spec policy) policy p"
  shows "fw_iif p = tsp_tap spec" "\<exists>v6. fw_src p = guest_of spec v6 \<and> in_policy policy v6 p"
  using assms audit_chain_passes [of policy p "tsp_tap spec" spec]
  by (simp_all add: hook_passes_def namespace_chains_def audit_chain_def)

lemma host_forward:
  assumes "hook_passes ''forward'' (host_chains spec policy) policy p"
  shows "fw_iif p = tsp_hostVeth spec" "\<exists>v6. fw_src p = guest_of spec v6 \<and> in_policy policy v6 p"
  using assms audit_chain_passes [of policy p "tsp_hostVeth spec" spec]
  by (simp_all add: hook_passes_def host_chains_def audit_chain_def)

text \<open>A guest packet on its way out: from the tap to the namespace's uplink, then from the host's end of the pair to any interface.\<close>

definition guest_packet :: "topologySpec \<Rightarrow> Addr \<Rightarrow> Addr \<Rightarrow> transport \<Rightarrow> bool \<Rightarrow> forwarded" where
  "guest_packet spec src dst l4 tracked =
     \<lparr>fw_iif = tsp_tap spec, fw_oif = tsp_namespaceVeth spec, fw_src = src, fw_dst = dst, fw_l4 = l4, fw_established = tracked\<rparr>"

definition leaves_host :: "topologySpec \<Rightarrow> endpointPolicy \<Rightarrow> string \<Rightarrow> forwarded \<Rightarrow> bool" where
  "leaves_host spec policy out p \<longleftrightarrow>
     hook_passes ''forward'' (namespace_chains spec policy) policy p \<and>
     hook_passes ''forward'' (host_chains spec policy) policy (p\<lparr>fw_iif := tsp_hostVeth spec, fw_oif := out\<rparr>)"

definition names_apart :: "topologySpec \<Rightarrow> bool" where
  "names_apart spec \<longleftrightarrow> distinct [tsp_tap spec, tsp_namespaceVeth spec, tsp_hostVeth spec]"

lemma rules_pass_first:
  "r \<in> set rules \<Longrightarrow> snd r = Accept \<Longrightarrow> list_all (matches policy p) (fst r) \<Longrightarrow>
     rules_pass policy p drops (rules @ rest) \<or> (\<exists>q \<in> set rules. snd q \<noteq> Accept)"
proof (induction rules)
  case (Cons q rules)
  then show ?case by (cases q; cases "snd q") auto
qed simp

lemma in_policy_family: "in_policy policy v6 p \<Longrightarrow> v6 \<in> set (families policy)"
  by (auto simp: in_policy_def families_def split: if_splits)

text \<open>A program whose leading rules all accept lets a packet pass as soon as one of them matches.\<close>

lemma endpoint_rules_pass:
  assumes "fw_src p = guest_of spec v6" "in_policy policy v6 p" "list_all (matches policy p) place" "\<forall>q \<in> set front. snd q = Accept"
  shows "rules_pass policy p drops ((front @ endpoint_rules place Accept spec policy) @ rest)"
proof -
  let ?r = "(place @ [Saddr (guest_of spec v6), EndpointIn v6], Accept)"
  have "?r \<in> set (front @ endpoint_rules place Accept spec policy)"
    using in_policy_family [OF assms(2)] by (auto simp: endpoint_rules_def)
  moreover have "list_all (matches policy p) (fst ?r)" using assms(1-3) by (simp add: matches_def)
  moreover have "\<not> (\<exists>q \<in> set (front @ endpoint_rules place Accept spec policy). snd q \<noteq> Accept)"
    using assms(4) by (auto simp: endpoint_rules_def)
  ultimately show ?thesis using rules_pass_first [of ?r _ policy p drops rest] by (metis snd_conv)
qed

lemma in_policy_iface [simp]: "in_policy policy v6 (p\<lparr>fw_iif := i, fw_oif := j\<rparr>) = in_policy policy v6 p"
  by (simp add: in_policy_def)

lemma namespace_lets_out:
  assumes "fw_iif p = tsp_tap spec" "fw_oif p = tsp_namespaceVeth spec" "fw_src p = guest_of spec v6" "in_policy policy v6 p"
  shows "hook_passes ''forward'' (namespace_chains spec policy) policy p"
  using endpoint_rules_pass [OF assms(3,4), of "[Iif [tsp_tap spec], Oif [tsp_namespaceVeth spec]]"
      "map (\<lambda>v6. ([Iif [tsp_namespaceVeth spec], Oif [tsp_tap spec], Daddr (guest_of spec v6), Established], Accept)) [False, True]" True "[]"]
    endpoint_rules_pass [OF assms(3,4), of "[Iif [tsp_tap spec]]" "[]" True] assms(1,2)
  by (simp add: hook_passes_def namespace_chains_def audit_chain_def matches_def [of _ _ "Iif _"] matches_def [of _ _ "Oif _"])

lemma host_lets_out:
  assumes "fw_iif p = tsp_hostVeth spec" "fw_src p = guest_of spec v6" "in_policy policy v6 p"
  shows "hook_passes ''forward'' (host_chains spec policy) policy p"
proof -
  let ?inward = "map (\<lambda>v6. ([Oif [tsp_hostVeth spec], Daddr (guest_of spec v6), Established], Accept)) [False, True]"
  have here: "list_all (matches policy p) [Iif [tsp_hostVeth spec]]" using assms(1) by (simp add: matches_def)
  have inbound: "\<forall>q \<in> set ?inward. snd q = Accept" by simp
  have "rules_pass policy p False (?inward @ endpoint_rules [Iif [tsp_hostVeth spec]] Accept spec policy @ rest)" for rest
    using endpoint_rules_pass [OF assms(2,3) here inbound, of False rest] unfolding append_assoc .
  moreover have "rules_pass policy p True (endpoint_rules [Iif [tsp_hostVeth spec]] Accept spec policy @ rest)" for rest
    using endpoint_rules_pass [OF assms(2,3) here, of "[]" True rest] unfolding append_Nil by simp
  ultimately show ?thesis unfolding hook_passes_def host_chains_def audit_chain_def by (simp del: rules_pass.simps list.map)
qed

lemma guest_egress_exact:
  "leaves_host spec policy out (guest_packet spec src dst l4 tracked) \<longleftrightarrow>
     (\<exists>v6. src = guest_of spec v6 \<and> in_policy policy v6 (guest_packet spec src dst l4 tracked))" (is "?out \<longleftrightarrow> ?allowed")
proof
  assume ?out
  then show ?allowed using namespace_forward(2) [of spec policy "guest_packet spec src dst l4 tracked"]
    by (simp add: leaves_host_def guest_packet_def)
next
  assume ?allowed
  then obtain v6 where v6: "src = guest_of spec v6" "in_policy policy v6 (guest_packet spec src dst l4 tracked)" by blast
  show ?out unfolding leaves_host_def
    using namespace_lets_out [of "guest_packet spec src dst l4 tracked" spec v6 policy]
      host_lets_out [of "guest_packet spec src dst l4 tracked\<lparr>fw_iif := tsp_hostVeth spec, fw_oif := out\<rparr>" spec v6 policy] v6
    by (simp add: guest_packet_def in_policy_def)
qed

text \<open>
  The later hook's drop policy decides every packet that does not come from the guest: no reply to the guest crosses the
  namespace, and while a session's table is loaded the host forwards nothing else.
\<close>

lemma audit_chain_drops_replies:
  assumes "names_apart spec"
  shows "\<not> hook_passes ''forward'' (namespace_chains spec policy) policy
     \<lparr>fw_iif = tsp_namespaceVeth spec, fw_oif = tsp_tap spec, fw_src = src, fw_dst = guest_of spec v6, fw_l4 = l4, fw_established = True\<rparr>"
  using namespace_forward(1) [of spec policy] assms by (fastforce simp: names_apart_def)

lemma audit_chain_drops_host_traffic:
  "fw_iif p \<noteq> tsp_hostVeth spec \<Longrightarrow> \<not> hook_passes ''forward'' (host_chains spec policy) policy p"
  using host_forward(1) by blast

section \<open>Topology facts\<close>

lemma hex_text_length: "length (hex_text bs) = 2 * length bs"
  by (induction bs) (simp_all add: hex_text_def)

lemma candidate_names:
  assumes "\<And>s. length (sha256 s) = 32"
  shows "names_apart (candidateFor sha256 sid n)"
    and "list_all (\<lambda>name. length name \<le> interfaceNameLimit) [tsp_tap (candidateFor sha256 sid n), tsp_namespaceVeth (candidateFor sha256 sid n), tsp_hostVeth (candidateFor sha256 sid n)]"
  using assms by (simp_all add: candidateFor_def Let_def names_apart_def interfaceNameLimit_def hex_text_length)

definition spec_networks :: "topologySpec \<Rightarrow> Prefix list" where
  "spec_networks spec = [tsp_guestNetwork4 spec, tsp_uplinkNetwork4 spec, tsp_guestNetwork6 spec, tsp_uplinkNetwork6 spec]"

lemma unat_base4: "unat (base4 slot) = 0x0af00000 + unat slot * 8" "unat (base4 slot + 4) = 0x0af00000 + unat slot * 8 + 4"
proof -
  have s: "unat slot < 65536" using unsigned_less [of slot] by simp
  have c: "unat (ucast slot :: u32) = unat slot" using s by (simp add: unsigned_ucast_eq take_bit_nat_eq_self)
  show "unat (base4 slot) = 0x0af00000 + unat slot * 8" "unat (base4 slot + 4) = 0x0af00000 + unat slot * 8 + 4"
    using s c by (simp_all add: base4_def unat_word_ariths)
qed

lemma contains4: "Contains \<lparr>pf_Addr = Addr4 u, pf_Bits = 30\<rparr> a \<Longrightarrow> \<exists>w. a = Addr4 w \<and> unat w div 4 = unat u div 4"
  by (auto simp: Contains_def drop_bit_eq_div unat_div dest!: arg_cong [where f = unat] split: Addr.splits)

lemma contains6: "Contains \<lparr>pf_Addr = Addr6 u [], pf_Bits = 126\<rparr> a \<Longrightarrow> \<exists>w z. a = Addr6 w z \<and> drop_bit 2 w = drop_bit 2 u"
  by (auto simp: Contains_def split: Addr.splits if_splits)

lemma bit_four: "bit (4 :: u128) n \<longleftrightarrow> n = 2"
proof -
  have "(4 :: u128) = push_bit 2 1" by simp
  then show ?thesis by (auto simp only: bit_simps possible_bit_word) simp_all
qed

lemma high_and_slot_bits:
  "i < 16 \<Longrightarrow> bit (push_bit 96 c OR push_bit 80 (ucast (slot :: u16)) :: u128) (80 + i) = bit slot i"
  "\<not> bit (push_bit 96 c OR push_bit 80 (ucast (slot :: u16)) :: u128) 2"
  by (simp_all add: bit_simps)

lemma base6_bits:
  "i < 16 \<Longrightarrow> bit (base6 slot) (80 + i) = bit slot i" "bit (base6 slot OR 4) (80 + i) = bit (base6 slot) (80 + i)"
  "\<not> bit (base6 slot) 2" "bit (base6 slot OR 4) 2"
  using high_and_slot_bits [where c = "0xfd70766d" and slot = slot, folded base6_def] unfolding bit_or_iff bit_four by simp_all

lemma drop_two_bits: "drop_bit 2 u = drop_bit 2 (w :: u128) \<Longrightarrow> 2 \<le> n \<Longrightarrow> bit u n = bit w n"
proof -
  assume "drop_bit 2 u = drop_bit 2 w" "2 \<le> n"
  then have "bit (drop_bit 2 u) (n - 2) = bit (drop_bit 2 w) (n - 2)" by (simp only:)
  then show ?thesis using \<open>2 \<le> n\<close> unfolding bit_drop_bit_eq o_apply by (simp only: le_add_diff_inverse)
qed

lemma base6_slot: "drop_bit 2 u = drop_bit 2 w \<Longrightarrow> u \<in> {base6 s, base6 s OR 4} \<Longrightarrow> w \<in> {base6 t, base6 t OR 4} \<Longrightarrow> s = t"
proof (rule bit_word_eqI)
  fix i
  assume "drop_bit 2 u = drop_bit 2 w" "u \<in> {base6 s, base6 s OR 4}" "w \<in> {base6 t, base6 t OR 4}" "i < LENGTH(16)"
  then show "bit s i = bit t i" using drop_two_bits [of u w "80 + i"] by (auto simp: base6_bits)
qed

text \<open>Two networks of one topology, and networks of topologies in different slots, have no address in common.\<close>

lemma base4_slot: "unat u div 4 = unat w div 4 \<Longrightarrow> u \<in> {base4 s, base4 s + 4} \<Longrightarrow> w \<in> {base4 t, base4 t + 4} \<Longrightarrow> s = t"
  by (auto simp: unat_base4 word_unat_eq_iff)

lemma candidate_networks:
  "spec_networks (candidateFor sha256 sid n) =
     (let slot = tsp_slot (candidateFor sha256 sid n) in
      [\<lparr>pf_Addr = Addr4 (base4 slot), pf_Bits = 30\<rparr>, \<lparr>pf_Addr = Addr4 (base4 slot + 4), pf_Bits = 30\<rparr>,
       \<lparr>pf_Addr = Addr6 (base6 slot) [], pf_Bits = 126\<rparr>, \<lparr>pf_Addr = Addr6 (base6 slot OR 4) [], pf_Bits = 126\<rparr>])"
  by (simp add: spec_networks_def candidateFor_def Let_def)

lemma slots_disjoint:
  assumes "tsp_slot (candidateFor sha256 sid n) \<noteq> tsp_slot (candidateFor sha256 sid' n')"
    "q \<in> set (spec_networks (candidateFor sha256 sid n))" "q' \<in> set (spec_networks (candidateFor sha256 sid' n'))"
  shows "\<not> (Contains q a \<and> Contains q' a)"
proof
  assume a: "Contains q a \<and> Contains q' a"
  let ?s = "tsp_slot (candidateFor sha256 sid n)" and ?t = "tsp_slot (candidateFor sha256 sid' n')"
  consider u w where "q = \<lparr>pf_Addr = Addr4 u, pf_Bits = 30\<rparr>" "q' = \<lparr>pf_Addr = Addr4 w, pf_Bits = 30\<rparr>"
      "u \<in> {base4 ?s, base4 ?s + 4}" "w \<in> {base4 ?t, base4 ?t + 4}"
    | u w where "q = \<lparr>pf_Addr = Addr6 u [], pf_Bits = 126\<rparr>" "q' = \<lparr>pf_Addr = Addr6 w [], pf_Bits = 126\<rparr>"
      "u \<in> {base6 ?s, base6 ?s OR 4}" "w \<in> {base6 ?t, base6 ?t OR 4}"
    | "\<exists>u w. pf_Addr q = Addr4 u \<and> pf_Addr q' = Addr6 w []" | "\<exists>u w. pf_Addr q = Addr6 u [] \<and> pf_Addr q' = Addr4 w"
    using assms(2,3) unfolding candidate_networks Let_def by auto
  then show False
  proof cases
    case 1
    then show False using a assms(1) contains4 [of u a] contains4 [of w a] base4_slot [of u w ?s ?t] by auto
  next
    case 2
    then show False using a assms(1) contains6 [of u a] contains6 [of w a] base6_slot [of u w ?s ?t] by auto
  qed (use a in \<open>auto simp: Contains_def split: Addr.splits\<close>)
qed

lemma guest_uplink_disjoint:
  "\<not> (Contains (tsp_guestNetwork4 (candidateFor sha256 sid n)) a \<and> Contains (tsp_uplinkNetwork4 (candidateFor sha256 sid n)) a)"
  "\<not> (Contains (tsp_guestNetwork6 (candidateFor sha256 sid n)) a \<and> Contains (tsp_uplinkNetwork6 (candidateFor sha256 sid n)) a)"
  by (auto simp: candidateFor_def Let_def unat_base4 dest!: contains4)
    (auto simp: candidateFor_def Let_def base6_bits dest!: contains6 drop_two_bits [where n = 2, OF _ order_refl])

end
