(* ===== verification/Host_Manager.thy ===== *)
theory Host_Manager
  imports Host_Policy VPN_Store Session_Model
begin

text \<open>
  The owner of the session networks, \<^verbatim>\<open>internal/network/manager.go\<close>: reservation of a topology, provisioning, the
  handle's handoffs and cleanup, over the backend interface of \<^verbatim>\<open>backend.go\<close> as a record of operations on the host.
  States are reached through pointers that outlive their entry, so they live in a list and a pointer is an index.
  An operation ends with an error when its context is over; the checks of the context between the operations are
  Boolean arguments.  The profile store is the one of the VPN component.
\<close>

section \<open>State\<close>

record PolicyAudit =
  pa_NamespacePolicyPresent :: bool
  pa_HostPolicyPresent :: bool
  pa_ForbiddenEgressZero :: bool

type_synonym 'h host_op = "topologySpec \<Rightarrow> 'h \<Rightarrow> 'h \<times> network_error option"

record 'h network_backend =
  nb_Available :: "topologySpec \<Rightarrow> 'h \<Rightarrow> 'h \<times> (network_error + bool)"
  nb_CreateNamespace :: "'h host_op"
  nb_CreateVeth :: "'h host_op"
  nb_ConfigureHost :: "'h host_op"
  nb_ConfigureNamespace :: "'h host_op"
  nb_CreateTAP :: "topologySpec \<Rightarrow> 'h \<Rightarrow> 'h \<times> (network_error + nat)"
  nb_ConfigureTAP :: "'h host_op"
  nb_ApplyNamespacePolicy :: "endpointPolicy \<Rightarrow> 'h host_op"
  nb_ApplyHostPolicy :: "endpointPolicy \<Rightarrow> 'h host_op"
  nb_AuditPolicy :: "topologySpec \<Rightarrow> 'h \<Rightarrow> 'h \<times> (network_error + PolicyAudit)"
  nb_DisableEgress :: "'h host_op"
  nb_DeleteHostPolicy :: "'h host_op"
  nb_DeleteNamespacePolicy :: "'h host_op"
  nb_DeleteTAP :: "'h host_op"
  nb_DeleteVeth :: "'h host_op"
  nb_DeleteNamespace :: "'h host_op"
  nb_AuditAbsent :: "topologySpec \<Rightarrow> 'h \<Rightarrow> 'h \<times> (network_error + bool)"
  nb_CloseFile :: "nat \<Rightarrow> 'h \<Rightarrow> 'h \<times> bool"

record networkState =
  nw_sessionID :: string
  nw_owner :: u32
  nw_profileName :: string
  nw_plan :: nat
  nw_spec :: topologySpec
  nw_policy :: endpointPolicy
  nw_ready :: bool
  nw_namespaceAttempted :: bool
  nw_vethAttempted :: bool
  nw_tapAttempted :: bool
  nw_namespacePolicyAttempted :: bool
  nw_hostPolicyAttempted :: bool
  nw_tapFile :: "nat option"

record 'h net_manager =
  nm_states :: "string \<rightharpoonup> nat"
  nm_reservations :: "u16 \<rightharpoonup> string"
  nm_names :: "string \<rightharpoonup> string"
  nm_heap :: "networkState list"
  nm_host :: 'h

definition newManager :: "'h \<Rightarrow> 'h net_manager" where
  "newManager h = \<lparr>nm_states = Map.empty, nm_reservations = Map.empty, nm_names = Map.empty, nm_heap = [], nm_host = h\<rparr>"

definition emptyPolicy :: endpointPolicy where
  "emptyPolicy = \<lparr>np_v4 = [], np_v6 = []\<rparr>"

definition topologyFailed :: "network_error \<Rightarrow> network_error" where
  "topologyFailed cause = (if cause = NetContext then cause else NetTopologyFailed)"

definition policyFailed :: "network_error \<Rightarrow> network_error" where
  "policyFailed cause = (if cause = NetContext then cause else NetPolicyFailed)"

definition policyAuditFailed :: "network_error \<Rightarrow> network_error" where
  "policyAuditFailed cause = (if cause = NetContext then cause else NetPolicyAuditFailed)"

text \<open>An application error and the end of the context pass through; the bare sentinels of the package do not.\<close>

definition normalizeCreateError :: "network_error \<Rightarrow> network_error" where
  "normalizeCreateError e = (if e \<in> {NetBackendUnavailable, NetCommandFailed, NetOutputBound} then NetTopologyFailed else e)"

definition profile_failure :: "vpn_error \<Rightarrow> network_error" where
  "profile_failure e = (if e = vpn_error.ErrContext then NetContext else NetProfile e)"

section \<open>Reserving a topology\<close>

definition fresh_state :: "string \<Rightarrow> u32 \<Rightarrow> string \<Rightarrow> nat \<Rightarrow> topologySpec \<Rightarrow> endpointPolicy \<Rightarrow> networkState" where
  "fresh_state sid owner name plan spec policy =
     \<lparr>nw_sessionID = sid, nw_owner = owner, nw_profileName = name, nw_plan = plan, nw_spec = spec, nw_policy = policy, nw_ready = False,
      nw_namespaceAttempted = False, nw_vethAttempted = False, nw_tapAttempted = False, nw_namespacePolicyAttempted = False,
      nw_hostPolicyAttempted = False, nw_tapFile = None\<rparr>"

definition insert_state :: "networkState \<Rightarrow> 'h net_manager \<Rightarrow> 'h net_manager" where
  "insert_state st m =
     m\<lparr>nm_states := (nm_states m)(nw_sessionID st \<mapsto> length (nm_heap m)),
       nm_reservations := (nm_reservations m)(tsp_slot (nw_spec st) \<mapsto> nw_sessionID st),
       nm_names := (nm_names m)(tsp_namespace (nw_spec st) \<mapsto> nw_sessionID st), nm_heap := nm_heap m @ [st]\<rparr>"

text \<open>
  The loop over the attempts.  The maps are read twice, before the host is asked and when the state is put in;
  an entry of the two name maps counts in the second reading when it is not the empty string.
\<close>

definition set_to :: "('k \<rightharpoonup> string) \<Rightarrow> 'k \<Rightarrow> bool" where
  "set_to f k \<longleftrightarrow> f k \<noteq> None \<and> f k \<noteq> Some []"

fun reserve_from :: "'h network_backend \<Rightarrow> (nat \<Rightarrow> topologySpec) \<Rightarrow> (nat \<Rightarrow> bool) \<Rightarrow> (topologySpec \<Rightarrow> networkState) \<Rightarrow> nat list \<Rightarrow>
    'h net_manager \<Rightarrow> 'h net_manager \<times> (network_error + nat)" where
  "reserve_from b candidate ended state_for [] m = (m, Inl NetCollisionExhausted)"
| "reserve_from b candidate ended state_for (attempt # rest) m =
     (if ended attempt then (m, Inl NetContext)
      else let spec = candidate attempt in
        if nm_reservations m (tsp_slot spec) \<noteq> None \<or> nm_names m (tsp_namespace spec) \<noteq> None
        then reserve_from b candidate ended state_for rest m
        else case nb_Available b spec (nm_host m) of
           (h, Inl e) \<Rightarrow> (m\<lparr>nm_host := h\<rparr>, Inl (topologyFailed e))
         | (h, Inr available) \<Rightarrow>
             let m' = m\<lparr>nm_host := h\<rparr>; st = state_for spec in
             if \<not> available \<or> nm_states m' (nw_sessionID st) \<noteq> None \<or> set_to (nm_reservations m') (tsp_slot spec) \<or>
               set_to (nm_names m') (tsp_namespace spec)
             then reserve_from b candidate ended state_for rest m'
             else (insert_state st m', Inr (length (nm_heap m'))))"

definition reserve :: "'h network_backend \<Rightarrow> (string \<Rightarrow> u8 list) \<Rightarrow> (nat \<Rightarrow> bool) \<Rightarrow> string \<Rightarrow> u32 \<Rightarrow> string \<Rightarrow> nat \<Rightarrow> endpointPolicy \<Rightarrow>
    'h net_manager \<Rightarrow> 'h net_manager \<times> (network_error + nat)" where
  "reserve b sha256 ended sid owner name plan policy =
     reserve_from b (candidateFor sha256 sid) ended (\<lambda>spec. fresh_state sid owner name plan spec policy) [0..<maximumAllocationAttempts]"

section \<open>Provisioning\<close>

text \<open>One call of the backend: the mark that is set before it, and the error it turns a failure into.\<close>

definition attempt_op :: "(networkState \<Rightarrow> networkState) \<Rightarrow> 'h host_op \<Rightarrow> (network_error \<Rightarrow> network_error) \<Rightarrow> networkState \<times> 'h \<Rightarrow>
    (networkState \<times> 'h) \<times> network_error option" where
  "attempt_op mark run wrap = (\<lambda>(st, h). let st' = mark st; (h', r) = run (nw_spec st') h in ((st', h'), map_option wrap r))"

definition attempt_tap :: "'h network_backend \<Rightarrow> networkState \<times> 'h \<Rightarrow> (networkState \<times> 'h) \<times> network_error option" where
  "attempt_tap b = (\<lambda>(st, h). let st' = st\<lparr>nw_tapAttempted := True\<rparr> in
     case nb_CreateTAP b (nw_spec st') h of
       (h', Inl e) \<Rightarrow> ((st', h'), Some (topologyFailed e)) | (h', Inr fd) \<Rightarrow> ((st'\<lparr>nw_tapFile := Some fd\<rparr>, h'), None))"

fun run_steps :: "('s \<Rightarrow> 's \<times> 'e option) list \<Rightarrow> 's \<Rightarrow> 's \<times> 'e option" where
  "run_steps [] s = (s, None)"
| "run_steps (f # fs) s = (case f s of (s', Some e) \<Rightarrow> (s', Some e) | (s', None) \<Rightarrow> run_steps fs s')"

definition provision_steps :: "'h network_backend \<Rightarrow> (networkState \<times> 'h \<Rightarrow> (networkState \<times> 'h) \<times> network_error option) list" where
  "provision_steps b =
     [attempt_op (nw_namespaceAttempted_update (\<lambda>_. True)) (nb_CreateNamespace b) topologyFailed,
      attempt_op (nw_vethAttempted_update (\<lambda>_. True)) (nb_CreateVeth b) topologyFailed,
      attempt_op id (nb_ConfigureHost b) topologyFailed,
      attempt_op id (nb_ConfigureNamespace b) topologyFailed,
      attempt_tap b,
      attempt_op id (nb_ConfigureTAP b) topologyFailed,
      (\<lambda>(st, h). attempt_op (nw_namespacePolicyAttempted_update (\<lambda>_. True)) (nb_ApplyNamespacePolicy b (nw_policy st)) policyFailed (st, h)),
      (\<lambda>(st, h). attempt_op (nw_hostPolicyAttempted_update (\<lambda>_. True)) (nb_ApplyHostPolicy b (nw_policy st)) policyFailed (st, h))]"

definition provision :: "'h network_backend \<Rightarrow> bool \<Rightarrow> networkState \<times> 'h \<Rightarrow> (networkState \<times> 'h) \<times> network_error option" where
  "provision b ended sh =
     (case run_steps (provision_steps b) sh of
        (sh', Some e) \<Rightarrow> (sh', Some e)
      | ((st, h), None) \<Rightarrow> if ended then ((st, h), Some NetContext) else ((st\<lparr>nw_ready := True\<rparr>, h), None))"

definition on_network :: "nat \<Rightarrow> (networkState \<times> 'h \<Rightarrow> (networkState \<times> 'h) \<times> 'r) \<Rightarrow> 'h net_manager \<Rightarrow> 'h net_manager \<times> 'r" where
  "on_network i f m =
     (case f (nm_heap m ! i, nm_host m) of ((st, h), r) \<Rightarrow> (m\<lparr>nm_heap := (nm_heap m)[i := st], nm_host := h\<rparr>, r))"

section \<open>Cleanup\<close>

text \<open>A step of the teardown runs when its mark is set; its failure is counted and the next one runs all the same.\<close>

definition cleanup_op :: "bool \<Rightarrow> 'h host_op \<Rightarrow> topologySpec \<Rightarrow> 'h \<times> nat \<Rightarrow> 'h \<times> nat" where
  "cleanup_op due run spec = (\<lambda>(h, failures). if due then (case run spec h of (h', r) \<Rightarrow> (h', if r = None then failures else Suc failures)) else (h, failures))"

definition close_tap :: "'h network_backend \<Rightarrow> nat option \<Rightarrow> 'h \<times> nat \<Rightarrow> 'h \<times> nat" where
  "close_tap b tap = (\<lambda>(h, failures). case tap of None \<Rightarrow> (h, failures)
     | Some fd \<Rightarrow> (case nb_CloseFile b fd h of (h', failed) \<Rightarrow> (h', if failed then Suc failures else failures)))"

definition teardown :: "'h network_backend \<Rightarrow> networkState \<Rightarrow> 'h \<Rightarrow> 'h \<times> nat" where
  "teardown b st h =
     (let spec = nw_spec st in
      fold (\<lambda>f. f)
        [cleanup_op (nw_vethAttempted st) (nb_DisableEgress b) spec,
         cleanup_op (nw_vethAttempted st) (nb_DeleteVeth b) spec,
         cleanup_op (nw_hostPolicyAttempted st) (nb_DeleteHostPolicy b) spec,
         cleanup_op (nw_namespacePolicyAttempted st) (nb_DeleteNamespacePolicy b) spec,
         close_tap b (nw_tapFile st),
         cleanup_op (nw_tapAttempted st) (nb_DeleteTAP b) spec,
         cleanup_op (nw_namespaceAttempted st) (nb_DeleteNamespace b) spec] (h, 0))"

definition forget :: "nat \<Rightarrow> networkState \<Rightarrow> 'h net_manager \<Rightarrow> 'h net_manager" where
  "forget i st m =
     (let sid = nw_sessionID st; slot = tsp_slot (nw_spec st); name = tsp_namespace (nw_spec st) in
      m\<lparr>nm_states := if nm_states m sid = Some i then (nm_states m)(sid := None) else nm_states m,
        nm_reservations := if nm_reservations m slot = Some sid then (nm_reservations m)(slot := None) else nm_reservations m,
        nm_names := if nm_names m name = Some sid then (nm_names m)(name := None) else nm_names m\<rparr>)"

definition cleanupState :: "'h network_backend \<Rightarrow> bool \<Rightarrow> nat \<Rightarrow> 'h net_manager \<Rightarrow> 'h net_manager \<times> network_error option" where
  "cleanupState b ended i m =
     (let st = nm_heap m ! i; shut = st\<lparr>nw_ready := False, nw_tapFile := None\<rparr>;
          (h, failures) = teardown b st (nm_host m); (h', audit) = nb_AuditAbsent b (nw_spec st) h in
      if 0 < failures \<or> audit \<noteq> Inr True \<or> ended
      then (m\<lparr>nm_heap := (nm_heap m)[i := shut], nm_host := h'\<rparr>, Some NetCleanupIncomplete)
      else (forget i st (m\<lparr>nm_heap := (nm_heap m)[i := shut\<lparr>nw_namespaceAttempted := False, nw_vethAttempted := False, nw_tapAttempted := False,
              nw_namespacePolicyAttempted := False, nw_hostPolicyAttempted := False, nw_policy := emptyPolicy\<rparr>], nm_host := h'\<rparr>), None))"

definition CleanupNetwork :: "'h network_backend \<Rightarrow> bool \<Rightarrow> string \<Rightarrow> 'h net_manager \<Rightarrow> 'h net_manager \<times> network_error option" where
  "CleanupNetwork b ended sid m =
     (if ValidateID sid \<noteq> None then (m, Some NetInvalidRequest)
      else case nm_states m sid of None \<Rightarrow> (m, None) | Some i \<Rightarrow> cleanupState b ended i m)"

section \<open>Creating a session network\<close>

text \<open>
  The contexts a creation meets: the one the store checks, one for each endpoint and each attempt, the one at the end of
  provisioning, and the cleanup's own.
\<close>

record create_context =
  cx_store :: bool
  cx_endpoint :: "nat \<Rightarrow> bool"
  cx_attempt :: "nat \<Rightarrow> bool"
  cx_ready :: bool
  cx_cleanup :: bool

fun gather :: "(nat \<Rightarrow> bool) \<Rightarrow> resolvedEndpoint list \<Rightarrow> endpointTuple list \<Rightarrow> network_error + endpointTuple list" where
  "gather ended [] seen = Inr seen"
| "gather ended (r # rs) seen =
     (if ended (length seen) then Inl NetContext
      else if maximumEndpointTuples \<le> length seen then Inl NetInvalidRequest
      else gather ended rs (seen @ [\<lparr>et_address = re_address r, et_port = re_port r\<rparr>]))"

definition create_body :: "'h network_backend \<Rightarrow> (string \<Rightarrow> u8 list) \<Rightarrow> create_context \<Rightarrow> string \<Rightarrow> u32 \<Rightarrow> string \<Rightarrow> nat \<Rightarrow> resolvedEndpoint list \<Rightarrow>
    'h net_manager \<Rightarrow> 'h net_manager \<times> ((nat option \<times> network_error) + nat)" where
  "create_body b sha256 cx sid owner name plan endpoints m =
     (case gather (cx_endpoint cx) endpoints [] of Inl e \<Rightarrow> (m, Inl (None, e))
      | Inr tuples \<Rightarrow>
        (case collectPolicy tuples of Inl e \<Rightarrow> (m, Inl (None, e))
         | Inr policy \<Rightarrow>
           (case reserve b sha256 (cx_attempt cx) sid owner name plan policy m of
              (m1, Inl e) \<Rightarrow> (m1, Inl (None, e))
            | (m1, Inr i) \<Rightarrow> (case on_network i (provision b (cx_ready cx)) m1 of (m2, Some e) \<Rightarrow> (m2, Inl (Some i, e)) | (m2, None) \<Rightarrow> (m2, Inr i)))))"

definition CreateNetwork :: "'h network_backend \<Rightarrow> (string \<Rightarrow> u8 list) \<Rightarrow> create_context \<Rightarrow> string \<Rightarrow> u32 \<Rightarrow> string \<Rightarrow> MemoryStore \<Rightarrow> nat \<Rightarrow>
    'h net_manager \<Rightarrow> 'h net_manager \<times> (network_error + nat)" where
  "CreateNetwork b sha256 cx sid owner name profiles plan m =
     (if ValidateID sid \<noteq> None then (m, Inl NetInvalidRequest)
      else if nm_states m sid \<noteq> None then (m, Inl NetTopologyExists)
      else case UsePlan (cx_store cx) owner name plan profiles of
         Inl e \<Rightarrow> (m, Inl (normalizeCreateError (profile_failure e)))
       | Inr view \<Rightarrow>
         (case create_body b sha256 cx sid owner name plan (Endpoints view profiles) m of
            (m1, Inr i) \<Rightarrow> (m1, Inr i)
          | (m1, Inl (None, e)) \<Rightarrow> (m1, Inl (normalizeCreateError e))
          | (m1, Inl (Some i, e)) \<Rightarrow>
              (case cleanupState b (cx_cleanup cx) i m1 of (m2, Some c) \<Rightarrow> (m2, Inl c) | (m2, None) \<Rightarrow> (m2, Inl (normalizeCreateError e)))))"

section \<open>The handle\<close>

record network_inspection =
  ni_SchemaVersion :: int
  ni_Ready :: bool
  ni_IPv4EndpointCount :: nat
  ni_IPv6EndpointCount :: nat
  ni_TAPReady :: bool

definition InspectNetwork :: "nat \<Rightarrow> 'h net_manager \<Rightarrow> network_inspection" where
  "InspectNetwork i m =
     (let st = nm_heap m ! i in
      \<lparr>ni_SchemaVersion = 1, ni_Ready = nw_ready st, ni_IPv4EndpointCount = length (np_v4 (nw_policy st)),
       ni_IPv6EndpointCount = length (np_v6 (nw_policy st)), ni_TAPReady = nw_ready st \<and> nw_tapFile st \<noteq> None\<rparr>)"

definition plan_in_use :: "bool \<Rightarrow> networkState \<Rightarrow> MemoryStore \<Rightarrow> vpn_error + nat \<times> nat" where
  "plan_in_use ended st profiles = UsePlan ended (nw_owner st) (nw_profileName st) (nw_plan st) profiles"

definition AuditPolicyHandle :: "'h network_backend \<Rightarrow> bool \<Rightarrow> bool \<Rightarrow> MemoryStore \<Rightarrow> nat \<Rightarrow> 'h net_manager \<Rightarrow> 'h net_manager \<times> (network_error + PolicyAudit)" where
  "AuditPolicyHandle b ended late profiles i m =
     (let st = nm_heap m ! i in
      case plan_in_use ended st profiles of Inl e \<Rightarrow> (m, Inl (policyAuditFailed (profile_failure e)))
      | Inr _ \<Rightarrow>
        if nm_states m (nw_sessionID st) \<noteq> Some i \<or> \<not> (nw_ready st \<and> nw_namespacePolicyAttempted st \<and> nw_hostPolicyAttempted st)
        then (m, Inl (policyAuditFailed NetTopologyNotReady))
        else case nb_AuditPolicy b (nw_spec st) (nm_host m) of
           (h, Inl e) \<Rightarrow> (m\<lparr>nm_host := h\<rparr>, Inl (policyAuditFailed e))
         | (h, Inr proof_of) \<Rightarrow>
             (m\<lparr>nm_host := h\<rparr>,
              if \<not> pa_NamespacePolicyPresent proof_of \<or> \<not> pa_HostPolicyPresent proof_of \<or> \<not> pa_ForbiddenEgressZero proof_of
              then Inl (policyAuditFailed NetCommandFailed)
              else if late then Inl (policyAuditFailed NetContext) else Inr proof_of))"

text \<open>The callback's result, then the check of the context.\<close>

definition after_callback :: "bool \<Rightarrow> 'h net_manager \<Rightarrow> 'h \<times> network_error option \<Rightarrow> 'h net_manager \<times> network_error option" where
  "after_callback late m = (\<lambda>(h, r). (m\<lparr>nm_host := h\<rparr>, if r = None \<and> late then Some NetContext else r))"

definition WithTAP :: "'h network_backend \<Rightarrow> (nat \<Rightarrow> 'h \<Rightarrow> 'h \<times> nat option) \<Rightarrow> (nat \<Rightarrow> 'h \<Rightarrow> 'h \<times> network_error option) \<Rightarrow> bool \<Rightarrow> bool \<Rightarrow> MemoryStore \<Rightarrow> nat \<Rightarrow>
    'h net_manager \<Rightarrow> 'h net_manager \<times> network_error option" where
  "WithTAP b dup fn ended late profiles i m =
     (let st = nm_heap m ! i in
      case plan_in_use ended st profiles of Inl e \<Rightarrow> (m, Some (profile_failure e))
      | Inr _ \<Rightarrow>
        (case (nw_ready st, nw_tapFile st) of
           (True, Some fd) \<Rightarrow>
             (case dup fd (nm_host m) of (h, None) \<Rightarrow> (m\<lparr>nm_host := h\<rparr>, Some (topologyFailed NetTopologyNotReady))
              | (h, Some copy) \<Rightarrow>
                  (case fn copy h of (h1, r) \<Rightarrow> after_callback late m (fst (nb_CloseFile b copy h1), r)))
         | _ \<Rightarrow> (m, Some NetTopologyNotReady)))"

record guestAddressing =
  ga_IPv4Address :: Prefix
  ga_IPv4Gateway :: Addr
  ga_IPv6Address :: Prefix
  ga_IPv6Gateway :: Addr

definition addressing_of :: "topologySpec \<Rightarrow> guestAddressing" where
  "addressing_of spec = \<lparr>ga_IPv4Address = tsp_guestAddress4 spec, ga_IPv4Gateway = pf_Addr (tsp_guestGateway4 spec),
     ga_IPv6Address = tsp_guestAddress6 spec, ga_IPv6Gateway = pf_Addr (tsp_guestGateway6 spec)\<rparr>"

definition WithGuestAddressing :: "(guestAddressing \<Rightarrow> 'h \<Rightarrow> 'h \<times> network_error option) \<Rightarrow> bool \<Rightarrow> bool \<Rightarrow> MemoryStore \<Rightarrow> nat \<Rightarrow>
    'h net_manager \<Rightarrow> 'h net_manager \<times> network_error option" where
  "WithGuestAddressing fn ended late profiles i m =
     (let st = nm_heap m ! i in
      case plan_in_use ended st profiles of Inl e \<Rightarrow> (m, Some (profile_failure e))
      | Inr _ \<Rightarrow> if \<not> nw_ready st then (m, Some NetTopologyNotReady) else after_callback late m (fn (addressing_of (nw_spec st)) (nm_host m)))"

definition WithGuestVPNConfig :: "(string \<Rightarrow> 'h \<Rightarrow> 'h \<times> network_error option) \<Rightarrow> bool \<Rightarrow> bool \<Rightarrow> bool \<Rightarrow> MemoryStore \<Rightarrow> nat \<Rightarrow>
    'h net_manager \<Rightarrow> 'h net_manager \<times> network_error option" where
  "WithGuestVPNConfig fn ended during late profiles i m =
     (let st = nm_heap m ! i in
      case plan_in_use ended st profiles of Inl e \<Rightarrow> (m, Some (profile_failure e))
      | Inr view \<Rightarrow>
        if \<not> nw_ready st then (m, Some NetTopologyNotReady)
        else case WithGuestConfig during view profiles of Inl e \<Rightarrow> (m, Some (profile_failure e))
         | Inr config \<Rightarrow> after_callback late m (fn config (nm_host m)))"

definition CleanupHandle :: "'h network_backend \<Rightarrow> bool \<Rightarrow> nat \<Rightarrow> 'h net_manager \<Rightarrow> 'h net_manager \<times> network_error option" where
  "CleanupHandle b ended i m = CleanupNetwork b ended (nw_sessionID (nm_heap m ! i)) m"

section \<open>Facts about the operations\<close>

lemma reserve_from_cases:
  assumes "reserve_from b candidate ended state_for attempts m = (m', r)"
  obtains h e where "r = Inl e" "m' = m\<lparr>nm_host := h\<rparr>"
  | h attempt where "attempt \<in> set attempts" "r = Inr (length (nm_heap m))"
      "m' = insert_state (state_for (candidate attempt)) (m\<lparr>nm_host := h\<rparr>)" "\<not> ended attempt"
      "nm_states m (nw_sessionID (state_for (candidate attempt))) = None"
      "nm_reservations m (tsp_slot (candidate attempt)) = None" "nm_names m (tsp_namespace (candidate attempt)) = None"
  using assms
proof (induction attempts arbitrary: m thesis)
  case Nil
  show ?case by (rule Nil(1) [of _ "nm_host m"]) (use Nil(3) in auto)
next
  case (Cons a attempts)
  let ?spec = "candidate a"
  obtain h q where q: "nb_Available b ?spec (nm_host m) = (h, q)" by fastforce
  consider "ended a" | (again) n where "reserve_from b candidate ended state_for attempts (m\<lparr>nm_host := n\<rparr>) = (m', r)"
    | (failed) e where "m' = m\<lparr>nm_host := h\<rparr>" "r = Inl e"
    | (put) "m' = insert_state (state_for ?spec) (m\<lparr>nm_host := h\<rparr>)" "r = Inr (length (nm_heap m))" "\<not> ended a"
        "nm_states m (nw_sessionID (state_for ?spec)) = None" "nm_reservations m (tsp_slot ?spec) = None" "nm_names m (tsp_namespace ?spec) = None"
    using Cons(4) q
    by (cases q; cases "ended a"; cases "nm_reservations m (tsp_slot ?spec) \<noteq> None \<or> nm_names m (tsp_namespace ?spec) \<noteq> None")
      (auto simp: Let_def set_to_def split: if_splits intro: that(2) [of "nm_host m"])
  then show ?case
  proof cases
    case 1
    then show ?thesis using Cons(4) by (intro Cons(2) [of "NetContext" "nm_host m"]) auto
  next
    case again
    show ?thesis
    proof (rule Cons(1) [OF _ _ again])
      fix g e
      assume "r = Inl e" "m' = m\<lparr>nm_host := n\<rparr>\<lparr>nm_host := g\<rparr>"
      then show thesis by (intro Cons(2) [of e g]) auto
    next
      fix g attempt
      assume "attempt \<in> set attempts" "r = Inr (length (nm_heap (m\<lparr>nm_host := n\<rparr>)))" "\<not> ended attempt"
        "m' = insert_state (state_for (candidate attempt)) (m\<lparr>nm_host := n\<rparr>\<lparr>nm_host := g\<rparr>)"
        "nm_states (m\<lparr>nm_host := n\<rparr>) (nw_sessionID (state_for (candidate attempt))) = None"
        "nm_reservations (m\<lparr>nm_host := n\<rparr>) (tsp_slot (candidate attempt)) = None" "nm_names (m\<lparr>nm_host := n\<rparr>) (tsp_namespace (candidate attempt)) = None"
      then show thesis by (intro Cons(3) [of attempt g]) auto
    qed
  next
    case failed
    then show ?thesis by (intro Cons(2)) auto
  next
    case put
    then show ?thesis by (intro Cons(3) [of a h]) auto
  qed
qed

lemma attempt_op_ok: "attempt_op mark run wrap (st, h) = (s', None) \<Longrightarrow> \<exists>h'. s' = (mark st, h') \<and> run (nw_spec (mark st)) h = (h', None)"
  by (auto simp: attempt_op_def Let_def split: prod.splits)

lemma attempt_tap_ok: "attempt_tap b (st, h) = (s', None) \<Longrightarrow> \<exists>h' fd. s' = (st\<lparr>nw_tapAttempted := True, nw_tapFile := Some fd\<rparr>, h')"
  by (auto simp: attempt_tap_def Let_def split: prod.splits sum.splits)

lemma run_steps_ok: "run_steps (f # fs) s = (s', None) \<longleftrightarrow> (\<exists>t. f s = (t, None) \<and> run_steps fs t = (s', None))"
  by (auto split: prod.splits option.splits)

definition provisioned :: "nat \<Rightarrow> networkState \<Rightarrow> networkState" where
  "provisioned fd st = st\<lparr>nw_namespaceAttempted := True, nw_vethAttempted := True, nw_tapAttempted := True, nw_tapFile := Some fd,
     nw_namespacePolicyAttempted := True, nw_hostPolicyAttempted := True, nw_ready := True\<rparr>"

lemma provision_ok:
  assumes "provision b ended (st, h) = ((st', h'), None)"
  shows "\<exists>fd g g'. st' = provisioned fd st \<and> \<not> ended \<and>
    nb_ApplyNamespacePolicy b (nw_policy st) (nw_spec st) g = (g', None) \<and> nb_ApplyHostPolicy b (nw_policy st) (nw_spec st) g' = (h', None)"
proof -
  from assms obtain st1 where run: "run_steps (provision_steps b) (st, h) = ((st1, h'), None)" "\<not> ended" "st' = st1\<lparr>nw_ready := True\<rparr>"
    by (auto simp: provision_def split: prod.splits option.splits if_splits)
  then show ?thesis unfolding provision_steps_def run_steps_ok
    by (auto dest!: attempt_op_ok attempt_tap_ok simp: provisioned_def) blast+
qed

text \<open>What no operation on a state changes.\<close>

definition identity :: "networkState \<Rightarrow> string \<times> topologySpec" where
  "identity st = (nw_sessionID st, nw_spec st)"

definition quiet_step :: "(networkState \<times> 'h \<Rightarrow> (networkState \<times> 'h) \<times> 'r) \<Rightarrow> bool" where
  "quiet_step f \<longleftrightarrow> (\<forall>s. identity (fst (fst (f s))) = identity (fst s) \<and> nw_ready (fst (fst (f s))) = nw_ready (fst s))"

lemma quietD:
  assumes "quiet_step f" "f s = (t, r)"
  shows "identity (fst t) = identity (fst s)" "nw_ready (fst t) = nw_ready (fst s)"
  using assms(1) [unfolded quiet_step_def, THEN spec [of _ s]] assms(2) by simp_all

lemma attempt_op_quiet: "(\<And>st. identity (mark st) = identity st \<and> nw_ready (mark st) = nw_ready st) \<Longrightarrow> quiet_step (attempt_op mark run wrap)"
  by (auto simp: quiet_step_def attempt_op_def Let_def split: prod.splits)

lemma attempt_tap_quiet: "quiet_step (attempt_tap b)"
  by (auto simp: quiet_step_def attempt_tap_def Let_def identity_def split: prod.splits sum.splits)

lemma run_steps_quiet: "list_all quiet_step fs \<Longrightarrow> quiet_step (run_steps fs)"
proof (induction fs)
  case (Cons f fs)
  show ?case unfolding quiet_step_def
  proof
    fix s
    obtain t r where t: "f s = (t, r)" by fastforce
    have "identity (fst t) = identity (fst s)" "nw_ready (fst t) = nw_ready (fst s)"
      using quietD [of f s t r] Cons(2) t by simp_all
    moreover have "identity (fst (fst (run_steps fs t))) = identity (fst t)" "nw_ready (fst (fst (run_steps fs t))) = nw_ready (fst t)"
      using quietD [of "run_steps fs" t "fst (run_steps fs t)" "snd (run_steps fs t)"] Cons by simp_all
    ultimately show "identity (fst (fst (run_steps (f # fs) s))) = identity (fst s) \<and> nw_ready (fst (fst (run_steps (f # fs) s))) = nw_ready (fst s)"
      using t by (cases r) simp_all
  qed
qed (simp add: quiet_step_def)

lemma provision_steps_quiet: "list_all quiet_step (provision_steps b)"
proof -
  have "quiet_step (\<lambda>(st, h). attempt_op mark (run (nw_policy st)) wrap (st, h))"
    if "\<And>st. identity (mark st) = identity st \<and> nw_ready (mark st) = nw_ready st" for mark wrap and run :: "endpointPolicy \<Rightarrow> 'a host_op"
    using that by (auto simp: quiet_step_def attempt_op_def Let_def split: prod.splits)
  then show ?thesis by (simp add: provision_steps_def attempt_op_quiet attempt_tap_quiet identity_def)
qed

lemma provision_failed:
  assumes "provision b ended (st, h) = ((st', h'), Some e)"
  shows "identity st' = identity st" "nw_ready st' = nw_ready st"
  using quietD [OF run_steps_quiet [OF provision_steps_quiet [of b]], of "(st, h)" "(st', h')"] assms
  by (auto simp: provision_def split: prod.splits option.splits if_splits)

section \<open>The invariant\<close>

definition fully_marked :: "networkState \<Rightarrow> bool" where
  "fully_marked st \<longleftrightarrow> nw_namespaceAttempted st \<and> nw_vethAttempted st \<and> nw_tapAttempted st \<and> nw_namespacePolicyAttempted st \<and>
     nw_hostPolicyAttempted st \<and> nw_tapFile st \<noteq> None"

definition networks_inv :: "(string \<Rightarrow> u8 list) \<Rightarrow> 'h net_manager \<Rightarrow> bool" where
  "networks_inv sha256 m \<longleftrightarrow>
     (\<forall>sid i. nm_states m sid = Some i \<longrightarrow> i < length (nm_heap m) \<and> nw_sessionID (nm_heap m ! i) = sid \<and>
        (\<exists>n. nw_spec (nm_heap m ! i) = candidateFor sha256 sid n) \<and>
        nm_reservations m (tsp_slot (nw_spec (nm_heap m ! i))) = Some sid \<and> nm_names m (tsp_namespace (nw_spec (nm_heap m ! i))) = Some sid) \<and>
     (\<forall>slot sid. nm_reservations m slot = Some sid \<longrightarrow> (\<exists>i. nm_states m sid = Some i \<and> tsp_slot (nw_spec (nm_heap m ! i)) = slot)) \<and>
     (\<forall>name sid. nm_names m name = Some sid \<longrightarrow> (\<exists>i. nm_states m sid = Some i \<and> tsp_namespace (nw_spec (nm_heap m ! i)) = name)) \<and>
     (\<forall>i < length (nm_heap m). nw_ready (nm_heap m ! i) \<longrightarrow> fully_marked (nm_heap m ! i) \<and> nm_states m (nw_sessionID (nm_heap m ! i)) = Some i)"

lemma net_inv_start: "networks_inv sha256 (newManager h)"
  by (simp add: networks_inv_def newManager_def)

lemma net_inv_host [simp]: "networks_inv sha256 (m\<lparr>nm_host := h\<rparr>) = networks_inv sha256 m"
  by (simp add: networks_inv_def)

text \<open>The three directions of the invariant, each with its own rule.\<close>

definition entries_ok :: "(string \<Rightarrow> u8 list) \<Rightarrow> 'h net_manager \<Rightarrow> bool" where
  "entries_ok sha256 m \<longleftrightarrow>
     (\<forall>sid i. nm_states m sid = Some i \<longrightarrow> i < length (nm_heap m) \<and> nw_sessionID (nm_heap m ! i) = sid \<and>
        (\<exists>n. nw_spec (nm_heap m ! i) = candidateFor sha256 sid n) \<and>
        nm_reservations m (tsp_slot (nw_spec (nm_heap m ! i))) = Some sid \<and> nm_names m (tsp_namespace (nw_spec (nm_heap m ! i))) = Some sid)"

definition names_ok :: "'h net_manager \<Rightarrow> bool" where
  "names_ok m \<longleftrightarrow>
     (\<forall>slot sid. nm_reservations m slot = Some sid \<longrightarrow> (\<exists>i. nm_states m sid = Some i \<and> tsp_slot (nw_spec (nm_heap m ! i)) = slot)) \<and>
     (\<forall>name sid. nm_names m name = Some sid \<longrightarrow> (\<exists>i. nm_states m sid = Some i \<and> tsp_namespace (nw_spec (nm_heap m ! i)) = name))"

definition ready_ok :: "'h net_manager \<Rightarrow> bool" where
  "ready_ok m \<longleftrightarrow>
     (\<forall>i < length (nm_heap m). nw_ready (nm_heap m ! i) \<longrightarrow> fully_marked (nm_heap m ! i) \<and> nm_states m (nw_sessionID (nm_heap m ! i)) = Some i)"

lemma net_inv_parts: "networks_inv sha256 m \<longleftrightarrow> entries_ok sha256 m \<and> names_ok m \<and> ready_ok m"
  by (simp add: networks_inv_def entries_ok_def names_ok_def ready_ok_def)

lemma net_inv_insert:
  assumes "networks_inv sha256 m" "nm_states m sid = None" "nm_reservations m (tsp_slot spec) = None" "nm_names m (tsp_namespace spec) = None"
    "spec = candidateFor sha256 sid n"
  shows "networks_inv sha256 (insert_state (fresh_state sid owner name plan spec policy) m)"
proof -
  have "entries_ok sha256 m" "names_ok m" "ready_ok m" using assms(1) by (simp_all add: net_inv_parts)
  have old: "nm_states m x = Some i \<Longrightarrow> i < length (nm_heap m)" for x i using \<open>entries_ok sha256 m\<close> by (simp add: entries_ok_def)
  have kept: "tsp_slot (nw_spec (nm_heap m ! i)) \<noteq> tsp_slot spec" "tsp_namespace (nw_spec (nm_heap m ! i)) \<noteq> tsp_namespace spec"
    if "nm_states m x = Some i" for x i using that \<open>entries_ok sha256 m\<close> assms(3,4) by (fastforce simp: entries_ok_def)+
  have "entries_ok sha256 (insert_state (fresh_state sid owner name plan spec policy) m)"
    using \<open>entries_ok sha256 m\<close> assms(2,5) old kept
    by (auto simp: entries_ok_def insert_state_def fresh_state_def nth_append less_Suc_eq)
  moreover have "names_ok (insert_state (fresh_state sid owner name plan spec policy) m)"
    using \<open>names_ok m\<close> assms(2-5) old by (fastforce simp: names_ok_def insert_state_def fresh_state_def nth_append)
  moreover have "ready_ok (insert_state (fresh_state sid owner name plan spec policy) m)"
    using \<open>ready_ok m\<close> assms(2) by (auto simp: ready_ok_def insert_state_def fresh_state_def nth_append)
  ultimately show ?thesis by (simp add: net_inv_parts)
qed

lemma net_inv_update:
  assumes "networks_inv sha256 m" "i < length (nm_heap m)" "identity st = identity (nm_heap m ! i)"
    "nw_ready st \<Longrightarrow> fully_marked st \<and> nm_states m (nw_sessionID st) = Some i"
  shows "networks_inv sha256 (m\<lparr>nm_heap := (nm_heap m)[i := st], nm_host := h\<rparr>)"
proof -
  have same: "nw_sessionID st = nw_sessionID (nm_heap m ! i)" "nw_spec st = nw_spec (nm_heap m ! i)" using assms(3) by (simp_all add: identity_def)
  have spec: "nw_spec ((nm_heap m)[i := st] ! j) = nw_spec (nm_heap m ! j)" for j
    using same assms(2) by (cases "i = j") simp_all
  have name: "nw_sessionID ((nm_heap m)[i := st] ! j) = nw_sessionID (nm_heap m ! j)" for j
    using same assms(2) by (cases "i = j") simp_all
  have "ready_ok (m\<lparr>nm_heap := (nm_heap m)[i := st], nm_host := h\<rparr>)"
    using assms(1,2,4) same by (auto simp: net_inv_parts ready_ok_def nth_list_update)
  then show ?thesis using assms(1) by (simp add: net_inv_parts entries_ok_def names_ok_def spec name)
qed

lemma net_inv_forget:
  assumes "networks_inv sha256 m" "nm_states m sid = Some i" "\<not> nw_ready (nm_heap m ! i)" "identity st = identity (nm_heap m ! i)"
  shows "networks_inv sha256 (forget i st m)"
proof -
  have inv: "entries_ok sha256 m" "names_ok m" "ready_ok m" using assms(1) by (simp_all add: net_inv_parts)
  then have here: "nw_sessionID st = sid" "nw_spec st = nw_spec (nm_heap m ! i)" "nm_reservations m (tsp_slot (nw_spec st)) = Some sid"
    "nm_names m (tsp_namespace (nw_spec st)) = Some sid" using assms(2,4) by (simp_all add: entries_ok_def identity_def)
  have f: "forget i st m = m\<lparr>nm_states := (nm_states m)(sid := None), nm_reservations := (nm_reservations m)(tsp_slot (nw_spec st) := None),
      nm_names := (nm_names m)(tsp_namespace (nw_spec st) := None)\<rparr>" using here assms(2) by (simp add: forget_def Let_def)
  have "entries_ok sha256 (forget i st m)" unfolding f using inv(1) here(3,4) by (fastforce simp: entries_ok_def)
  moreover have "names_ok (forget i st m)" unfolding f using inv(2) here assms(2) by (fastforce simp: names_ok_def)
  moreover have "ready_ok (forget i st m)" unfolding f using inv(3) here assms(2,3) by (auto simp: ready_ok_def)
  ultimately show ?thesis by (simp add: net_inv_parts)
qed

lemma cleanupState_cases:
  assumes "cleanupState b ended i m = (m', r)"
  obtains h where "r = Some NetCleanupIncomplete" "m' = m\<lparr>nm_heap := (nm_heap m)[i := (nm_heap m ! i)\<lparr>nw_ready := False, nw_tapFile := None\<rparr>], nm_host := h\<rparr>"
  | g h st where "r = None" "m' = forget i (nm_heap m ! i) (m\<lparr>nm_heap := (nm_heap m)[i := st], nm_host := h\<rparr>)" "nw_policy st = emptyPolicy"
      "identity st = identity (nm_heap m ! i)" "\<not> nw_ready st" "nb_AuditAbsent b (nw_spec (nm_heap m ! i)) g = (h, Inr True)" "\<not> ended"
proof -
  let ?st = "nm_heap m ! i"
  obtain g failures where t: "teardown b ?st (nm_host m) = (g, failures)" by fastforce
  obtain h audit where a: "nb_AuditAbsent b (nw_spec ?st) g = (h, audit)" by fastforce
  show thesis
  proof (cases "0 < failures \<or> audit \<noteq> Inr True \<or> ended")
    case True
    then show thesis using assms t a by (intro that(1) [of h]) (auto simp: cleanupState_def Let_def)
  next
    case False
    then show thesis using assms t a
      by (intro that(2) [of h "?st\<lparr>nw_ready := False, nw_tapFile := None, nw_namespaceAttempted := False, nw_vethAttempted := False,
            nw_tapAttempted := False, nw_namespacePolicyAttempted := False, nw_hostPolicyAttempted := False, nw_policy := emptyPolicy\<rparr>" g])
        (auto simp: cleanupState_def identity_def Let_def)
  qed
qed

lemma cleanupState_inv:
  assumes "networks_inv sha256 m" "nm_states m sid = Some i"
  shows "networks_inv sha256 (fst (cleanupState b ended i m))"
proof -
  have i: "i < length (nm_heap m)" using assms by (simp add: networks_inv_def)
  obtain m' r where run: "cleanupState b ended i m = (m', r)" by fastforce
  then have "networks_inv sha256 m'"
  proof (cases rule: cleanupState_cases)
    case (1 h)
    then show ?thesis using net_inv_update [OF assms(1) i, of "(nm_heap m ! i)\<lparr>nw_ready := False, nw_tapFile := None\<rparr>" h]
      by (simp add: identity_def)
  next
    case (2 g h st)
    have "networks_inv sha256 (m\<lparr>nm_heap := (nm_heap m)[i := st], nm_host := h\<rparr>)"
      using net_inv_update [OF assms(1) i, of st h] 2 by simp
    from net_inv_forget [OF this, of sid i "nm_heap m ! i"] show ?thesis using assms(2) i 2 by simp
  qed
  then show ?thesis using run by simp
qed

lemma provision_inv:
  assumes "networks_inv sha256 m" "nm_states m sid = Some i" "\<not> nw_ready (nm_heap m ! i)"
  shows "networks_inv sha256 (fst (on_network i (provision b ended) m))"
proof -
  have i: "i < length (nm_heap m)" and sid: "nw_sessionID (nm_heap m ! i) = sid" using assms by (simp_all add: networks_inv_def)
  obtain st h r where run: "provision b ended (nm_heap m ! i, nm_host m) = ((st, h), r)" by (metis surj_pair)
  show ?thesis
  proof (cases r)
    case None
    then obtain fd where "st = provisioned fd (nm_heap m ! i)" using provision_ok [of b ended "nm_heap m ! i" "nm_host m" st h] run by auto
    then show ?thesis using net_inv_update [OF assms(1) i, of st h] assms(2) sid run
      by (simp add: on_network_def identity_def provisioned_def fully_marked_def)
  next
    case (Some e)
    then show ?thesis using net_inv_update [OF assms(1) i, of st h] provision_failed [of b ended _ _ st h e] assms(3) run
      by (simp add: on_network_def)
  qed
qed

lemma reserve_inv:
  assumes "networks_inv sha256 m" "reserve b sha256 ended sid owner name plan policy m = (m', r)"
  shows "networks_inv sha256 m'"
  using assms(2) unfolding reserve_def
proof (cases rule: reserve_from_cases)
  case (2 h attempt)
  then show ?thesis using net_inv_insert [of sha256 "m\<lparr>nm_host := h\<rparr>" sid] assms(1) by (simp add: fresh_state_def [of sid])
qed (use assms(1) in simp)

section \<open>Interleaving\<close>

text \<open>
  Reservation and provisioning of a creation, cleanup and whatever else happens to the host, in any order.  A state is
  born locked, so nothing happens to it between its reservation and the end of its provisioning.
\<close>

inductive network_step :: "'h network_backend \<Rightarrow> (string \<Rightarrow> u8 list) \<Rightarrow> 'h net_manager \<Rightarrow> 'h net_manager \<Rightarrow> bool" for b sha256 where
  step_reserve: "reserve b sha256 ended sid owner name plan policy m = (m', r) \<Longrightarrow> network_step b sha256 m m'"
| step_provision: "nm_states m sid = Some i \<Longrightarrow> \<not> nw_ready (nm_heap m ! i) \<Longrightarrow> network_step b sha256 m (fst (on_network i (provision b ended) m))"
| step_cleanup: "network_step b sha256 m (fst (CleanupNetwork b ended sid m))"
| step_host: "network_step b sha256 m (m\<lparr>nm_host := h\<rparr>)"

lemma network_step_inv: "network_step b sha256 m m' \<Longrightarrow> networks_inv sha256 m \<Longrightarrow> networks_inv sha256 m'"
proof (induction rule: network_step.induct)
  case (step_cleanup m ended sid)
  then show ?case by (auto simp: CleanupNetwork_def cleanupState_inv split: option.splits)
qed (simp_all add: reserve_inv provision_inv)

lemma network_reachable_inv: "(network_step b sha256)\<^sup>*\<^sup>* (newManager h) m \<Longrightarrow> networks_inv sha256 m"
  by (induction rule: rtranclp_induct) (simp_all add: net_inv_start network_step_inv)

section \<open>Creation\<close>

definition tuple_for :: "resolvedEndpoint \<Rightarrow> endpointTuple" where
  "tuple_for r = \<lparr>et_address = re_address r, et_port = re_port r\<rparr>"

lemma gather_Inr: "gather ended rs seen = Inr ts \<Longrightarrow> ts = seen @ map tuple_for rs"
proof (induction rs arbitrary: seen)
  case (Cons r rs)
  then show ?case by (fastforce simp: tuple_for_def [symmetric] split: if_splits)
qed simp

lemma reserve_Inr:
  assumes "reserve b sha256 ended sid owner name plan policy m = (m', Inr i)"
  obtains h n where "i = length (nm_heap m)" "nm_states m sid = None"
    "m' = insert_state (fresh_state sid owner name plan (candidateFor sha256 sid n) policy) (m\<lparr>nm_host := h\<rparr>)"
  using assms unfolding reserve_def
  by (cases rule: reserve_from_cases) (auto simp: fresh_state_def [of sid] intro: that)

lemma create_body_cases:
  assumes "create_body b sha256 cx sid owner name plan endpoints m = (m', r)"
  obtains e where "r = Inl (None, e)" "m' = m"
  | e policy where "r = Inl (None, e)" "reserve b sha256 (cx_attempt cx) sid owner name plan policy m = (m', Inl e)"
  | i e policy m1 where "r = Inl (Some i, e)" "reserve b sha256 (cx_attempt cx) sid owner name plan policy m = (m1, Inr i)"
      "on_network i (provision b (cx_ready cx)) m1 = (m', Some e)"
  | i policy m1 where "r = Inr i" "collectPolicy (map tuple_for endpoints) = Inr policy"
      "reserve b sha256 (cx_attempt cx) sid owner name plan policy m = (m1, Inr i)" "on_network i (provision b (cx_ready cx)) m1 = (m', None)"
proof (cases "gather (cx_endpoint cx) endpoints []")
  case (Inl e)
  then show thesis using assms by (intro that(1) [of e]) (auto simp: create_body_def)
next
  case (Inr tuples)
  then have tuples: "tuples = map tuple_for endpoints" using gather_Inr by fastforce
  show thesis
  proof (cases "collectPolicy tuples")
    case (Inl e)
    then show thesis using assms \<open>gather _ _ _ = _\<close> by (intro that(1) [of e]) (auto simp: create_body_def)
  next
    case (Inr policy)
    obtain m1 q where q: "reserve b sha256 (cx_attempt cx) sid owner name plan policy m = (m1, q)" by fastforce
    show thesis
    proof (cases q)
      case (Inl e)
      then show thesis using assms \<open>gather _ _ _ = _\<close> \<open>collectPolicy _ = _\<close> q by (intro that(2) [of e policy]) (auto simp: create_body_def)
    next
      case i: (Inr i)
      obtain m2 e where p: "on_network i (provision b (cx_ready cx)) m1 = (m2, e)" by fastforce
      have body: "create_body b sha256 cx sid owner name plan endpoints m = (case e of Some e \<Rightarrow> (m2, Inl (Some i, e)) | None \<Rightarrow> (m2, Inr i))"
        using \<open>gather _ _ _ = _\<close> Inr q i p by (simp add: create_body_def split: option.splits)
      show thesis
      proof (cases e)
        case None
        then show thesis using assms body Inr q i p tuples by (intro that(4) [of i policy m1]) auto
      next
        case (Some x)
        then show thesis using assms body q i p by (intro that(3) [of i x policy m1]) auto
      qed
    qed
  qed
qed

text \<open>A reserved state is provisioned on its own, so it is the last of the heap and not yet ready.\<close>

lemma reserved_state:
  assumes "reserve b sha256 ended sid owner name plan policy m = (m1, Inr i)"
  shows "nm_states m1 sid = Some i" "i < length (nm_heap m1)" "\<not> nw_ready (nm_heap m1 ! i)"
    "\<exists>n. nm_heap m1 ! i = fresh_state sid owner name plan (candidateFor sha256 sid n) policy"
proof -
  obtain h n where "i = length (nm_heap m)"
    "m1 = insert_state (fresh_state sid owner name plan (candidateFor sha256 sid n) policy) (m\<lparr>nm_host := h\<rparr>)"
    using reserve_Inr [OF assms] by blast
  then show "nm_states m1 sid = Some i" "i < length (nm_heap m1)" "\<not> nw_ready (nm_heap m1 ! i)"
    "\<exists>n. nm_heap m1 ! i = fresh_state sid owner name plan (candidateFor sha256 sid n) policy"
    by (auto simp: insert_state_def fresh_state_def)
qed

lemma CreateNetwork_cases:
  assumes "CreateNetwork b sha256 cx sid owner name profiles plan m = (m', r)"
  obtains e where "m' = m" "r = Inl e"
  | view e where "ValidateID sid = None" "create_body b sha256 cx sid owner name plan (Endpoints view profiles) m = (m', Inl (None, e))"
      "r = Inl (normalizeCreateError e)"
  | view m1 i e where "ValidateID sid = None" "create_body b sha256 cx sid owner name plan (Endpoints view profiles) m = (m1, Inl (Some i, e))"
      "m' = fst (cleanupState b (cx_cleanup cx) i m1)"
      "r = Inl (case snd (cleanupState b (cx_cleanup cx) i m1) of Some c \<Rightarrow> c | None \<Rightarrow> normalizeCreateError e)"
  | view i where "UsePlan (cx_store cx) owner name plan profiles = Inr view"
      "create_body b sha256 cx sid owner name plan (Endpoints view profiles) m = (m', Inr i)" "r = Inr i"
proof (cases "ValidateID sid \<noteq> None \<or> nm_states m sid \<noteq> None \<or> (\<exists>e. UsePlan (cx_store cx) owner name plan profiles = Inl e)")
  case True
  then show thesis using assms that(1) by (auto simp: CreateNetwork_def split: if_splits)
next
  case False
  then obtain view where v: "ValidateID sid = None" "UsePlan (cx_store cx) owner name plan profiles = Inr view"
    by (cases "UsePlan (cx_store cx) owner name plan profiles") auto
  obtain m1 q where body: "create_body b sha256 cx sid owner name plan (Endpoints view profiles) m = (m1, q)" by fastforce
  consider i where "q = Inr i" | e where "q = Inl (None, e)" | i e where "q = Inl (Some i, e)"
    by (metis obj_sumE option.exhaust surj_pair)
  then show thesis
  proof cases
    case (1 i)
    then show thesis using that(4) [OF v(2)] body assms v False by (simp add: CreateNetwork_def)
  next
    case (2 e)
    then show thesis using that(2) [OF v(1)] body assms v False by (simp add: CreateNetwork_def)
  next
    case (3 i e)
    then show thesis using that(3) [OF v(1)] body assms v False
      by (cases "cleanupState b (cx_cleanup cx) i m1"; cases "snd (cleanupState b (cx_cleanup cx) i m1)") (simp_all add: CreateNetwork_def)
  qed
qed

lemma create_steps:
  assumes "CreateNetwork b sha256 cx sid owner name profiles plan m = (m', r)"
  shows "(network_step b sha256)\<^sup>*\<^sup>* m m'"
  using assms
proof (cases rule: CreateNetwork_cases)
  case (2 view e)
  from 2(2) show ?thesis
    by (cases rule: create_body_cases) (use step_reserve [of b sha256] in auto)
next
  case (3 view m1 i e)
  from 3(2) show ?thesis
  proof (cases rule: create_body_cases)
    case (3 j x policy mr)
    note st = reserved_state [OF 3(2)]
    have "network_step b sha256 m mr" using step_reserve [OF 3(2)] .
    moreover have "network_step b sha256 mr m1" using step_provision [OF st(1,3), of b sha256 "cx_ready cx"] 3(3) by simp
    moreover have "nm_states m1 sid = Some j" using 3(3) st(1) by (auto simp: on_network_def split: prod.splits)
    then have "network_step b sha256 m1 m'"
      using step_cleanup [of b sha256 m1 "cx_cleanup cx" sid] 3(1) \<open>ValidateID sid = None\<close> \<open>m' = _\<close> by (simp add: CleanupNetwork_def)
    ultimately show ?thesis by (meson converse_rtranclp_into_rtranclp r_into_rtranclp)
  qed auto
next
  case (4 view i)
  from 4(2) show ?thesis
  proof (cases rule: create_body_cases)
    case (4 j policy mr)
    note st = reserved_state [OF 4(3)]
    have "network_step b sha256 m mr" using step_reserve [OF 4(3)] .
    moreover have "network_step b sha256 mr m'" using step_provision [OF st(1,3), of b sha256 "cx_ready cx"] 4 by simp
    ultimately show ?thesis by (meson converse_rtranclp_into_rtranclp r_into_rtranclp)
  qed auto
qed simp

lemma create_ok:
  assumes "CreateNetwork b sha256 cx sid owner name profiles plan m = (m', Inr i)"
  obtains view policy n fd g g' where "UsePlan (cx_store cx) owner name plan profiles = Inr view"
    "collectPolicy (map tuple_for (Endpoints view profiles)) = Inr policy" "nm_states m' sid = Some i"
    "nm_heap m' ! i = provisioned fd (fresh_state sid owner name plan (candidateFor sha256 sid n) policy)"
    "nb_ApplyNamespacePolicy b policy (candidateFor sha256 sid n) g = (g', None)"
    "nb_ApplyHostPolicy b policy (candidateFor sha256 sid n) g' = (nm_host m', None)"
proof -
  obtain view where v: "UsePlan (cx_store cx) owner name plan profiles = Inr view"
    and run: "create_body b sha256 cx sid owner name plan (Endpoints view profiles) m = (m', Inr i)"
    using assms by (cases rule: CreateNetwork_cases) auto
  from run show thesis
  proof (cases rule: create_body_cases)
    case (4 j policy m1)
    note st = reserved_state [OF 4(3)]
    from st(4) obtain n where n: "nm_heap m1 ! j = fresh_state sid owner name plan (candidateFor sha256 sid n) policy" by blast
    obtain st' h' where pr: "provision b (cx_ready cx) (nm_heap m1 ! j, nm_host m1) = ((st', h'), None)"
      and m': "m' = m1\<lparr>nm_heap := (nm_heap m1)[j := st'], nm_host := h'\<rparr>" using 4(4) by (auto simp: on_network_def split: prod.splits)
    from provision_ok [OF pr] obtain fd g g' where "st' = provisioned fd (nm_heap m1 ! j)"
      "nb_ApplyNamespacePolicy b policy (candidateFor sha256 sid n) g = (g', None)"
      "nb_ApplyHostPolicy b policy (candidateFor sha256 sid n) g' = (h', None)" by (auto simp: n fresh_state_def [of sid])
    then show thesis using that [OF v 4(2)] st(1,2) 4(1) m' n by auto
  qed auto
qed

end
