(* ===== verification/Host_Backend.thy ===== *)
theory Host_Backend
  imports Host_Manager
begin

text \<open>
  The Linux backend of the session networks, \<^verbatim>\<open>internal/network/backend_linux.go\<close>, its tools of \<^verbatim>\<open>backend.go\<close> and the reading
  of the live packet filter of \<^verbatim>\<open>policy_audit.go\<close>.  The programs \<^verbatim>\<open>ip\<close>, \<^verbatim>\<open>nft\<close> and \<^verbatim>\<open>sysctl\<close> act on the host through a runner, a
  parameter.  What a program prints is text, or the value its JSON text encodes: one name for each record of a
  listing (empty when the field is missing), or the objects of a table.
\<close>

section \<open>Tools\<close>

record netToolPaths =
  nt_IP :: string
  nt_NFT :: string
  nt_Sysctl :: string
  nt_Tun :: string

definition path_base :: "string \<Rightarrow> string" where
  "path_base p = rev (takeWhile (\<lambda>c. c \<noteq> CHR ''/'') (rev p))"

definition validate_paths :: "netToolPaths \<Rightarrow> network_error option" where
  "validate_paths t =
     (if list_ex (\<lambda>(path, base). \<not> clean_abs path \<or> path_base path \<noteq> base) [(nt_IP t, ''ip''), (nt_NFT t, ''nft''), (nt_Sysctl t, ''sysctl'')]
      then Some NetBackendUnavailable
      else if nt_Tun t \<noteq> ''/dev/net/tun'' then Some NetBackendUnavailable else None)"

record audit_chain_object =
  ac_Family :: string
  ac_Table :: string
  ac_Name :: string
  ac_Handle :: u64
  ac_Type :: string
  ac_Hook :: string
  ac_Prio :: int
  ac_Policy :: string

text \<open>An expression of a rule: one that is not an object, a counter (unreadable, or its packets and bytes), or anything else.\<close>

datatype audit_expr = BadExpr | CounterExpr "(u64 \<times> u64) option" | OtherExpr

record audit_rule =
  ar_Family :: string
  ar_Table :: string
  ar_Chain :: string
  ar_Handle :: u64
  ar_Expr :: "audit_expr list"
  ar_Comment :: string

datatype audit_object = Metainfo string string int | SetObject string string string u64 | TableObject string string u64 string
  | ChainObject audit_chain_object | RuleObject audit_rule | UnreadObject

datatype command_output = PlainText string | JsonNames "string list" | JsonTable "audit_object list"

record net_command =
  nx_path :: string
  nx_args :: "string list"
  nx_stdin :: "string option"

record net_result =
  nr_stdout :: command_output
  nr_exitCode :: int

record 'h linuxBackend =
  lx_paths :: netToolPaths
  lx_runner :: "net_command \<Rightarrow> 'h \<Rightarrow> 'h \<times> (network_error + net_result)"
  lx_openTAP :: "string \<Rightarrow> string \<Rightarrow> 'h \<Rightarrow> 'h \<times> (network_error + nat \<times> string)"
  lx_closeFile :: "nat \<Rightarrow> 'h \<Rightarrow> 'h \<times> bool"

definition hostBackendError :: "network_error \<Rightarrow> network_error" where
  "hostBackendError e = (if e = NetContext \<or> e = NetOutputBound then e else NetCommandFailed)"

definition run_tool :: "'h linuxBackend \<Rightarrow> string \<Rightarrow> string list \<Rightarrow> string option \<Rightarrow> 'h \<Rightarrow> 'h \<times> (network_error + net_result)" where
  "run_tool b path arguments stdin h =
     (if path \<noteq> nt_IP (lx_paths b) \<and> path \<noteq> nt_NFT (lx_paths b) \<and> path \<noteq> nt_Sysctl (lx_paths b) then (h, Inl NetBackendUnavailable)
      else case lx_runner b \<lparr>nx_path = path, nx_args = arguments, nx_stdin = stdin\<rparr> h of
         (h', Inl e) \<Rightarrow> (h', Inl (hostBackendError e)) | (h', Inr r) \<Rightarrow> (h', Inr r))"

text \<open>A command whose output is used: a failed start and an exit code other than zero are errors.\<close>

definition output_of :: "'h linuxBackend \<Rightarrow> string \<Rightarrow> string list \<Rightarrow> string option \<Rightarrow> 'h \<Rightarrow> 'h \<times> (network_error + command_output)" where
  "output_of b path arguments stdin h =
     (case run_tool b path arguments stdin h of
        (h', Inl e) \<Rightarrow> (h', Inl (hostBackendError e))
      | (h', Inr r) \<Rightarrow> (h', if nr_exitCode r \<noteq> 0 then Inl NetCommandFailed else Inr (nr_stdout r)))"

definition stdinSuccess :: "'h linuxBackend \<Rightarrow> string \<Rightarrow> string list \<Rightarrow> string option \<Rightarrow> 'h \<Rightarrow> 'h \<times> network_error option" where
  "stdinSuccess b path arguments stdin h =
     (case output_of b path arguments stdin h of (h', Inl e) \<Rightarrow> (h', Some e) | (h', Inr _) \<Rightarrow> (h', None))"

definition namespaceStdinSuccess :: "'h linuxBackend \<Rightarrow> string \<Rightarrow> string \<Rightarrow> string list \<Rightarrow> string option \<Rightarrow> 'h \<Rightarrow> 'h \<times> network_error option" where
  "namespaceStdinSuccess b namespace path arguments stdin =
     stdinSuccess b (nt_IP (lx_paths b)) ([''netns'', ''exec'', namespace, path] @ arguments) stdin"

text \<open>Commands one after the other, to the first that fails.\<close>

fun in_turn :: "('h \<Rightarrow> 'h \<times> network_error option) list \<Rightarrow> 'h \<Rightarrow> 'h \<times> network_error option" where
  "in_turn [] h = (h, None)"
| "in_turn (f # fs) h = (case f h of (h', Some e) \<Rightarrow> (h', Some e) | (h', None) \<Rightarrow> in_turn fs h')"

definition ip_commands :: "'h linuxBackend \<Rightarrow> string list list \<Rightarrow> ('h \<Rightarrow> 'h \<times> network_error option) list" where
  "ip_commands b = map (\<lambda>arguments. stdinSuccess b (nt_IP (lx_paths b)) arguments None)"

definition namespace_commands :: "'h linuxBackend \<Rightarrow> string \<Rightarrow> string \<Rightarrow> string list list \<Rightarrow> ('h \<Rightarrow> 'h \<times> network_error option) list" where
  "namespace_commands b namespace path = map (\<lambda>arguments. namespaceStdinSuccess b namespace path arguments None)"

section \<open>Creating\<close>

definition lx_CreateNamespace :: "'h linuxBackend \<Rightarrow> 'h host_op" where
  "lx_CreateNamespace b spec = stdinSuccess b (nt_IP (lx_paths b)) [''netns'', ''add'', tsp_namespace spec] None"

definition lx_CreateVeth :: "'h linuxBackend \<Rightarrow> 'h host_op" where
  "lx_CreateVeth b spec = in_turn (ip_commands b
     [[''link'', ''add'', tsp_hostVeth spec, ''type'', ''veth'', ''peer'', ''name'', tsp_namespaceVeth spec],
      [''link'', ''set'', tsp_namespaceVeth spec, ''netns'', tsp_namespace spec]])"

definition lx_ConfigureHost :: "'h linuxBackend \<Rightarrow> 'h host_op" where
  "lx_ConfigureHost b spec = in_turn (ip_commands b
     [[''addr'', ''add'', prefix_text (tsp_hostUplink4 spec), ''dev'', tsp_hostVeth spec],
      [''-6'', ''addr'', ''add'', prefix_text (tsp_hostUplink6 spec), ''dev'', tsp_hostVeth spec],
      [''link'', ''set'', tsp_hostVeth spec, ''up''],
      [''route'', ''add'', prefix_text (tsp_guestNetwork4 spec), ''via'', AppendTo (pf_Addr (tsp_namespaceUplink4 spec)), ''dev'', tsp_hostVeth spec],
      [''-6'', ''route'', ''add'', prefix_text (tsp_guestNetwork6 spec), ''via'', AppendTo (pf_Addr (tsp_namespaceUplink6 spec)), ''dev'', tsp_hostVeth spec]] @
     map (\<lambda>setting. stdinSuccess b (nt_Sysctl (lx_paths b)) [''-q'', ''-w'', setting] None)
       [''net.ipv4.conf.'' @ tsp_hostVeth spec @ ''.forwarding=1'', ''net.ipv4.conf.'' @ tsp_hostVeth spec @ ''.rp_filter=0'',
        ''net.ipv6.conf.'' @ tsp_hostVeth spec @ ''.forwarding=1''])"

definition lx_ConfigureNamespace :: "'h linuxBackend \<Rightarrow> 'h host_op" where
  "lx_ConfigureNamespace b spec = in_turn (namespace_commands b (tsp_namespace spec) (nt_IP (lx_paths b))
     [[''addr'', ''add'', prefix_text (tsp_namespaceUplink4 spec), ''dev'', tsp_namespaceVeth spec],
      [''-6'', ''addr'', ''add'', prefix_text (tsp_namespaceUplink6 spec), ''dev'', tsp_namespaceVeth spec],
      [''link'', ''set'', ''lo'', ''up''],
      [''link'', ''set'', tsp_namespaceVeth spec, ''up''],
      [''route'', ''add'', ''default'', ''via'', AppendTo (pf_Addr (tsp_hostUplink4 spec)), ''dev'', tsp_namespaceVeth spec],
      [''-6'', ''route'', ''add'', ''default'', ''via'', AppendTo (pf_Addr (tsp_hostUplink6 spec)), ''dev'', tsp_namespaceVeth spec]] @
     namespace_commands b (tsp_namespace spec) (nt_Sysctl (lx_paths b))
       [[''-q'', ''-w'', ''net.ipv4.ip_forward=1''], [''-q'', ''-w'', ''net.ipv6.conf.all.forwarding=1'']])"

text \<open>Opening the device and binding it: the kernel answers with a descriptor and the name it gave the interface.\<close>

definition lx_CreateTAP :: "'h linuxBackend \<Rightarrow> (topologySpec \<Rightarrow> 'h \<Rightarrow> bool) \<Rightarrow> topologySpec \<Rightarrow> 'h \<Rightarrow> 'h \<times> (network_error + nat)" where
  "lx_CreateTAP b ended spec h =
     (if ended spec h then (h, Inl NetContext)
      else case lx_openTAP b (nt_Tun (lx_paths b)) (tsp_tap spec) h of
         (h', Inl e) \<Rightarrow> (h', Inl e)
       | (h', Inr (fd, name)) \<Rightarrow> if name \<noteq> tsp_tap spec then (fst (lx_closeFile b fd h'), Inl NetCommandFailed) else (h', Inr fd))"

definition lx_ConfigureTAP :: "'h linuxBackend \<Rightarrow> 'h host_op" where
  "lx_ConfigureTAP b spec = in_turn (ip_commands b [[''link'', ''set'', tsp_tap spec, ''netns'', tsp_namespace spec]] @
     namespace_commands b (tsp_namespace spec) (nt_IP (lx_paths b))
       [[''addr'', ''add'', prefix_text (tsp_guestGateway4 spec), ''dev'', tsp_tap spec],
        [''-6'', ''addr'', ''add'', prefix_text (tsp_guestGateway6 spec), ''dev'', tsp_tap spec],
        [''link'', ''set'', tsp_tap spec, ''up'']])"

definition lx_ApplyNamespacePolicy :: "'h linuxBackend \<Rightarrow> endpointPolicy \<Rightarrow> 'h host_op" where
  "lx_ApplyNamespacePolicy b policy spec =
     namespaceStdinSuccess b (tsp_namespace spec) (nt_NFT (lx_paths b)) [''-f'', ''-''] (Some (namespaceRules spec policy))"

definition lx_ApplyHostPolicy :: "'h linuxBackend \<Rightarrow> endpointPolicy \<Rightarrow> 'h host_op" where
  "lx_ApplyHostPolicy b policy spec = stdinSuccess b (nt_NFT (lx_paths b)) [''-f'', ''-''] (Some (hostRules spec policy))"

section \<open>Listings\<close>

text \<open>\<^verbatim>\<open>Prefix.Masked\<close> and \<^verbatim>\<open>Prefix.Overlaps\<close>.\<close>

definition mask_addr :: "nat \<Rightarrow> Addr \<Rightarrow> Addr" where
  "mask_addr bits a = (case a of AddrNone \<Rightarrow> AddrNone | Addr4 w \<Rightarrow> Addr4 (push_bit (32 - bits) (drop_bit (32 - bits) w))
     | Addr6 w _ \<Rightarrow> Addr6 (push_bit (128 - bits) (drop_bit (128 - bits) w)) [])"

definition Masked :: "Prefix \<Rightarrow> Prefix" where
  "Masked p = p\<lparr>pf_Addr := mask_addr (pf_Bits p) (pf_Addr p)\<rparr>"

definition Overlaps :: "Prefix \<Rightarrow> Prefix \<Rightarrow> bool" where
  "Overlaps p q \<longleftrightarrow> prefix_valid p \<and> prefix_valid q \<and>
     (p = q \<or> Is4 (pf_Addr p) = Is4 (pf_Addr q) \<and>
        (min (pf_Bits p) (pf_Bits q) = 0 \<or> mask_addr (min (pf_Bits p) (pf_Bits q)) (pf_Addr p) = mask_addr (min (pf_Bits p) (pf_Bits q)) (pf_Addr q)))"

definition namespaceNames :: "'h linuxBackend \<Rightarrow> 'h \<Rightarrow> 'h \<times> (network_error + string list)" where
  "namespaceNames b h =
     (case output_of b (nt_IP (lx_paths b)) [''netns'', ''list''] None h of
        (h', Inr (PlainText out)) \<Rightarrow> (h', Inr (map hd (filter (\<lambda>fs. fs \<noteq> []) (map text_fields (split_at line_break out)))))
      | (h', Inl e) \<Rightarrow> (h', Inl e) | (h', Inr _) \<Rightarrow> (h', Inl NetCommandFailed))"

definition linkNames :: "'h linuxBackend \<Rightarrow> string \<Rightarrow> 'h \<Rightarrow> 'h \<times> (network_error + string list)" where
  "linkNames b namespace h =
     (case output_of b (nt_IP (lx_paths b))
         ((if namespace = [] then [] else [''netns'', ''exec'', namespace, nt_IP (lx_paths b)]) @ [''-j'', ''link'', ''show'']) None h of
        (h', Inr (JsonNames names)) \<Rightarrow> (h', if [] \<in> set names then Inl NetCommandFailed else Inr names)
      | (h', Inl e) \<Rightarrow> (h', Inl e) | (h', Inr _) \<Rightarrow> (h', Inl NetCommandFailed))"

fun table_keys :: "string list list \<Rightarrow> (string \<times> string) list option" where
  "table_keys [] = Some []"
| "table_keys ([] # rest) = table_keys rest"
| "table_keys ([word, family, name] # rest) = (if word \<noteq> ''table'' then None else map_option (\<lambda>ks. (family, name) # ks) (table_keys rest))"
| "table_keys (_ # rest) = None"

definition tableNames :: "'h linuxBackend \<Rightarrow> string \<Rightarrow> 'h \<Rightarrow> 'h \<times> (network_error + (string \<times> string) list)" where
  "tableNames b namespace h =
     (case (if namespace = [] then output_of b (nt_NFT (lx_paths b)) [''list'', ''tables''] None h
            else output_of b (nt_IP (lx_paths b)) [''netns'', ''exec'', namespace, nt_NFT (lx_paths b), ''list'', ''tables''] None h) of
        (h', Inr (PlainText out)) \<Rightarrow>
          (h', case table_keys (map text_fields (split_at line_break out)) of None \<Rightarrow> Inl NetCommandFailed | Some ks \<Rightarrow> Inr ks)
      | (h', Inl e) \<Rightarrow> (h', Inl e) | (h', Inr _) \<Rightarrow> (h', Inl NetCommandFailed))"

definition route_prefix :: "bool \<Rightarrow> string \<Rightarrow> Prefix option" where
  "route_prefix v6 destination =
     (case (case ParsePrefix destination of Some p \<Rightarrow> Some p
            | None \<Rightarrow> (case ParseAddr destination of None \<Rightarrow> None
                | Some a \<Rightarrow> if Zone a \<noteq> [] \<or> Is4In6 a then None else Some \<lparr>pf_Addr = a, pf_Bits = if Is4 a then 32 else 128\<rparr>)) of
        None \<Rightarrow> None
      | Some p \<Rightarrow> if \<not> prefix_valid p \<or> Zone (pf_Addr p) \<noteq> [] \<or> Is4In6 (pf_Addr p) \<or> (\<not> v6) \<noteq> Is4 (pf_Addr p) then None else Some (Masked p))"

fun route_list :: "bool \<Rightarrow> string list \<Rightarrow> Prefix list option" where
  "route_list v6 [] = Some []"
| "route_list v6 (d # ds) =
     (if d = ''default'' then route_list v6 ds
      else case route_prefix v6 d of None \<Rightarrow> None | Some p \<Rightarrow> map_option (\<lambda>ps. p # ps) (route_list v6 ds))"

definition routePrefixes :: "'h linuxBackend \<Rightarrow> bool \<Rightarrow> 'h \<Rightarrow> 'h \<times> (network_error + Prefix list)" where
  "routePrefixes b v6 h =
     (case output_of b (nt_IP (lx_paths b)) [''-j'', if v6 then ''-6'' else ''-4'', ''route'', ''show'', ''table'', ''all''] None h of
        (h', Inr (JsonNames ds)) \<Rightarrow> (h', case route_list v6 ds of None \<Rightarrow> Inl NetCommandFailed | Some ps \<Rightarrow> Inr ps)
      | (h', Inl e) \<Rightarrow> (h', Inl e) | (h', Inr _) \<Rightarrow> (h', Inl NetCommandFailed))"

text \<open>The two checks differ in when a route counts as taken; each listing is read only when the ones before it were free.\<close>

definition spec_links :: "topologySpec \<Rightarrow> string list" where
  "spec_links spec = [tsp_hostVeth spec, tsp_namespaceVeth spec, tsp_tap spec]"

definition routes_free :: "(Prefix \<Rightarrow> Prefix \<Rightarrow> bool) \<Rightarrow> topologySpec \<Rightarrow> Prefix list \<Rightarrow> Prefix list \<Rightarrow> bool" where
  "routes_free taken spec routes4 routes6 \<longleftrightarrow>
     \<not> list_ex (\<lambda>(routes, p). list_ex (\<lambda>existing. taken existing p) routes)
       [(routes4, tsp_guestNetwork4 spec), (routes4, tsp_uplinkNetwork4 spec), (routes6, tsp_guestNetwork6 spec), (routes6, tsp_uplinkNetwork6 spec)]"

definition spec_free :: "(Prefix \<Rightarrow> Prefix \<Rightarrow> bool) \<Rightarrow> 'h linuxBackend \<Rightarrow> topologySpec \<Rightarrow> 'h \<Rightarrow> 'h \<times> (network_error + bool)" where
  "spec_free taken b spec h0 =
     (case namespaceNames b h0 of (h1, Inl e) \<Rightarrow> (h1, Inl e)
      | (h1, Inr namespaces) \<Rightarrow> if tsp_namespace spec \<in> set namespaces then (h1, Inr False) else
     (case linkNames b [] h1 of (h2, Inl e) \<Rightarrow> (h2, Inl e)
      | (h2, Inr links) \<Rightarrow> if list_ex (\<lambda>name. name \<in> set links) (spec_links spec) then (h2, Inr False) else
     (case routePrefixes b False h2 of (h3, Inl e) \<Rightarrow> (h3, Inl e)
      | (h3, Inr routes4) \<Rightarrow>
     (case routePrefixes b True h3 of (h4, Inl e) \<Rightarrow> (h4, Inl e)
      | (h4, Inr routes6) \<Rightarrow> if \<not> routes_free taken spec routes4 routes6 then (h4, Inr False) else
     (case tableNames b [] h4 of (h5, Inl e) \<Rightarrow> (h5, Inl e)
      | (h5, Inr tables) \<Rightarrow> (h5, Inr ((''inet'', tsp_hostTable spec) \<notin> set tables)))))))"

definition lx_Available :: "'h linuxBackend \<Rightarrow> topologySpec \<Rightarrow> 'h \<Rightarrow> 'h \<times> (network_error + bool)" where
  "lx_Available = spec_free Overlaps"

definition exactResourcesAbsent :: "'h linuxBackend \<Rightarrow> topologySpec \<Rightarrow> 'h \<Rightarrow> 'h \<times> (network_error + bool)" where
  "exactResourcesAbsent = spec_free (=)"

section \<open>Deleting\<close>

text \<open>An object is deleted when the listing names it; a listing that fails is the result.\<close>

definition when_listed :: "('h \<Rightarrow> 'h \<times> (network_error + 'k list)) \<Rightarrow> 'k \<Rightarrow> ('h \<Rightarrow> 'h \<times> network_error option) \<Rightarrow> 'h \<Rightarrow> 'h \<times> network_error option" where
  "when_listed listing key act h =
     (case listing h of (h', Inl e) \<Rightarrow> (h', Some e) | (h', Inr keys) \<Rightarrow> if key \<in> set keys then act h' else (h', None))"

definition lx_DisableEgress :: "'h linuxBackend \<Rightarrow> 'h host_op" where
  "lx_DisableEgress b spec = when_listed (linkNames b []) (tsp_hostVeth spec)
     (stdinSuccess b (nt_IP (lx_paths b)) [''link'', ''set'', tsp_hostVeth spec, ''down''] None)"

definition lx_DeleteHostPolicy :: "'h linuxBackend \<Rightarrow> 'h host_op" where
  "lx_DeleteHostPolicy b spec = when_listed (tableNames b []) (''inet'', tsp_hostTable spec)
     (stdinSuccess b (nt_NFT (lx_paths b)) [''-f'', ''-''] (Some (deleteTableRules (tsp_hostTable spec))))"

definition lx_DeleteNamespacePolicy :: "'h linuxBackend \<Rightarrow> 'h host_op" where
  "lx_DeleteNamespacePolicy b spec = when_listed (namespaceNames b) (tsp_namespace spec)
     (when_listed (tableNames b (tsp_namespace spec)) (''inet'', tsp_namespaceTable spec)
       (namespaceStdinSuccess b (tsp_namespace spec) (nt_NFT (lx_paths b)) [''-f'', ''-''] (Some (deleteTableRules (tsp_namespaceTable spec)))))"

definition lx_DeleteTAP :: "'h linuxBackend \<Rightarrow> 'h host_op" where
  "lx_DeleteTAP b spec = in_turn
     [when_listed (namespaceNames b) (tsp_namespace spec)
        (when_listed (linkNames b (tsp_namespace spec)) (tsp_tap spec)
          (namespaceStdinSuccess b (tsp_namespace spec) (nt_IP (lx_paths b)) [''link'', ''del'', tsp_tap spec] None)),
      when_listed (linkNames b []) (tsp_tap spec) (stdinSuccess b (nt_IP (lx_paths b)) [''link'', ''del'', tsp_tap spec] None)]"

definition lx_DeleteVeth :: "'h linuxBackend \<Rightarrow> 'h host_op" where
  "lx_DeleteVeth b spec = when_listed (linkNames b []) (tsp_hostVeth spec)
     (stdinSuccess b (nt_IP (lx_paths b)) [''link'', ''del'', tsp_hostVeth spec] None)"

definition lx_DeleteNamespace :: "'h linuxBackend \<Rightarrow> 'h host_op" where
  "lx_DeleteNamespace b spec = when_listed (namespaceNames b) (tsp_namespace spec)
     (stdinSuccess b (nt_IP (lx_paths b)) [''netns'', ''del'', tsp_namespace spec] None)"

section \<open>Reading the live policy\<close>

definition auditCounterComments :: "string list" where
  "auditCounterComments = [auditForbiddenIPv4, auditForbiddenIPv6, auditForbiddenDNS, auditForbiddenLANIPv4, auditForbiddenLANIPv6, auditUnrelatedPublic]"

definition zero_counters :: "audit_expr list \<Rightarrow> bool" where
  "zero_counters es \<longleftrightarrow> BadExpr \<notin> set es \<and> filter (\<lambda>e. e \<noteq> OtherExpr) es = [CounterExpr (Some (0, 0))]"

text \<open>The verdict on a rule, and the comment it counts under when it is one of the audit counters.\<close>

definition auditRuleValid :: "audit_rule \<Rightarrow> string \<Rightarrow> (string option) option" where
  "auditRuleValid rule tableName =
     (if ar_Family rule \<noteq> ''inet'' \<or> ar_Table rule \<noteq> tableName then None
      else if ar_Chain rule \<noteq> policyAuditChain then (if has_prefix ''private-vm:audit:'' (ar_Comment rule) then None else Some None)
      else if ar_Comment rule = [] then Some None
      else if ar_Comment rule \<notin> set auditCounterComments then None
      else if zero_counters (ar_Expr rule) then Some (Some (ar_Comment rule)) else None)"

record audit_counts =
  au_metainfo :: nat
  au_tables :: nat
  au_primary :: nat
  au_chains :: nat
  au_sets :: "string list"
  au_counters :: "string list"

definition audit_chain_step :: "string \<Rightarrow> string \<Rightarrow> audit_chain_object \<Rightarrow> audit_counts \<Rightarrow> audit_counts option" where
  "audit_chain_step tableName primaryPolicy c n =
     (if ac_Family c \<noteq> ''inet'' \<or> ac_Table c \<noteq> tableName \<or> ac_Handle c = 0 then None
      else if ac_Name c = ''forward'' then
        (if ac_Type c \<noteq> ''filter'' \<or> ac_Hook c \<noteq> ''forward'' \<or> ac_Prio c \<noteq> 0 \<or> ac_Policy c \<noteq> primaryPolicy then None
         else Some (n\<lparr>au_primary := Suc (au_primary n)\<rparr>))
      else if ac_Name c = policyAuditChain then
        (if ac_Type c \<noteq> ''filter'' \<or> ac_Hook c \<noteq> ''forward'' \<or> ac_Prio c \<noteq> 1 \<or> ac_Policy c \<noteq> ''drop'' then None
         else Some (n\<lparr>au_chains := Suc (au_chains n)\<rparr>))
      else Some n)"

definition audit_step :: "string \<Rightarrow> string \<Rightarrow> audit_object \<Rightarrow> audit_counts \<Rightarrow> audit_counts option" where
  "audit_step tableName primaryPolicy object n =
     (case object of
        Metainfo version release schema \<Rightarrow>
          if version = [] \<or> release = [] \<or> schema \<noteq> 1 then None else Some (n\<lparr>au_metainfo := Suc (au_metainfo n)\<rparr>)
      | SetObject family table name handle \<Rightarrow>
          if family \<noteq> ''inet'' \<or> table \<noteq> tableName \<or> handle = 0 \<or> name \<noteq> ''proton4'' \<and> name \<noteq> ''proton6'' \<or> name \<in> set (au_sets n) then None
          else Some (n\<lparr>au_sets := name # au_sets n\<rparr>)
      | TableObject family name handle comment \<Rightarrow>
          if family \<noteq> ''inet'' \<or> name \<noteq> tableName \<or> handle = 0 \<or> comment \<noteq> policyOwnerComment then None
          else Some (n\<lparr>au_tables := Suc (au_tables n)\<rparr>)
      | ChainObject c \<Rightarrow> audit_chain_step tableName primaryPolicy c n
      | RuleObject rule \<Rightarrow>
          if ar_Handle rule = 0 then None
          else (case auditRuleValid rule tableName of None \<Rightarrow> None | Some None \<Rightarrow> Some n
            | Some (Some comment) \<Rightarrow> Some (n\<lparr>au_counters := comment # au_counters n\<rparr>))
      | UnreadObject \<Rightarrow> None)"

fun audit_objects :: "string \<Rightarrow> string \<Rightarrow> audit_object list \<Rightarrow> audit_counts \<Rightarrow> audit_counts option" where
  "audit_objects tableName primaryPolicy [] n = Some n"
| "audit_objects tableName primaryPolicy (x # xs) n =
     (case audit_step tableName primaryPolicy x n of None \<Rightarrow> None | Some n' \<Rightarrow> audit_objects tableName primaryPolicy xs n')"

definition parsePolicyAudit :: "command_output \<Rightarrow> string \<Rightarrow> string \<Rightarrow> network_error + bool" where
  "parsePolicyAudit value tableName primaryPolicy =
     (if tableName = [] \<or> primaryPolicy \<noteq> ''accept'' \<and> primaryPolicy \<noteq> ''drop'' then Inl NetCommandFailed
      else case value of JsonTable objects \<Rightarrow>
          (case audit_objects tableName primaryPolicy objects \<lparr>au_metainfo = 0, au_tables = 0, au_primary = 0, au_chains = 0, au_sets = [], au_counters = []\<rparr> of
             None \<Rightarrow> Inl NetCommandFailed
           | Some n \<Rightarrow>
               if au_metainfo n \<noteq> 1 \<or> au_tables n \<noteq> 1 \<or> au_primary n \<noteq> 1 \<or> au_chains n \<noteq> 1 \<or> au_sets n = [] then Inl NetCommandFailed
               else if list_ex (\<lambda>comment. count_list (au_counters n) comment \<noteq> 1) auditCounterComments then Inl NetCommandFailed
               else Inr True)
       | _ \<Rightarrow> Inl NetCommandFailed)"

definition auditPolicyTable :: "'h linuxBackend \<Rightarrow> string \<Rightarrow> string \<Rightarrow> string \<Rightarrow> 'h \<Rightarrow> 'h \<times> (network_error + bool)" where
  "auditPolicyTable b namespace tableName primaryPolicy h =
     (case (if namespace = [] then output_of b (nt_NFT (lx_paths b)) [''-j'', ''list'', ''table'', ''inet'', tableName] None h
            else output_of b (nt_IP (lx_paths b))
              [''netns'', ''exec'', namespace, nt_NFT (lx_paths b), ''-j'', ''list'', ''table'', ''inet'', tableName] None h) of
        (h', Inl e) \<Rightarrow> (h', Inl e) | (h', Inr out) \<Rightarrow> (h', parsePolicyAudit out tableName primaryPolicy))"

definition lx_AuditPolicy :: "'h linuxBackend \<Rightarrow> topologySpec \<Rightarrow> 'h \<Rightarrow> 'h \<times> (network_error + PolicyAudit)" where
  "lx_AuditPolicy b spec h =
     (case auditPolicyTable b [] (tsp_hostTable spec) ''accept'' h of
        (h1, Inl e) \<Rightarrow> (h1, Inl (hostBackendError e)) | (h1, Inr False) \<Rightarrow> (h1, Inl NetCommandFailed)
      | (h1, Inr True) \<Rightarrow>
        (case auditPolicyTable b (tsp_namespace spec) (tsp_namespaceTable spec) ''drop'' h1 of
           (h2, Inl e) \<Rightarrow> (h2, Inl (hostBackendError e)) | (h2, Inr False) \<Rightarrow> (h2, Inl NetCommandFailed)
         | (h2, Inr True) \<Rightarrow> (h2, Inr \<lparr>pa_NamespacePolicyPresent = True, pa_HostPolicyPresent = True, pa_ForbiddenEgressZero = True\<rparr>)))"

section \<open>The backend\<close>

definition linux_network :: "'h linuxBackend \<Rightarrow> (topologySpec \<Rightarrow> 'h \<Rightarrow> bool) \<Rightarrow> 'h network_backend" where
  "linux_network b ended =
     \<lparr>nb_Available = lx_Available b, nb_CreateNamespace = lx_CreateNamespace b, nb_CreateVeth = lx_CreateVeth b, nb_ConfigureHost = lx_ConfigureHost b,
      nb_ConfigureNamespace = lx_ConfigureNamespace b, nb_CreateTAP = lx_CreateTAP b ended, nb_ConfigureTAP = lx_ConfigureTAP b,
      nb_ApplyNamespacePolicy = lx_ApplyNamespacePolicy b, nb_ApplyHostPolicy = lx_ApplyHostPolicy b, nb_AuditPolicy = lx_AuditPolicy b,
      nb_DisableEgress = lx_DisableEgress b, nb_DeleteHostPolicy = lx_DeleteHostPolicy b, nb_DeleteNamespacePolicy = lx_DeleteNamespacePolicy b,
      nb_DeleteTAP = lx_DeleteTAP b, nb_DeleteVeth = lx_DeleteVeth b, nb_DeleteNamespace = lx_DeleteNamespace b,
      nb_AuditAbsent = exactResourcesAbsent b, nb_CloseFile = lx_closeFile b\<rparr>"

section \<open>What the readings show\<close>

text \<open>The rules of the audit chain under one comment.\<close>

definition audited_rules :: "string \<Rightarrow> audit_object list \<Rightarrow> audit_rule list" where
  "audited_rules comment objects =
     concat (map (\<lambda>x. case x of RuleObject r \<Rightarrow> if ar_Chain r = policyAuditChain \<and> ar_Comment r = comment then [r] else [] | _ \<Rightarrow> []) objects)"

lemma audit_step_counters:
  assumes "audit_step t p x n = Some n'" "comment \<noteq> []"
  shows "count_list (au_counters n') comment = count_list (au_counters n) comment + length (audited_rules comment [x])"
    and "list_all (\<lambda>r. zero_counters (ar_Expr r)) (audited_rules comment [x])"
  using assms
  by (auto simp: audit_step_def audit_chain_step_def auditRuleValid_def audited_rules_def split: audit_object.splits if_splits option.splits)

lemma audit_objects_counters:
  assumes "audit_objects t p xs n = Some n'" "comment \<noteq> []"
  shows "count_list (au_counters n') comment = count_list (au_counters n) comment + length (audited_rules comment xs) \<and>
    list_all (\<lambda>r. zero_counters (ar_Expr r)) (audited_rules comment xs)"
  using assms(1)
proof (induction xs arbitrary: n)
  case (Cons x xs)
  then obtain k where k: "audit_step t p x n = Some k" "audit_objects t p xs k = Some n'" by (auto split: option.splits)
  have "audited_rules comment (x # xs) = audited_rules comment [x] @ audited_rules comment xs" by (simp add: audited_rules_def)
  then show ?case using Cons.IH [OF k(2)] audit_step_counters [OF k(1) assms(2)] by simp
qed (simp add: audited_rules_def)

lemma audit_accepts_zero:
  assumes "parsePolicyAudit (JsonTable objects) t p = Inr True" "comment \<in> set auditCounterComments"
  shows "\<exists>r. audited_rules comment objects = [r] \<and> zero_counters (ar_Expr r)"
proof -
  have "comment \<noteq> []" using assms(2) by (auto simp: auditCounterComments_def auditForbiddenIPv4_def auditForbiddenIPv6_def auditForbiddenDNS_def
      auditForbiddenLANIPv4_def auditForbiddenLANIPv6_def auditUnrelatedPublic_def)
  obtain n where n: "audit_objects t p objects \<lparr>au_metainfo = 0, au_tables = 0, au_primary = 0, au_chains = 0, au_sets = [], au_counters = []\<rparr> = Some n"
    "count_list (au_counters n) comment = 1"
    using assms by (auto simp: parsePolicyAudit_def list_ex_iff split: if_splits option.splits)
  have "length (audited_rules comment objects) = 1" "list_all (\<lambda>r. zero_counters (ar_Expr r)) (audited_rules comment objects)"
    using audit_objects_counters [OF n(1) \<open>comment \<noteq> []\<close>] n(2) by simp_all
  then show ?thesis by (auto simp: length_Suc_conv)
qed

text \<open>Nothing of a topology was in the listings, each read after the other.\<close>

definition seen_absent :: "'h linuxBackend \<Rightarrow> topologySpec \<Rightarrow> 'h \<Rightarrow> bool" where
  "seen_absent b spec h \<longleftrightarrow>
     (\<exists>h0 h1 h2 h3 h4 namespaces links routes4 routes6 tables.
        namespaceNames b h0 = (h1, Inr namespaces) \<and> tsp_namespace spec \<notin> set namespaces \<and>
        linkNames b [] h1 = (h2, Inr links) \<and> set (spec_links spec) \<inter> set links = {} \<and>
        routePrefixes b False h2 = (h3, Inr routes4) \<and> routePrefixes b True h3 = (h4, Inr routes6) \<and>
        tsp_guestNetwork4 spec \<notin> set routes4 \<and> tsp_uplinkNetwork4 spec \<notin> set routes4 \<and>
        tsp_guestNetwork6 spec \<notin> set routes6 \<and> tsp_uplinkNetwork6 spec \<notin> set routes6 \<and>
        tableNames b [] h4 = (h, Inr tables) \<and> (''inet'', tsp_hostTable spec) \<notin> set tables)"

lemma exactResourcesAbsent_seen: "exactResourcesAbsent b spec h0 = (h, Inr True) \<Longrightarrow> seen_absent b spec h"
  unfolding exactResourcesAbsent_def spec_free_def seen_absent_def
  by (auto simp: routes_free_def spec_links_def list_ex_iff split: prod.splits sum.splits if_splits) blast

end
