(* ===== verification/Host_Network.thy ===== *)
theory Host_Network
  imports Host_Backend
begin

text \<open>
  What a session network guarantees: creation composed with the profile store and the packet programs, the separation
  of sessions under every interleaving, and what a cleanup leaves.
\<close>

section \<open>What a session network lets out\<close>

definition reaches :: "topologySpec \<Rightarrow> resolvedEndpoint list \<Rightarrow> Addr \<Rightarrow> Addr \<Rightarrow> transport \<Rightarrow> bool" where
  "reaches spec endpoints src dst l4 \<longleftrightarrow>
     (\<exists>r \<in> set endpoints. src = guest_of spec (\<not> Is4 (re_address r)) \<and> dst = re_address r \<and> l4 = OverUDP (re_port r))"

lemma policy_egress:
  assumes "collectPolicy (map tuple_for endpoints) = Inr policy"
  shows "leaves_host spec policy out (guest_packet spec src dst l4 tracked) \<longleftrightarrow> reaches spec endpoints src dst l4"
proof -
  have p: "set (np_v4 policy) = {e \<in> tuple_for ` set endpoints. Is4 (et_address e)}" "set (np_v6 policy) = {e \<in> tuple_for ` set endpoints. \<not> Is4 (et_address e)}"
    using collectPolicy_Inr(1) [OF assms] by (simp_all add: policy_of_def)
  have fields: "et_address (tuple_for r) = re_address r" "et_port (tuple_for r) = re_port r" for r by (simp_all add: tuple_for_def)
  have members: "set (if v6 then np_v6 policy else np_v4 policy) = tuple_for ` {r \<in> set endpoints. v6 = (\<not> Is4 (re_address r))}" for v6
  proof (cases v6)
    case True
    have "{e \<in> tuple_for ` set endpoints. \<not> Is4 (et_address e)} = tuple_for ` {r \<in> set endpoints. \<not> Is4 (re_address r)}"
      by (auto simp only: fields image_iff mem_Collect_eq)
    then show ?thesis using p(2) True by simp
  next
    case False
    have "{e \<in> tuple_for ` set endpoints. Is4 (et_address e)} = tuple_for ` {r \<in> set endpoints. Is4 (re_address r)}"
      by (auto simp only: fields image_iff mem_Collect_eq)
    then show ?thesis using p(1) False by simp
  qed
  have inside: "in_policy policy v6 (guest_packet spec src dst l4 tracked) \<longleftrightarrow>
      (\<exists>r \<in> {r \<in> set endpoints. v6 = (\<not> Is4 (re_address r))}. dst = re_address r \<and> l4 = OverUDP (re_port r))" for v6
    unfolding in_policy_def members guest_packet_def bex_simps(7) by (simp only: forwarded.select_convs fields)
  show ?thesis unfolding guest_egress_exact reaches_def inside
  proof
    assume "\<exists>v6. src = guest_of spec v6 \<and> (\<exists>r \<in> {r \<in> set endpoints. v6 = (\<not> Is4 (re_address r))}. dst = re_address r \<and> l4 = OverUDP (re_port r))"
    then obtain v6 r where r: "src = guest_of spec v6" "r \<in> set endpoints" "v6 = (\<not> Is4 (re_address r))" "dst = re_address r" "l4 = OverUDP (re_port r)"
      by (elim exE conjE bexE CollectE)
    show "\<exists>r \<in> set endpoints. src = guest_of spec (\<not> Is4 (re_address r)) \<and> dst = re_address r \<and> l4 = OverUDP (re_port r)"
      by (intro bexI [of _ r] conjI r(1) [unfolded r(3)] r(2,4,5))
  next
    assume "\<exists>r \<in> set endpoints. src = guest_of spec (\<not> Is4 (re_address r)) \<and> dst = re_address r \<and> l4 = OverUDP (re_port r)"
    then obtain r where r: "r \<in> set endpoints" "src = guest_of spec (\<not> Is4 (re_address r))" "dst = re_address r" "l4 = OverUDP (re_port r)"
      by (elim bexE conjE)
    show "\<exists>v6. src = guest_of spec v6 \<and> (\<exists>r \<in> {r \<in> set endpoints. v6 = (\<not> Is4 (re_address r))}. dst = re_address r \<and> l4 = OverUDP (re_port r))"
      by (rule exI [of _ "\<not> Is4 (re_address r)"]) (intro conjI bexI [of _ r] CollectI r refl)
  qed
qed

text \<open>C11: A session network lets the guest reach its VPN endpoints and nothing else.  However networks were created and
  cleaned up before and however the profile store was used, when a creation succeeds the network is ready and both
  programs were applied to its topology; for the policy and topology they were made from, a packet of the guest passes the
  namespace and the host exactly when it carries the guest's own address and is UDP to an address and port the current
  plan of that owner's profile resolved to, all of them public.\<close>

theorem session_network_confines:
  assumes "store_step\<^sup>*\<^sup>* vpn_start y" "CreateNetwork b sha256 cx sid owner name (vy_store y) plan m = (m', Inr i)"
  shows "\<exists>e. map_of (ms_profiles (vy_store y)) (owner, name) = Some e \<and>
    endpoints_for (sp_profile (ms_entries (vy_store y) ! e)) (Endpoints (plan, e) (vy_store y)) \<and>
    nm_states m' sid = Some i \<and> nw_ready (nm_heap m' ! i) \<and>
    (\<exists>g g'. nb_ApplyNamespacePolicy b (nw_policy (nm_heap m' ! i)) (nw_spec (nm_heap m' ! i)) g = (g', None) \<and>
       nb_ApplyHostPolicy b (nw_policy (nm_heap m' ! i)) (nw_spec (nm_heap m' ! i)) g' = (nm_host m', None)) \<and>
    (\<forall>out src dst l4 tracked.
       leaves_host (nw_spec (nm_heap m' ! i)) (nw_policy (nm_heap m' ! i)) out (guest_packet (nw_spec (nm_heap m' ! i)) src dst l4 tracked) \<longleftrightarrow>
       reaches (nw_spec (nm_heap m' ! i)) (Endpoints (plan, e) (vy_store y)) src dst l4)"
proof -
  obtain view policy n fd g g' where c: "UsePlan (cx_store cx) owner name plan (vy_store y) = Inr view"
    "collectPolicy (map tuple_for (Endpoints view (vy_store y))) = Inr policy" "nm_states m' sid = Some i"
    "nm_heap m' ! i = provisioned fd (fresh_state sid owner name plan (candidateFor sha256 sid n) policy)"
    "nb_ApplyNamespacePolicy b policy (candidateFor sha256 sid n) g = (g', None)"
    "nb_ApplyHostPolicy b policy (candidateFor sha256 sid n) g' = (nm_host m', None)"
    by (rule create_ok [OF assms(2)])
  from UsePlan_Inr [OF c(1)] obtain e where e: "map_of (ms_profiles (vy_store y)) (owner, name) = Some e" "view = (plan, e)"
    "sp_plan (ms_entries (vy_store y) ! e) = Some plan" by blast
  have "map_inv (vy_store y)" using vpn_reachable_inv [OF assms(1)] by (simp add: store_inv_def)
  from map_inv_entry [OF this e(1)] e have "endpoints_for (sp_profile (ms_entries (vy_store y) ! e)) (Endpoints (plan, e) (vy_store y))"
    by (simp add: entry_ok_def Endpoints_def)
  moreover have "nw_spec (nm_heap m' ! i) = candidateFor sha256 sid n" "nw_policy (nm_heap m' ! i) = policy" "nw_ready (nm_heap m' ! i)"
    using c(4) by (simp_all add: provisioned_def fresh_state_def)
  moreover have "leaves_host spec policy out (guest_packet spec src dst l4 tracked) \<longleftrightarrow> reaches spec (Endpoints (plan, e) (vy_store y)) src dst l4" for spec out src dst l4 tracked
    using policy_egress [OF c(2)] e(2) by simp
  ultimately show ?thesis using e(1) c(3,5,6) by (intro exI [of _ e] conjI exI [of _ g] exI [of _ g'] allI) simp_all
qed


section \<open>What a cleanup leaves\<close>

text \<open>What the manager relies on: an audit that reports absence is about the host as it is then.\<close>

locale network_kernel =
  fixes b :: "'h network_backend" and absent :: "topologySpec \<Rightarrow> 'h \<Rightarrow> bool"
  assumes audit_absent: "nb_AuditAbsent b spec h = (h', Inr True) \<Longrightarrow> absent spec h'"
begin

lemma cleanup_done:
  assumes "cleanupState b ended i m = (m', None)"
  shows "absent (nw_spec (nm_heap m ! i)) (nm_host m')"
  using assms
proof (cases rule: cleanupState_cases)
  case (2 g h st)
  then show ?thesis using audit_absent by (simp add: forget_def Let_def)
qed simp

text \<open>A creation that failed and was cleaned up: the maps are as before and the new state's topology is absent.\<close>

lemma failed_creation:
  assumes "CreateNetwork b sha256 cx sid owner name profiles plan m = (m', Inl e)" "e \<noteq> NetCleanupIncomplete"
  shows "nm_states m' = nm_states m \<and> nm_reservations m' = nm_reservations m \<and> nm_names m' = nm_names m \<and>
    (\<forall>i < length (nm_heap m'). length (nm_heap m) \<le> i \<longrightarrow> absent (nw_spec (nm_heap m' ! i)) (nm_host m'))"
  using assms(1)
proof (cases rule: CreateNetwork_cases)
  case (2 view x)
  from 2(2) show ?thesis
  proof (cases rule: create_body_cases)
    case (2 y policy)
    from 2(2) show ?thesis unfolding reserve_def by (cases rule: reserve_from_cases) auto
  qed auto
next
  case (3 view m1 j x)
  note outer = 3
  from 3(2) show ?thesis
  proof (cases rule: create_body_cases)
    case (3 k y policy mr)
    then have k: "k = j" by simp
    from 3(2) have fresh: "\<exists>h n. j = length (nm_heap m) \<and> mr = insert_state (fresh_state sid owner name plan (candidateFor sha256 sid n) policy) (m\<lparr>nm_host := h\<rparr>) \<and>
        nm_states m sid = None \<and> nm_reservations m (tsp_slot (candidateFor sha256 sid n)) = None \<and> nm_names m (tsp_namespace (candidateFor sha256 sid n)) = None"
      unfolding k reserve_def by (cases rule: reserve_from_cases) (auto simp: fresh_state_def)
    then obtain h n where mr: "j = length (nm_heap m)" "mr = insert_state (fresh_state sid owner name plan (candidateFor sha256 sid n) policy) (m\<lparr>nm_host := h\<rparr>)"
      "nm_states m sid = None" "nm_reservations m (tsp_slot (candidateFor sha256 sid n)) = None" "nm_names m (tsp_namespace (candidateFor sha256 sid n)) = None"
      by blast
    obtain st g where m1: "m1 = mr\<lparr>nm_heap := (nm_heap mr)[j := st], nm_host := g\<rparr>"
      and run: "provision b (cx_ready cx) (nm_heap mr ! j, nm_host mr) = ((st, g), Some y)"
      using 3(3) k by (auto simp: on_network_def split: prod.splits)
    have st: "nw_sessionID st = sid" "nw_spec st = candidateFor sha256 sid n"
      using provision_failed(1) [OF run] mr(1,2) by (simp_all add: identity_def insert_state_def fresh_state_def)
    obtain c where run: "cleanupState b (cx_cleanup cx) j m1 = (m', c)" using outer(3) by (metis prod.collapse)
    from run show ?thesis
    proof (cases rule: cleanupState_cases)
      case (1 z)
      then show ?thesis using outer(4) run assms(2) by simp
    next
      case (2 z z' st')
      have "absent (candidateFor sha256 sid n) (nm_host m')"
        using cleanup_done [of "cx_cleanup cx" j m1 m'] run 2(1) m1 mr st by (simp add: insert_state_def)
      then show ?thesis using 2 m1 mr st
        by (auto simp: forget_def Let_def insert_state_def fresh_state_def identity_def nth_append less_Suc_eq fun_upd_idem_iff)
    qed
  qed auto
qed auto

end

interpretation host: network_kernel "linux_network lx ended" "seen_absent lx" for lx ended
  by unfold_locales (simp add: linux_network_def exactResourcesAbsent_seen)

text \<open>C40: A creation that fails leaves nothing behind.  With the Linux backend over any programs and host, when a creation
  fails with anything but an incomplete cleanup, no session, slot or name is registered that was not before, and of a
  topology it had begun the namespace, the links, the routes and the host's table were all read back as absent.\<close>

theorem failed_creation_leaves_nothing:
  assumes "CreateNetwork (linux_network lx ended) sha256 cx sid owner name profiles plan m = (m', Inl e)" "e \<noteq> NetCleanupIncomplete"
  shows "nm_states m' = nm_states m \<and> nm_reservations m' = nm_reservations m \<and> nm_names m' = nm_names m \<and>
    (\<forall>i < length (nm_heap m'). length (nm_heap m) \<le> i \<longrightarrow> seen_absent lx (nw_spec (nm_heap m' ! i)) (nm_host m'))"
  using assms by (rule host.failed_creation)

section \<open>Examples\<close>

definition quiet_backend :: "unit network_backend" where
  "quiet_backend = (let ok = (\<lambda>_ h. (h, None)) in
     \<lparr>nb_Available = \<lambda>_ h. (h, Inr True), nb_CreateNamespace = ok, nb_CreateVeth = ok, nb_ConfigureHost = ok, nb_ConfigureNamespace = ok,
      nb_CreateTAP = \<lambda>_ h. (h, Inr 3), nb_ConfigureTAP = ok, nb_ApplyNamespacePolicy = \<lambda>_. ok, nb_ApplyHostPolicy = \<lambda>_. ok,
      nb_AuditPolicy = \<lambda>_ h. (h, Inl NetCommandFailed), nb_DisableEgress = ok, nb_DeleteHostPolicy = ok, nb_DeleteNamespacePolicy = ok,
      nb_DeleteTAP = ok, nb_DeleteVeth = ok, nb_DeleteNamespace = ok, nb_AuditAbsent = \<lambda>_ h. (h, Inr True), nb_CloseFile = \<lambda>_ h. (h, False)\<rparr>)"

definition quiet_context :: create_context where
  "quiet_context = \<lparr>cx_store = False, cx_endpoint = \<lambda>_. False, cx_attempt = \<lambda>_. False, cx_ready = False, cx_cleanup = False\<rparr>"

definition example_endpoints :: endpointPolicy where
  "example_endpoints = \<lparr>np_v4 = [tuple_for example_endpoint], np_v6 = []\<rparr>"

lemma example_collected: "collectPolicy (map tuple_for [example_endpoint]) = Inr example_endpoints"
proof -
  have "endpoint_usable (tuple_for example_endpoint)" using public_example
    by (simp add: endpoint_usable_def tuple_for_def example_endpoint_def publicEndpointAddress_def Zone_def)
  moreover have "Is4 (et_address (tuple_for example_endpoint))" by (simp add: tuple_for_def example_endpoint_def Is4_def)
  ultimately show ?thesis by (simp add: collectPolicy_def maximumEndpointTuples_def example_endpoints_def sort_tuples_def)
qed

lemma quiet_provision:
  "provision quiet_backend False (st, h) = ((provisioned 3 st, h), None)"
  by (simp add: provision_def provision_steps_def attempt_op_def attempt_tap_def quiet_backend_def provisioned_def Let_def)

lemma host_unit [simp]: "(m :: unit net_manager)\<lparr>nm_host := ()\<rparr> = m"
  by (cases m) simp

lemma quiet_create:
  assumes "ValidateID sid = None" "nm_states m sid = None" "nm_reservations m (tsp_slot (candidateFor sha256 sid 0)) = None"
    "nm_names m (tsp_namespace (candidateFor sha256 sid 0)) = None"
  shows "CreateNetwork quiet_backend sha256 quiet_context sid 1000 ''home'' example_store 0 m =
    (insert_state (provisioned 3 (fresh_state sid 1000 ''home'' 0 (candidateFor sha256 sid 0) example_endpoints)) m, Inr (length (nm_heap m)))"
proof -
  let ?st = "fresh_state sid 1000 ''home'' 0 (candidateFor sha256 sid 0) example_endpoints"
  have u: "UsePlan False 1000 ''home'' 0 example_store = Inr (0, 0)"
    by (simp add: UsePlan_def example_store_def example_stored_def example_name)
  have e: "Endpoints (0, 0) example_store = [example_endpoint]" by (simp add: Endpoints_def example_store_def)
  have g: "gather (\<lambda>_. False) [example_endpoint] [] = Inr (map tuple_for [example_endpoint])"
    by (simp add: maximumEndpointTuples_def tuple_for_def)
  have "[0..<maximumAllocationAttempts] = 0 # [1..<maximumAllocationAttempts]"
    by (simp add: maximumAllocationAttempts_def upt_conv_Cons del: upt_Suc)
  then have r: "reserve quiet_backend sha256 (\<lambda>_. False) sid 1000 ''home'' 0 example_endpoints m = (insert_state ?st m, Inr (length (nm_heap m)))"
    using assms by (simp add: reserve_def quiet_backend_def Let_def set_to_def fresh_state_def)
  have p: "on_network (length (nm_heap m)) (provision quiet_backend False) (insert_state ?st m) = (insert_state (provisioned 3 ?st) m, None)"
    by (simp add: on_network_def quiet_provision insert_state_def provisioned_def fresh_state_def)
  show ?thesis using assms(1,2) u e g r p example_collected
    by (simp add: CreateNetwork_def create_body_def quiet_context_def del: gather.simps)
qed

definition example_sid :: string where "example_sid = ''pvm-0123456789abcdef0123456789abcdef''"
definition other_sid :: string where "other_sid = ''pvm-fedcba9876543210fedcba9876543210''"

definition example_sha256 :: "string \<Rightarrow> u8 list" where
  "example_sha256 s = (let c = of_char (s ! 4) in replicate 5 c @ [0, c] @ replicate 25 0)"

lemma example_sids: "ValidateID example_sid = None" "ValidateID other_sid = None" "example_sid \<noteq> other_sid"
  by code_simp+

lemma example_fourth: "(example_sid @ rest) ! 4 = CHR ''0''" "(other_sid @ rest) ! 4 = CHR ''f''"
  by (simp_all add: example_sid_def other_sid_def)

lemma example_digests: "example_sha256 (example_sid @ rest) = replicate 5 48 @ [0, 48] @ replicate 25 0"
  "example_sha256 (other_sid @ rest) = replicate 5 102 @ [0, 102] @ replicate 25 0"
  unfolding example_sha256_def example_fourth Let_def by simp_all

lemma example_bytes: "take 5 (replicate 5 c @ xs) = replicate 5 c" "(replicate 5 c @ [x, y] @ xs) ! 5 = x" "(replicate 5 c @ [x, y] @ xs) ! 6 = y"
  by (simp_all add: nth_append)

lemma candidate_slot: "tsp_slot (candidateFor sha256 sid n) = slot_of (sha256 (sid @ '':'' @ show_base 10 n))"
  unfolding candidateFor_def Let_def topologySpec.select_convs ..

lemma candidate_namespace: "tsp_namespace (candidateFor sha256 sid n) = ''pvmn-'' @ hex_text (take 5 (sha256 (sid @ '':'' @ show_base 10 n)))"
  unfolding candidateFor_def Let_def topologySpec.select_convs ..

lemma hex_fives: "hex_text (replicate 5 48) = ''3030303030''" "hex_text (replicate 5 102) = ''6666666666''"
  by code_simp+

lemma example_slots: "tsp_slot (candidateFor example_sha256 example_sid 0) \<noteq> tsp_slot (candidateFor example_sha256 other_sid 0)"
  "tsp_namespace (candidateFor example_sha256 example_sid 0) \<noteq> tsp_namespace (candidateFor example_sha256 other_sid 0)"
  unfolding candidate_slot candidate_namespace example_digests slot_of_def example_bytes hex_fives by simp_all

definition example_network :: "unit net_manager" where
  "example_network = insert_state (provisioned 3 (fresh_state example_sid 1000 ''home'' 0 (candidateFor example_sha256 example_sid 0) example_endpoints)) (newManager ())"

definition two_networks :: "unit net_manager" where
  "two_networks = insert_state (provisioned 3 (fresh_state other_sid 1000 ''home'' 0 (candidateFor example_sha256 other_sid 0) example_endpoints)) example_network"

lemma example_network_created:
  "CreateNetwork quiet_backend example_sha256 quiet_context example_sid 1000 ''home'' example_store 0 (newManager ()) = (example_network, Inr 0)"
  using quiet_create [of example_sid "newManager ()" example_sha256] example_sids by (simp add: newManager_def example_network_def)

lemma two_networks_created:
  "CreateNetwork quiet_backend example_sha256 quiet_context other_sid 1000 ''home'' example_store 0 example_network = (two_networks, Inr 1)"
  using quiet_create [of other_sid example_network example_sha256] example_sids example_slots
  by (simp add: two_networks_def example_network_def insert_state_def newManager_def provisioned_def fresh_state_def)

theorem session_network_confines_witness:
  "CreateNetwork quiet_backend example_sha256 quiet_context example_sid 1000 ''home'' example_store 0 (newManager ()) = (example_network, Inr 0) \<and>
   leaves_host (nw_spec (nm_heap example_network ! 0)) (nw_policy (nm_heap example_network ! 0)) ''eth0''
     (guest_packet (nw_spec (nm_heap example_network ! 0)) (guest_of (nw_spec (nm_heap example_network ! 0)) False) (Addr4 0x01010101) (OverUDP 51820) False) \<and>
   \<not> leaves_host (nw_spec (nm_heap example_network ! 0)) (nw_policy (nm_heap example_network ! 0)) ''eth0''
     (guest_packet (nw_spec (nm_heap example_network ! 0)) (guest_of (nw_spec (nm_heap example_network ! 0)) False) (Addr4 0x01010101) (OverUDP 53) False)"
proof -
  have "CreateNetwork quiet_backend example_sha256 quiet_context example_sid 1000 ''home'' (vy_store \<lparr>vy_store = example_store, vy_pending = []\<rparr>) 0 (newManager ()) =
      (example_network, Inr 0)" using example_network_created by simp
  from session_network_confines [OF example_store_reachable this] obtain e where
    "map_of (ms_profiles example_store) (1000, ''home'') = Some e"
    "\<forall>out src dst l4 tracked.
       leaves_host (nw_spec (nm_heap example_network ! 0)) (nw_policy (nm_heap example_network ! 0)) out (guest_packet (nw_spec (nm_heap example_network ! 0)) src dst l4 tracked) \<longleftrightarrow>
       reaches (nw_spec (nm_heap example_network ! 0)) (Endpoints (0, e) example_store) src dst l4" by auto
  then show ?thesis using example_network_created
    by (simp add: example_store_def Endpoints_def reaches_def example_endpoint_def Is4_def)
qed


text \<open>A host with nothing on it, whose tools refuse to add anything.\<close>

definition bare_host :: "unit linuxBackend" where
  "bare_host = \<lparr>lx_paths = \<lparr>nt_IP = ''/ip'', nt_NFT = ''/nft'', nt_Sysctl = ''/sysctl'', nt_Tun = ''/dev/net/tun''\<rparr>,
     lx_runner = \<lambda>cmd h. (h, Inr \<lparr>nr_stdout = if ''-j'' \<in> set (nx_args cmd) then JsonNames [] else PlainText [],
       nr_exitCode = if ''add'' \<in> set (nx_args cmd) then 1 else 0\<rparr>),
     lx_openTAP = \<lambda>_ _ h. (h, Inl NetBackendUnavailable), lx_closeFile = \<lambda>_ h. (h, False)\<rparr>"

lemma bare_output: "output_of bare_host p args stdin h =
   (h, if p \<notin> {''/ip'', ''/nft'', ''/sysctl''} \<or> ''add'' \<in> set args then Inl NetCommandFailed
       else Inr (if ''-j'' \<in> set args then JsonNames [] else PlainText []))"
  by (simp add: output_of_def run_tool_def bare_host_def hostBackendError_def)

lemma bare_paths: "nt_IP (lx_paths bare_host) = ''/ip''" "nt_NFT (lx_paths bare_host) = ''/nft''"
  by (simp_all add: bare_host_def)

lemma bare_listings: "namespaceNames bare_host h = (h, Inr [])" "linkNames bare_host [] h = (h, Inr [])"
    "routePrefixes bare_host v6 h = (h, Inr [])" "tableNames bare_host [] h = (h, Inr [])"
  by (simp_all add: namespaceNames_def linkNames_def routePrefixes_def tableNames_def bare_output bare_paths text_fields_def)

lemma bare_free: "spec_free taken bare_host spec h = (h, Inr True)"
  by (simp add: spec_free_def bare_listings routes_free_def spec_links_def)

lemma bare_create:
  "\<exists>m'. CreateNetwork (linux_network bare_host (\<lambda>_ _. False)) example_sha256 quiet_context example_sid 1000 ''home'' example_store 0 (newManager ()) =
     (m', Inl NetTopologyFailed) \<and> length (nm_heap m') = 1"
proof -
  let ?b = "linux_network bare_host (\<lambda>_ _. False)" and ?spec = "candidateFor example_sha256 example_sid 0"
  let ?st = "fresh_state example_sid 1000 ''home'' 0 ?spec example_endpoints" and ?m = "newManager ()"
  have u: "UsePlan False 1000 ''home'' 0 example_store = Inr (0, 0)"
    by (simp add: UsePlan_def example_store_def example_stored_def example_name)
  have e: "Endpoints (0, 0) example_store = [example_endpoint]" by (simp add: Endpoints_def example_store_def)
  have g: "gather (\<lambda>_. False) [example_endpoint] [] = Inr (map tuple_for [example_endpoint])"
    by (simp add: maximumEndpointTuples_def tuple_for_def)
  have "[0..<maximumAllocationAttempts] = 0 # [1..<maximumAllocationAttempts]"
    by (simp add: maximumAllocationAttempts_def upt_conv_Cons del: upt_Suc)
  then have r: "reserve ?b example_sha256 (\<lambda>_. False) example_sid 1000 ''home'' 0 example_endpoints ?m = (insert_state ?st ?m, Inr 0)"
    by (simp add: reserve_def linux_network_def lx_Available_def bare_free set_to_def newManager_def fresh_state_def)
  have p: "provision ?b False (?st, ()) = ((?st\<lparr>nw_namespaceAttempted := True\<rparr>, ()), Some NetTopologyFailed)"
    by (simp add: provision_def provision_steps_def attempt_op_def linux_network_def lx_CreateNamespace_def stdinSuccess_def bare_output topologyFailed_def)
  have o: "on_network 0 (provision ?b False) (insert_state ?st ?m) = (insert_state (?st\<lparr>nw_namespaceAttempted := True\<rparr>) ?m, Some NetTopologyFailed)"
    using p by (simp add: on_network_def insert_state_def newManager_def fresh_state_def)
  have t: "teardown ?b (?st\<lparr>nw_namespaceAttempted := True\<rparr>) () = ((), 0)"
    by (simp add: teardown_def cleanup_op_def close_tap_def fresh_state_def linux_network_def lx_DeleteNamespace_def when_listed_def bare_listings)
  have c: "\<exists>m'. cleanupState ?b False 0 (insert_state (?st\<lparr>nw_namespaceAttempted := True\<rparr>) ?m) = (m', None) \<and> length (nm_heap m') = 1"
    using t by (simp add: cleanupState_def insert_state_def newManager_def linux_network_def exactResourcesAbsent_def bare_free forget_def Let_def)
  have body: "create_body ?b example_sha256 quiet_context example_sid 1000 ''home'' 0 [example_endpoint] ?m =
      (insert_state (?st\<lparr>nw_namespaceAttempted := True\<rparr>) ?m, Inl (Some 0, NetTopologyFailed))"
    using g r o example_collected by (simp add: create_body_def quiet_context_def del: gather.simps)
  show ?thesis using c u e body example_sids(1)
    by (auto simp: CreateNetwork_def quiet_context_def newManager_def normalizeCreateError_def)
qed

theorem failed_creation_leaves_nothing_witness:
  "\<exists>m'. CreateNetwork (linux_network bare_host (\<lambda>_ _. False)) example_sha256 quiet_context example_sid 1000 ''home'' example_store 0 (newManager ()) =
     (m', Inl NetTopologyFailed) \<and> nm_states m' example_sid = None \<and> length (nm_heap m') = 1 \<and>
     seen_absent bare_host (nw_spec (nm_heap m' ! 0)) (nm_host m')"
proof -
  obtain m' where m': "CreateNetwork (linux_network bare_host (\<lambda>_ _. False)) example_sha256 quiet_context example_sid 1000 ''home'' example_store 0 (newManager ()) =
     (m', Inl NetTopologyFailed)" "length (nm_heap m') = 1" using bare_create by blast
  from failed_creation_leaves_nothing [OF m'(1)] m' show ?thesis by (auto simp: newManager_def)
qed

section \<open>Limits\<close>

text \<open>
  A cleanup that could not sever the pair goes on to delete the packet filter.  The host here is whether the pair is up
  and whether the session's table is loaded.
\<close>

definition stuck_backend :: "(bool \<times> bool) network_backend" where
  "stuck_backend = (let ok = (\<lambda>_ h. (h, None)) in
     \<lparr>nb_Available = \<lambda>_ h. (h, Inr True), nb_CreateNamespace = ok, nb_CreateVeth = \<lambda>_ h. ((True, snd h), None), nb_ConfigureHost = ok, nb_ConfigureNamespace = ok,
      nb_CreateTAP = \<lambda>_ h. (h, Inr 3), nb_ConfigureTAP = ok, nb_ApplyNamespacePolicy = \<lambda>_. ok, nb_ApplyHostPolicy = \<lambda>_ _ h. ((fst h, True), None),
      nb_AuditPolicy = \<lambda>_ h. (h, Inl NetCommandFailed), nb_DisableEgress = \<lambda>_ h. (h, Some NetCommandFailed),
      nb_DeleteHostPolicy = \<lambda>_ h. ((fst h, False), None), nb_DeleteNamespacePolicy = ok,
      nb_DeleteTAP = ok, nb_DeleteVeth = \<lambda>_ h. (h, Some NetCommandFailed), nb_DeleteNamespace = ok, nb_AuditAbsent = \<lambda>_ h. (h, Inr False),
      nb_CloseFile = \<lambda>_ h. (h, False)\<rparr>)"

lemma unsevered_cleanup_drops_filter:
  assumes "nm_host m = (True, True)" "nw_vethAttempted (nm_heap m ! i)" "nw_hostPolicyAttempted (nm_heap m ! i)"
  shows "\<exists>m'. cleanupState stuck_backend False i m = (m', Some NetCleanupIncomplete) \<and> nm_host m' = (True, False)"
  using assms
  by (cases "nw_tapFile (nm_heap m ! i)")
    (auto simp: cleanupState_def teardown_def cleanup_op_def close_tap_def stuck_backend_def Let_def)

text \<open>
  A cleanup that reached its state before another one finished runs after it.  When the session has a new network in
  the same slot by then, the slot of the new network is released.
\<close>

lemma stale_cleanup_frees_slot:
  assumes "cleanupState b ended i m = (m', None)" "nm_states m sid = Some j" "i \<noteq> j" "identity (nm_heap m ! i) = identity (nm_heap m ! j)"
    "nw_sessionID (nm_heap m ! j) = sid" "nm_reservations m (tsp_slot (nw_spec (nm_heap m ! j))) = Some sid"
  shows "nm_states m' sid = Some j" "nm_reservations m' (tsp_slot (nw_spec (nm_heap m ! j))) = None"
proof -
  have same: "nw_sessionID (nm_heap m ! i) = sid" "nw_spec (nm_heap m ! i) = nw_spec (nm_heap m ! j)" using assms(4,5) by (simp_all add: identity_def)
  have "nm_states m' sid = Some j \<and> nm_reservations m' (tsp_slot (nw_spec (nm_heap m ! j))) = None" using assms(1)
  proof (cases rule: cleanupState_cases)
    case (2 g h st)
    then show ?thesis using same assms(2,3,6) by (simp add: forget_def Let_def)
  qed simp
  then show "nm_states m' sid = Some j" "nm_reservations m' (tsp_slot (nw_spec (nm_heap m ! j))) = None" by simp_all
qed

end
