(* ===== verification/Guest_VPN.thy ===== *)
theory Guest_VPN
  imports VPN_Profile Session_Model
begin

text \<open>
  The guest side of the VPN: role policy, underlay contract and proof of
  \<^verbatim>\<open>internal/guestvpn/model.go\<close>, the rule and command texts of \<^verbatim>\<open>policy.go\<close>, the kernel mutations of
  \<^verbatim>\<open>backend.go\<close> and the probe sequence of \<^verbatim>\<open>verifier.go\<close>.  The programs \<^verbatim>\<open>nft\<close>, \<^verbatim>\<open>ip\<close> and \<^verbatim>\<open>wg\<close>, the
  resolver service and the probes are functions the backend and the verifier are given.  Receivers,
  contexts and arguments that are nil are not represented.
\<close>

section \<open>Errors, policy, underlay, proof\<close>

datatype guestvpn_error = ErrInvalidRequest | ErrKillSwitchFailed | ErrConfigurationFailed | ErrVerificationFailed
  | ErrTunnelLost | ErrVPNCleanupIncomplete | ErrGuestContext | ErrGuestProfile vpn_error | ErrGuestCommand

definition isContextError :: "guestvpn_error \<Rightarrow> bool" where
  "isContextError e \<longleftrightarrow> e = ErrGuestContext \<or> e = ErrGuestProfile vpn_error.ErrContext"

definition failed_as :: "guestvpn_error \<Rightarrow> guestvpn_error \<Rightarrow> guestvpn_error" where
  "failed_as e cause = (if isContextError cause then cause else e)"

datatype vpn_state = StateUnconfigured | StateKillSwitchArmed | StateConfigured | StateVerified | StateDegraded | StateStopped

record RolePolicy =
  po_Role :: role
  po_ScannerUpdate :: bool
  po_RequireTorrentBinding :: bool
  po_RequireIPv6Tunnel :: bool

definition policy_validate :: "RolePolicy \<Rightarrow> guestvpn_error option" where
  "policy_validate policy =
     (case po_Role policy of RoleWorkstation \<Rightarrow> None
      | RoleDownloader \<Rightarrow> if \<not> po_RequireTorrentBinding policy then Some ErrInvalidRequest else None
      | RoleScanner \<Rightarrow> if \<not> po_ScannerUpdate policy \<or> po_RequireTorrentBinding policy then Some ErrInvalidRequest else None
      | _ \<Rightarrow> Some ErrInvalidRequest)"

record Underlay =
  un_IPv4Address :: Prefix
  un_IPv4Gateway :: Addr
  un_IPv6Address :: Prefix
  un_IPv6Gateway :: Addr

definition underlay_validate :: "Underlay \<Rightarrow> guestvpn_error option" where
  "underlay_validate u =
     (if \<not> prefix_valid (un_IPv4Address u) \<or> \<not> Is4 (pf_Addr (un_IPv4Address u)) \<or> pf_Bits (un_IPv4Address u) \<noteq> 30 \<or>
        \<not> Is4 (un_IPv4Gateway u) \<or> \<not> Contains (un_IPv4Address u) (un_IPv4Gateway u) \<or>
        \<not> prefix_valid (un_IPv6Address u) \<or> \<not> Is6 (pf_Addr (un_IPv6Address u)) \<or> pf_Bits (un_IPv6Address u) \<noteq> 126 \<or>
        \<not> Is6 (un_IPv6Gateway u) \<or> \<not> Contains (un_IPv6Address u) (un_IPv6Gateway u) \<or>
        pf_Addr (un_IPv4Address u) = un_IPv4Gateway u \<or> pf_Addr (un_IPv6Address u) = un_IPv6Gateway u
      then Some ErrInvalidRequest else None)"

record Proof =
  pr_Handshake :: bool
  pr_DNSThroughTunnel :: bool
  pr_DNSBypassBlocked :: bool
  pr_IPv4ThroughTunnel :: bool
  pr_IPv6ThroughTunnel :: bool
  pr_IPv4BypassBlocked :: bool
  pr_IPv6BypassBlocked :: bool
  pr_TorrentBound :: bool

definition no_proof :: Proof where
  "no_proof = \<lparr>pr_Handshake = False, pr_DNSThroughTunnel = False, pr_DNSBypassBlocked = False, pr_IPv4ThroughTunnel = False,
     pr_IPv6ThroughTunnel = False, pr_IPv4BypassBlocked = False, pr_IPv6BypassBlocked = False, pr_TorrentBound = False\<rparr>"

definition proof_complete :: "bool \<Rightarrow> bool \<Rightarrow> Proof \<Rightarrow> bool" where
  "proof_complete requireIPv6 requireTorrent p \<longleftrightarrow>
     pr_Handshake p \<and> pr_DNSThroughTunnel p \<and> pr_DNSBypassBlocked p \<and> pr_IPv4ThroughTunnel p \<and> pr_IPv4BypassBlocked p \<and>
     pr_IPv6BypassBlocked p \<and> (\<not> requireIPv6 \<or> pr_IPv6ThroughTunnel p) \<and> (\<not> requireTorrent \<or> pr_TorrentBound p)"

section \<open>Rule and command texts\<close>

definition UnderlayInterface :: string where "UnderlayInterface = ''eth0''"
definition TunnelInterface :: string where "TunnelInterface = ''proton0''"
definition guestCommandInputLimit :: nat where "guestCommandInputLimit = 64 * 1024"

definition quoted :: "string \<Rightarrow> string" where "quoted s = [CHR 0x22] @ s @ [CHR 0x22]"
definition text_of_lines :: "string list \<Rightarrow> string" where
  "text_of_lines ls = concat (map (\<lambda>l. l @ [line_break]) ls)"

definition neighbour_rule :: string where
  "neighbour_rule = '' meta l4proto ipv6-icmp icmpv6 type { nd-neighbor-solicit, nd-neighbor-advert } accept''"

definition endpoint_rule :: "Addr \<Rightarrow> u16 \<Rightarrow> string" where
  "endpoint_rule address port =
     ''  oifname '' @ quoted UnderlayInterface @ '' '' @ (if Is6 address then ''ip6'' else ''ip'') @ '' daddr '' @ AppendTo address @
     '' udp dport '' @ show_base 10 (unat port) @ '' accept''"

definition guest_table :: "Addr \<Rightarrow> u16 \<Rightarrow> string" where
  "guest_table address port = text_of_lines
     [''table inet private_vm_guest {'',
      '' chain input {'',
      ''  type filter hook input priority filter; policy drop;'',
      ''  iifname '' @ quoted ''lo'' @ '' accept'',
      ''  ct state { established, related } accept'',
      ''  iifname '' @ quoted TunnelInterface @ '' accept'',
      ''  iifname '' @ quoted UnderlayInterface @ neighbour_rule,
      '' }'',
      '' chain forward { type filter hook forward priority filter; policy drop; }'',
      '' chain output {'',
      ''  type filter hook output priority filter; policy drop;'',
      ''  oifname '' @ quoted ''lo'' @ '' accept'',
      ''  oifname '' @ quoted TunnelInterface @ '' accept'',
      ''  oifname '' @ quoted UnderlayInterface @ neighbour_rule,
      endpoint_rule address port,
      '' }'',
      ''}'']"

definition killSwitchRules :: "bool \<Rightarrow> profileState \<Rightarrow> guestvpn_error + string" where
  "killSwitchRules cancelled setup =
     (case SetupEndpoint setup of (address, port) \<Rightarrow>
        if cancelled \<or> address = AddrNone \<or> Is4In6 address \<or> port = 0 then Inl ErrInvalidRequest
        else if guestCommandInputLimit < length (guest_table address port) then Inl ErrInvalidRequest
        else Inr (guest_table address port))"

definition underlayCommands :: "bool \<Rightarrow> Underlay \<Rightarrow> profileState \<Rightarrow> guestvpn_error + string" where
  "underlayCommands cancelled underlay setup =
     (case SetupEndpoint setup of (address, port) \<Rightarrow>
        let commands = text_of_lines
          [''address flush dev '' @ UnderlayInterface @ '' scope global'',
           ''address add '' @ prefix_text (un_IPv4Address underlay) @ '' dev '' @ UnderlayInterface,
           ''address add '' @ prefix_text (un_IPv6Address underlay) @ '' dev '' @ UnderlayInterface,
           ''link set '' @ UnderlayInterface @ '' up'',
           ''route replace '' @ prefix_text \<lparr>pf_Addr = address, pf_Bits = BitLen address\<rparr> @ '' via '' @
             AppendTo (if Is4 address then un_IPv4Gateway underlay else un_IPv6Gateway underlay) @ '' dev '' @ UnderlayInterface] in
        if cancelled \<or> address = AddrNone \<or> Is4In6 address \<or> guestCommandInputLimit < length commands
        then Inl ErrInvalidRequest else Inr commands)"

definition tunnelCommands :: "bool \<Rightarrow> profileState \<Rightarrow> guestvpn_error + string" where
  "tunnelCommands cancelled setup =
     (let addresses = ps_addresses setup;
          commands = text_of_lines (map (\<lambda>p. ''address add '' @ prefix_text p @ '' dev '' @ TunnelInterface) addresses @
            [''link set '' @ TunnelInterface @ '' up'', ''route replace default dev '' @ TunnelInterface,
             ''-6 route replace default dev '' @ TunnelInterface]) in
      if addresses = [] \<or> cancelled \<or> 8 < length addresses \<or> list_ex (\<lambda>p. \<not> prefix_valid p) addresses \<or>
        guestCommandInputLimit < length commands
      then Inl ErrInvalidRequest else Inr commands)"

section \<open>What the kill switch lets out\<close>

text \<open>The output chain as a list of accepting rules behind a dropping policy, and packets on it.\<close>

datatype l4 = Udp u16 | NeighbourDiscovery | OtherProtocol

record packet =
  pk_oif :: string
  pk_daddr :: Addr
  pk_l4 :: l4

datatype output_rule = AcceptInterface string | AcceptNeighbours string | AcceptEndpoint string Addr u16

definition rule_line :: "output_rule \<Rightarrow> string" where
  "rule_line r =
     (case r of AcceptInterface i \<Rightarrow> ''  oifname '' @ quoted i @ '' accept''
      | AcceptNeighbours i \<Rightarrow> ''  oifname '' @ quoted i @ neighbour_rule
      | AcceptEndpoint i address port \<Rightarrow>
          ''  oifname '' @ quoted i @ '' '' @ (if Is6 address then ''ip6'' else ''ip'') @ '' daddr '' @ AppendTo address @
          '' udp dport '' @ show_base 10 (unat port) @ '' accept'')"

definition rule_accepts :: "packet \<Rightarrow> output_rule \<Rightarrow> bool" where
  "rule_accepts p r =
     (case r of AcceptInterface i \<Rightarrow> pk_oif p = i
      | AcceptNeighbours i \<Rightarrow> pk_oif p = i \<and> pk_l4 p = NeighbourDiscovery
      | AcceptEndpoint i address port \<Rightarrow> pk_oif p = i \<and> pk_daddr p = address \<and> pk_l4 p = Udp port)"

definition output_rules :: "Addr \<Rightarrow> u16 \<Rightarrow> output_rule list" where
  "output_rules address port =
     [AcceptInterface ''lo'', AcceptInterface TunnelInterface, AcceptNeighbours UnderlayInterface,
      AcceptEndpoint UnderlayInterface address port]"

definition leaves :: "output_rule list \<Rightarrow> packet \<Rightarrow> bool" where
  "leaves rules p = list_ex (rule_accepts p) rules"

section \<open>The backend\<close>

record ToolPaths =
  tp_IP :: string
  tp_NFT :: string
  tp_WG :: string

definition base_name :: "string \<Rightarrow> string" where
  "base_name path = rev (takeWhile (\<lambda>c. c \<noteq> CHR ''/'') (rev path))"

definition paths_validate :: "ToolPaths \<Rightarrow> guestvpn_error option" where
  "paths_validate paths =
     (if list_all (\<lambda>(path, base). clean_abs path \<and> base_name path = base)
          [(tp_IP paths, ''ip''), (tp_NFT paths, ''nft''), (tp_WG paths, ''wg'')]
      then None else Some ErrInvalidRequest)"

record commandRequest =
  cr_path :: string
  cr_args :: "string list"
  cr_stdin :: string

type_synonym 'k guest_call = "'k \<Rightarrow> 'k \<times> guestvpn_error option"

text \<open>\<open>'k\<close> is the guest kernel and its services, on which the runner and the DNS adapter act.\<close>

record 'k LinuxBackend =
  lb_paths :: ToolPaths
  lb_runner :: "commandRequest \<Rightarrow> 'k guest_call"
  lb_dnsConfigure :: "profileState \<Rightarrow> 'k guest_call"
  lb_dnsClear :: "'k guest_call"
  lb_killArmed :: bool
  lb_tunnel :: bool
  lb_world :: 'k

definition NewLinuxBackend :: "ToolPaths \<Rightarrow> (commandRequest \<Rightarrow> 'k guest_call) \<Rightarrow> (profileState \<Rightarrow> 'k guest_call) \<Rightarrow>
    'k guest_call \<Rightarrow> 'k \<Rightarrow> guestvpn_error + 'k LinuxBackend" where
  "NewLinuxBackend paths runner dnsConfigure dnsClear world =
     (if paths_validate paths \<noteq> None then Inl ErrInvalidRequest
      else Inr \<lparr>lb_paths = paths, lb_runner = runner, lb_dnsConfigure = dnsConfigure, lb_dnsClear = dnsClear,
        lb_killArmed = False, lb_tunnel = False, lb_world = world\<rparr>)"

definition on_world :: "'k guest_call \<Rightarrow> 'k LinuxBackend \<Rightarrow> 'k LinuxBackend \<times> guestvpn_error option" where
  "on_world call b = (case call (lb_world b) of (w, r) \<Rightarrow> (b\<lparr>lb_world := w\<rparr>, r))"

definition Run :: "(ToolPaths \<Rightarrow> string) \<Rightarrow> string list \<Rightarrow> string \<Rightarrow> 'k LinuxBackend \<Rightarrow> 'k LinuxBackend \<times> guestvpn_error option" where
  "Run tool args stdin b = on_world (lb_runner b \<lparr>cr_path = tool (lb_paths b), cr_args = args, cr_stdin = stdin\<rparr>) b"

definition runBytes :: "(ToolPaths \<Rightarrow> string) \<Rightarrow> string list \<Rightarrow> string \<Rightarrow> 'k LinuxBackend \<Rightarrow> 'k LinuxBackend \<times> guestvpn_error option" where
  "runBytes tool args value b =
     (if value = [] \<or> guestCommandInputLimit < length value then (b, Some ErrInvalidRequest) else Run tool args value b)"

text \<open>Steps of one mutation: the first failure ends it.\<close>

definition and_then :: "'s \<times> guestvpn_error option \<Rightarrow> ('s \<Rightarrow> 's \<times> guestvpn_error option) \<Rightarrow> 's \<times> guestvpn_error option" where
  "and_then p f = (case p of (b, None) \<Rightarrow> f b | (b, Some e) \<Rightarrow> (b, Some e))"

text \<open>\<open>ctx i\<close> says whether the context has ended at the \<open>i\<close>-th place the operation looks at it.\<close>

definition ArmKillSwitch :: "(nat \<Rightarrow> bool) \<Rightarrow> profileState \<Rightarrow> 'k LinuxBackend \<Rightarrow> 'k LinuxBackend \<times> guestvpn_error option" where
  "ArmKillSwitch ctx setup b =
     (if lb_killArmed b \<or> lb_tunnel b then (b, Some ErrInvalidRequest)
      else case killSwitchRules (ctx 0) setup of Inl e \<Rightarrow> (b, Some e)
       | Inr rules \<Rightarrow> and_then (Run tp_NFT [''-f'', ''-''] rules b) (\<lambda>b. (b\<lparr>lb_killArmed := True\<rparr>, None)))"

definition setconf :: "(nat \<Rightarrow> bool) \<Rightarrow> profileState \<Rightarrow> 'k LinuxBackend \<Rightarrow> 'k LinuxBackend \<times> guestvpn_error option" where
  "setconf ctx setup b =
     (case WithWireGuardConfig (ctx 1) setup of Inl e \<Rightarrow> (b, Some (ErrGuestProfile e))
      | Inr config \<Rightarrow> Run tp_WG [''setconf'', TunnelInterface, ''/dev/stdin''] config b)"

text \<open>\<^verbatim>\<open>ConfigureTunnel\<close> from \<^verbatim>\<open>wg setconf\<close> on, from the link on, and as a whole.\<close>

definition finish_tunnel :: "(nat \<Rightarrow> bool) \<Rightarrow> profileState \<Rightarrow> 'k LinuxBackend \<Rightarrow> 'k LinuxBackend \<times> guestvpn_error option" where
  "finish_tunnel ctx setup b =
     and_then (setconf ctx setup b) (\<lambda>b.
       case tunnelCommands (ctx 2) setup of Inl e \<Rightarrow> (b, Some e)
       | Inr tunnelBatch \<Rightarrow>
           and_then (runBytes tp_IP [''-batch'', ''-''] tunnelBatch b) (\<lambda>b. on_world (lb_dnsConfigure b setup) b))"

definition raise_tunnel :: "(nat \<Rightarrow> bool) \<Rightarrow> profileState \<Rightarrow> 'k LinuxBackend \<Rightarrow> 'k LinuxBackend \<times> guestvpn_error option" where
  "raise_tunnel ctx setup b =
     and_then (Run tp_IP [''link'', ''add'', TunnelInterface, ''type'', ''wireguard''] [] (b\<lparr>lb_tunnel := True\<rparr>))
       (finish_tunnel ctx setup)"

definition ConfigureTunnel :: "(nat \<Rightarrow> bool) \<Rightarrow> Underlay \<Rightarrow> profileState \<Rightarrow> 'k LinuxBackend \<Rightarrow> 'k LinuxBackend \<times> guestvpn_error option" where
  "ConfigureTunnel ctx underlay setup b =
     (if underlay_validate underlay \<noteq> None then (b, Some ErrInvalidRequest)
      else if \<not> lb_killArmed b \<or> lb_tunnel b then (b, Some ErrInvalidRequest)
      else case underlayCommands (ctx 0) underlay setup of Inl e \<Rightarrow> (b, Some e)
       | Inr underlayBatch \<Rightarrow> and_then (runBytes tp_IP [''-batch'', ''-''] underlayBatch b) (raise_tunnel ctx setup))"

definition RemoveTunnel :: "'k LinuxBackend \<Rightarrow> 'k LinuxBackend \<times> guestvpn_error option" where
  "RemoveTunnel b =
     (if \<not> lb_tunnel b then (b, None)
      else and_then (on_world (lb_dnsClear b) b) (\<lambda>b.
        and_then (Run tp_IP [''link'', ''delete'', TunnelInterface] [] b) (\<lambda>b. (b\<lparr>lb_tunnel := False\<rparr>, None))))"

definition RemoveKillSwitch :: "'k LinuxBackend \<Rightarrow> 'k LinuxBackend \<times> guestvpn_error option" where
  "RemoveKillSwitch b =
     (if lb_tunnel b then (b, Some ErrVPNCleanupIncomplete)
      else if \<not> lb_killArmed b then (b, None)
      else and_then (Run tp_NFT [''delete'', ''table'', ''inet'', ''private_vm_guest''] [] b)
        (\<lambda>b. (b\<lparr>lb_killArmed := False\<rparr>, None)))"


section \<open>The verifier\<close>

record ProbeTargets =
  tg_DNSName :: string
  tg_IPv4 :: "Addr \<times> u16"
  tg_IPv6 :: "Addr \<times> u16"

definition safeProbeTarget :: "Addr \<times> u16 \<Rightarrow> bool \<Rightarrow> bool" where
  "safeProbeTarget target ipv4 =
     (let address = fst target in
      if address = AddrNone \<or> snd target = 0 \<or> Is4In6 address \<or> \<not> IsGlobalUnicast address \<or> IsPrivate address \<or>
        IsLoopback address \<or> IsLinkLocalUnicast address
      then False else Is4 address = ipv4)"

definition probeDomainPattern :: "string \<Rightarrow> bool" where
  "probeDomainPattern domain \<longleftrightarrow>
     (let labels = split_at (CHR ''.'') (trim_dot domain) in 2 \<le> length labels \<and> list_all safe_label labels)"

definition targets_validate :: "ProbeTargets \<Rightarrow> guestvpn_error option" where
  "targets_validate targets =
     (let domain = to_lower (trim_dot (tg_DNSName targets)) in
      if domain = [] \<or> 253 < length domain \<or> \<not> probeDomainPattern domain \<or> \<not> safeProbeTarget (tg_IPv4 targets) True \<or>
        \<not> safeProbeTarget (tg_IPv6 targets) False
      then Some ErrInvalidRequest else None)"

text \<open>
  A probe returns its observation and whether it failed; what it observed is recorded even when it failed,
  except the underlay's reachability.  \<open>pb_ended\<close> says whether the context had ended by then.
\<close>

record Probes =
  pb_Recent :: "bool \<times> bool"
  pb_TunnelAndBypass :: "string \<Rightarrow> (bool \<times> bool) \<times> bool"
  pb_Reachable :: "string \<Rightarrow> Addr \<times> u16 \<Rightarrow> bool \<times> bool"
  pb_Bound :: "bool \<times> bool"
  pb_ended :: bool

definition probeFailed :: "Probes \<Rightarrow> guestvpn_error" where
  "probeFailed probes = (if pb_ended probes then ErrGuestContext else ErrGuestCommand)"

text \<open>After one probe: its failure or an unmet gate ends the sequence with the proof so far.\<close>

definition gate :: "Probes \<Rightarrow> bool \<Rightarrow> bool \<Rightarrow> Proof \<Rightarrow> (Proof \<Rightarrow> Proof \<times> guestvpn_error option) \<Rightarrow> Proof \<times> guestvpn_error option" where
  "gate probes failed passed p k = (if failed then (p, Some (probeFailed probes)) else if \<not> passed then (p, None) else k p)"

definition verify_torrent :: "Probes \<Rightarrow> RolePolicy \<Rightarrow> Proof \<Rightarrow> Proof \<times> guestvpn_error option" where
  "verify_torrent probes policy p =
     (if po_Role policy = RoleDownloader
      then case pb_Bound probes of (bound, failed) \<Rightarrow> gate probes failed True (p\<lparr>pr_TorrentBound := bound\<rparr>) (\<lambda>p. (p, None))
      else (p, None))"

definition verify_bypass6 :: "Probes \<Rightarrow> ProbeTargets \<Rightarrow> RolePolicy \<Rightarrow> Proof \<Rightarrow> Proof \<times> guestvpn_error option" where
  "verify_bypass6 probes targets policy p =
     (case pb_Reachable probes UnderlayInterface (tg_IPv6 targets) of (underlayReachable, failed) \<Rightarrow>
        gate probes failed True p (\<lambda>p. gate probes False (\<not> underlayReachable) (p\<lparr>pr_IPv6BypassBlocked := \<not> underlayReachable\<rparr>)
          (verify_torrent probes policy)))"

definition verify_tunnel6 :: "Probes \<Rightarrow> ProbeTargets \<Rightarrow> RolePolicy \<Rightarrow> Proof \<Rightarrow> Proof \<times> guestvpn_error option" where
  "verify_tunnel6 probes targets policy p =
     (if po_RequireIPv6Tunnel policy
      then case pb_Reachable probes TunnelInterface (tg_IPv6 targets) of (reachable, failed) \<Rightarrow>
        gate probes failed reachable (p\<lparr>pr_IPv6ThroughTunnel := reachable\<rparr>) (verify_bypass6 probes targets policy)
      else verify_bypass6 probes targets policy p)"

definition verify_ipv4 :: "Probes \<Rightarrow> ProbeTargets \<Rightarrow> RolePolicy \<Rightarrow> Proof \<Rightarrow> Proof \<times> guestvpn_error option" where
  "verify_ipv4 probes targets policy p =
     (case pb_Reachable probes TunnelInterface (tg_IPv4 targets) of (reachable, failed) \<Rightarrow>
        gate probes failed reachable (p\<lparr>pr_IPv4ThroughTunnel := reachable\<rparr>) (\<lambda>p.
          case pb_Reachable probes UnderlayInterface (tg_IPv4 targets) of (underlayReachable, failed) \<Rightarrow>
            gate probes failed True p (\<lambda>p. gate probes False (\<not> underlayReachable)
              (p\<lparr>pr_IPv4BypassBlocked := \<not> underlayReachable\<rparr>) (verify_tunnel6 probes targets policy))))"

definition ControlledVerify :: "Probes \<Rightarrow> ProbeTargets \<Rightarrow> RolePolicy \<Rightarrow> Proof \<times> guestvpn_error option" where
  "ControlledVerify probes targets policy =
     (if policy_validate policy \<noteq> None \<or> targets_validate targets \<noteq> None then (no_proof, Some ErrInvalidRequest)
      else case pb_Recent probes of (recent, failed) \<Rightarrow>
        gate probes failed recent (no_proof\<lparr>pr_Handshake := recent\<rparr>) (\<lambda>p.
          case pb_TunnelAndBypass probes (tg_DNSName targets) of ((tunnelOK, bypassBlocked), failed) \<Rightarrow>
            gate probes failed (tunnelOK \<and> bypassBlocked)
              (p\<lparr>pr_DNSThroughTunnel := tunnelOK, pr_DNSBypassBlocked := bypassBlocked\<rparr>) (verify_ipv4 probes targets policy)))"

lemmas verify_steps = gate_def verify_torrent_def verify_bypass6_def verify_tunnel6_def verify_ipv4_def

text \<open>A proof without a failure is complete exactly when every probe the policy asks for answered as required.\<close>

definition probes_pass :: "Probes \<Rightarrow> ProbeTargets \<Rightarrow> RolePolicy \<Rightarrow> bool" where
  "probes_pass probes targets policy \<longleftrightarrow>
     pb_Recent probes = (True, False) \<and> pb_TunnelAndBypass probes (tg_DNSName targets) = ((True, True), False) \<and>
     pb_Reachable probes TunnelInterface (tg_IPv4 targets) = (True, False) \<and>
     pb_Reachable probes UnderlayInterface (tg_IPv4 targets) = (False, False) \<and>
     (po_RequireIPv6Tunnel policy \<longrightarrow> pb_Reachable probes TunnelInterface (tg_IPv6 targets) = (True, False)) \<and>
     pb_Reachable probes UnderlayInterface (tg_IPv6 targets) = (False, False) \<and>
     (po_Role policy = RoleDownloader \<longrightarrow> pb_Bound probes = (True, False))"

lemma ControlledVerify_complete_iff:
  assumes "policy_validate policy = None" "targets_validate targets = None" "ControlledVerify probes targets policy = (p, r)"
  shows "r = None \<and> proof_complete (po_RequireIPv6Tunnel policy) (po_RequireTorrentBinding policy) p \<longleftrightarrow>
    probes_pass probes targets policy \<and> (po_RequireTorrentBinding policy \<longrightarrow> po_Role policy = RoleDownloader)"
proof -
  have "po_Role policy = RoleDownloader \<Longrightarrow> po_RequireTorrentBinding policy"
    using assms(1) by (auto simp: policy_validate_def split: if_splits)
  then show ?thesis
    using assms(3)
    by (auto simp: ControlledVerify_def assms(1,2) verify_steps no_proof_def proof_complete_def probes_pass_def
        split: prod.splits if_splits)
qed

lemma ControlledVerify_ipv4_only:
  "\<not> po_RequireIPv6Tunnel policy \<Longrightarrow> \<not> pr_IPv6ThroughTunnel (fst (ControlledVerify probes targets policy))"
  by (simp add: ControlledVerify_def verify_steps no_proof_def split: prod.splits)

end
