(* ===== verification/Guest_Backend.thy ===== *)
theory Guest_Backend
  imports Guest_VPN
begin

text \<open>
  What the guest backend promises: the contract \<open>vpn_backend\<close> of the interface \<^verbatim>\<open>Backend\<close> in
  \<^verbatim>\<open>internal/guestvpn/controller.go\<close>, and its proof for the model of \<^verbatim>\<open>backend.go\<close> under the documented behaviour
  of \<^verbatim>\<open>nft\<close>, \<^verbatim>\<open>ip\<close>, \<^verbatim>\<open>wg\<close> and the resolver service.
\<close>

section \<open>The guest kernel\<close>

record kernel =
  kn_table :: "string option"
  kn_link :: bool

text \<open>A call that leaves the table alone and creates no tunnel link.\<close>

definition quiet :: "'a kernel_scheme \<Rightarrow> 'a kernel_scheme \<Rightarrow> bool" where
  "quiet w w' \<longleftrightarrow> kn_table w' = kn_table w \<and> (kn_link w' \<longrightarrow> kn_link w)"

definition policy_batch :: "string \<Rightarrow> bool" where
  "policy_batch text \<longleftrightarrow>
     (\<exists>c u s. underlayCommands c u s = Inr text) \<or> (\<exists>c s. tunnelCommands c s = Inr text)"

text \<open>
  The documented behaviour the backend relies on.  \<^verbatim>\<open>nft\<close> applies a file as one transaction: it loads the
  table or reports a failure and changes nothing, and so does the deletion of the table.  Only
  \<^verbatim>\<open>ip link add\<close> creates the tunnel link, and a deletion reported as done removed it.  Addressing, routing,
  \<^verbatim>\<open>wg setconf\<close> and the resolver service touch neither the table nor the existence of the link.
\<close>

definition nft_laws :: "string \<Rightarrow> (commandRequest \<Rightarrow> 'a kernel_scheme guest_call) \<Rightarrow> bool" where
  "nft_laws nft runner \<longleftrightarrow>
     (\<forall>w w' r text. runner \<lparr>cr_path = nft, cr_args = [''-f'', ''-''], cr_stdin = text\<rparr> w = (w', r) \<longrightarrow>
        kn_table w = None \<longrightarrow> kn_link w' = kn_link w \<and> kn_table w' = (if r = None then Some text else None)) \<and>
     (\<forall>w w' r. runner \<lparr>cr_path = nft, cr_args = [''delete'', ''table'', ''inet'', ''private_vm_guest''], cr_stdin = []\<rparr> w = (w', r) \<longrightarrow>
        kn_link w' = kn_link w \<and> kn_table w' = (if r = None then None else kn_table w))"

definition link_laws :: "string \<Rightarrow> (commandRequest \<Rightarrow> 'a kernel_scheme guest_call) \<Rightarrow> bool" where
  "link_laws ip runner \<longleftrightarrow>
     (\<forall>w w' r. runner \<lparr>cr_path = ip, cr_args = [''link'', ''add'', TunnelInterface, ''type'', ''wireguard''], cr_stdin = []\<rparr> w = (w', r) \<longrightarrow>
        kn_table w' = kn_table w) \<and>
     (\<forall>w w' r. runner \<lparr>cr_path = ip, cr_args = [''link'', ''delete'', TunnelInterface], cr_stdin = []\<rparr> w = (w', r) \<longrightarrow>
        quiet w w' \<and> (r = None \<longrightarrow> \<not> kn_link w'))"

definition quiet_laws :: "ToolPaths \<Rightarrow> (commandRequest \<Rightarrow> 'a kernel_scheme guest_call) \<Rightarrow> bool" where
  "quiet_laws paths runner \<longleftrightarrow>
     (\<forall>w w' r text. runner \<lparr>cr_path = tp_IP paths, cr_args = [''-batch'', ''-''], cr_stdin = text\<rparr> w = (w', r) \<longrightarrow>
        policy_batch text \<longrightarrow> quiet w w') \<and>
     (\<forall>w w' r text. runner \<lparr>cr_path = tp_WG paths, cr_args = [''setconf'', TunnelInterface, ''/dev/stdin''], cr_stdin = text\<rparr> w = (w', r) \<longrightarrow>
        quiet w w')"

definition dns_laws :: "(profileState \<Rightarrow> 'a kernel_scheme guest_call) \<Rightarrow> 'a kernel_scheme guest_call \<Rightarrow> bool" where
  "dns_laws dnsConfigure dnsClear \<longleftrightarrow>
     (\<forall>w w' r setup. dnsConfigure setup w = (w', r) \<longrightarrow> quiet w w') \<and> (\<forall>w w' r. dnsClear w = (w', r) \<longrightarrow> quiet w w')"

definition kernel_laws :: "ToolPaths \<Rightarrow> (commandRequest \<Rightarrow> 'a kernel_scheme guest_call) \<Rightarrow>
    (profileState \<Rightarrow> 'a kernel_scheme guest_call) \<Rightarrow> 'a kernel_scheme guest_call \<Rightarrow> bool" where
  "kernel_laws paths runner dnsConfigure dnsClear \<longleftrightarrow>
     nft_laws (tp_NFT paths) runner \<and> link_laws (tp_IP paths) runner \<and> quiet_laws paths runner \<and> dns_laws dnsConfigure dnsClear"

section \<open>The contract\<close>

record 'b BackendOps =
  op_ArmKillSwitch :: "(nat \<Rightarrow> bool) \<Rightarrow> profileState \<Rightarrow> 'b \<Rightarrow> 'b \<times> guestvpn_error option"
  op_ConfigureTunnel :: "(nat \<Rightarrow> bool) \<Rightarrow> Underlay \<Rightarrow> profileState \<Rightarrow> 'b \<Rightarrow> 'b \<times> guestvpn_error option"
  op_RemoveTunnel :: "'b \<Rightarrow> 'b \<times> guestvpn_error option"
  op_RemoveKillSwitch :: "'b \<Rightarrow> 'b \<times> guestvpn_error option"

text \<open>
  \<open>sealed b ep\<close>: the guest sends nothing outside the tunnel but to the endpoint \<open>ep\<close>;
  \<open>tunnelled b\<close>: the tunnel link exists.
\<close>

locale vpn_backend =
  fixes ops :: "'b BackendOps"
    and inv :: "'b \<Rightarrow> bool"
    and sealed :: "'b \<Rightarrow> Addr \<times> u16 \<Rightarrow> bool"
    and tunnelled :: "'b \<Rightarrow> bool"
  assumes tunnel_sealed: "inv b \<Longrightarrow> tunnelled b \<Longrightarrow> \<exists>ep. sealed b ep"
    and arm_law: "inv b \<Longrightarrow> op_ArmKillSwitch ops ctx setup b = (b', r) \<Longrightarrow>
      inv b' \<and> (r = None \<longrightarrow> sealed b' (SetupEndpoint setup)) \<and> (tunnelled b' \<longrightarrow> tunnelled b)"
    and configure_law: "inv b \<Longrightarrow> op_ConfigureTunnel ops ctx underlay setup b = (b', r) \<Longrightarrow>
      inv b' \<and> (\<forall>ep. sealed b ep \<longrightarrow> sealed b' ep)"
    and remove_law: "inv b \<Longrightarrow> op_RemoveTunnel ops b = (b', r) \<Longrightarrow>
      inv b' \<and> (\<forall>ep. sealed b ep \<longrightarrow> sealed b' ep) \<and> (r = None \<longrightarrow> \<not> tunnelled b')"
    and unseal_law: "inv b \<Longrightarrow> op_RemoveKillSwitch ops b = (b', r) \<Longrightarrow>
      inv b' \<and> (r \<noteq> None \<longrightarrow> (\<forall>ep. sealed b ep \<longrightarrow> sealed b' ep)) \<and> (tunnelled b' \<longrightarrow> tunnelled b)"

section \<open>The backend keeps it\<close>

definition LinuxOps :: "'k LinuxBackend BackendOps" where
  "LinuxOps = \<lparr>op_ArmKillSwitch = ArmKillSwitch, op_ConfigureTunnel = ConfigureTunnel, op_RemoveTunnel = RemoveTunnel,
     op_RemoveKillSwitch = RemoveKillSwitch\<rparr>"

definition backend_sealed :: "'a kernel_scheme LinuxBackend \<Rightarrow> Addr \<times> u16 \<Rightarrow> bool" where
  "backend_sealed b ep \<longleftrightarrow> kn_table (lb_world b) = Some (guest_table (fst ep) (snd ep))"

definition backend_ok :: "'a kernel_scheme LinuxBackend \<Rightarrow> bool" where
  "backend_ok b \<longleftrightarrow>
     kernel_laws (lb_paths b) (lb_runner b) (lb_dnsConfigure b) (lb_dnsClear b) \<and>
     (if lb_killArmed b then \<exists>ep. backend_sealed b ep else kn_table (lb_world b) = None) \<and>
     (kn_link (lb_world b) \<longrightarrow> lb_tunnel b) \<and> (lb_tunnel b \<longrightarrow> lb_killArmed b)"

text \<open>Between the steps of one mutation: the same backend, a world reached by quiet calls.\<close>

definition onward :: "'a kernel_scheme LinuxBackend \<Rightarrow> 'a kernel_scheme LinuxBackend \<Rightarrow> bool" where
  "onward b b' \<longleftrightarrow> b' = b\<lparr>lb_world := lb_world b'\<rparr> \<and> quiet (lb_world b) (lb_world b')"

lemma onward_refl: "onward b b"
  by (simp add: onward_def quiet_def)

lemma onward_trans: "onward a b \<Longrightarrow> onward b c \<Longrightarrow> onward a c"
  unfolding onward_def quiet_def by (metis LinuxBackend.surjective LinuxBackend.update_convs(7))

lemma onward_fields:
  "onward b b' \<Longrightarrow> lb_paths b' = lb_paths b \<and> lb_runner b' = lb_runner b \<and> lb_dnsConfigure b' = lb_dnsConfigure b \<and>
     lb_dnsClear b' = lb_dnsClear b \<and> lb_killArmed b' = lb_killArmed b \<and> lb_tunnel b' = lb_tunnel b \<and>
     kn_table (lb_world b') = kn_table (lb_world b) \<and> (kn_link (lb_world b') \<longrightarrow> kn_link (lb_world b))"
  unfolding onward_def quiet_def by (metis LinuxBackend.select_convs(1-6) LinuxBackend.surjective LinuxBackend.update_convs(7))

lemma onward_ok: "onward b b' \<Longrightarrow> backend_ok b \<Longrightarrow> backend_ok b' \<and> (\<forall>ep. backend_sealed b ep \<longrightarrow> backend_sealed b' ep)"
  by (drule onward_fields) (auto simp: backend_ok_def backend_sealed_def)

lemma on_world_onward:
  "on_world call b = (b', r) \<Longrightarrow> (\<And>w w' r. call w = (w', r) \<Longrightarrow> quiet w w') \<Longrightarrow> onward b b'"
  by (auto simp: on_world_def onward_def split: prod.splits)

lemma quiet_laws_dest:
  assumes "backend_ok b"
  shows "policy_batch text \<Longrightarrow> lb_runner b \<lparr>cr_path = tp_IP (lb_paths b), cr_args = [''-batch'', ''-''], cr_stdin = text\<rparr> w = (w', r) \<Longrightarrow> quiet w w'"
    and "lb_runner b \<lparr>cr_path = tp_WG (lb_paths b), cr_args = [''setconf'', TunnelInterface, ''/dev/stdin''], cr_stdin = text\<rparr> w = (w', r) \<Longrightarrow> quiet w w'"
    and "lb_dnsConfigure b setup w = (w', r) \<Longrightarrow> quiet w w'" "lb_dnsClear b w = (w', r) \<Longrightarrow> quiet w w'"
proof -
  have quiet: "quiet_laws (lb_paths b) (lb_runner b)" and dns: "dns_laws (lb_dnsConfigure b) (lb_dnsClear b)"
    using assms by (simp_all only: backend_ok_def kernel_laws_def)
  from quiet show "policy_batch text \<Longrightarrow> lb_runner b \<lparr>cr_path = tp_IP (lb_paths b), cr_args = [''-batch'', ''-''], cr_stdin = text\<rparr> w = (w', r) \<Longrightarrow> quiet w w'"
    unfolding quiet_laws_def by blast
  from quiet show "lb_runner b \<lparr>cr_path = tp_WG (lb_paths b), cr_args = [''setconf'', TunnelInterface, ''/dev/stdin''], cr_stdin = text\<rparr> w = (w', r) \<Longrightarrow> quiet w w'"
    unfolding quiet_laws_def by blast
  from dns show "lb_dnsConfigure b setup w = (w', r) \<Longrightarrow> quiet w w'" "lb_dnsClear b w = (w', r) \<Longrightarrow> quiet w w'"
    unfolding dns_laws_def by blast+
qed

lemma batch_onward:
  "backend_ok b \<Longrightarrow> policy_batch text \<Longrightarrow> runBytes tp_IP [''-batch'', ''-''] text b = (b', r) \<Longrightarrow> onward b b'"
  by (auto simp: runBytes_def Run_def onward_refl split: if_splits elim!: on_world_onward intro: quiet_laws_dest(1))

lemma setconf_onward: "backend_ok b \<Longrightarrow> setconf ctx setup b = (b', r) \<Longrightarrow> onward b b'"
  by (auto simp: setconf_def Run_def onward_refl split: sum.splits elim!: on_world_onward intro: quiet_laws_dest(2))

lemma dnsConfigure_onward: "backend_ok b \<Longrightarrow> on_world (lb_dnsConfigure b setup) b = (b', r) \<Longrightarrow> onward b b'"
  by (erule on_world_onward) (rule quiet_laws_dest(3))

lemma dnsClear_onward: "backend_ok b \<Longrightarrow> on_world (lb_dnsClear b) b = (b', r) \<Longrightarrow> onward b b'"
  by (erule on_world_onward) (rule quiet_laws_dest(4))

lemma and_then_cases:
  assumes "and_then p f = (b', r)"
  obtains (failed) e where "p = (b', Some e)" "r = Some e" | (went_on) b where "p = (b, None)" "f b = (b', r)"
  using assms by (cases p) (auto simp: and_then_def split: option.splits)

lemma nft_laws_dest:
  assumes "nft_laws nft runner"
  shows "runner \<lparr>cr_path = nft, cr_args = [''-f'', ''-''], cr_stdin = text\<rparr> w = (w', r) \<Longrightarrow> kn_table w = None \<Longrightarrow>
      kn_link w' = kn_link w \<and> kn_table w' = (if r = None then Some text else None)"
    and "runner \<lparr>cr_path = nft, cr_args = [''delete'', ''table'', ''inet'', ''private_vm_guest''], cr_stdin = []\<rparr> w = (w', r) \<Longrightarrow>
      kn_link w' = kn_link w \<and> kn_table w' = (if r = None then None else kn_table w)"
  using assms unfolding nft_laws_def by blast+

lemma killSwitchRules_Inr:
  "killSwitchRules c setup = Inr rules \<Longrightarrow> rules = guest_table (fst (SetupEndpoint setup)) (snd (SetupEndpoint setup))"
  by (auto simp: killSwitchRules_def split: if_splits prod.splits)

lemma ArmKillSwitch_ok:
  assumes ok: "backend_ok b" and run: "ArmKillSwitch ctx setup b = (b', r)"
  shows "backend_ok b' \<and> (r = None \<longrightarrow> backend_sealed b' (SetupEndpoint setup)) \<and> (kn_link (lb_world b') \<longrightarrow> kn_link (lb_world b))"
proof (cases "lb_killArmed b \<or> lb_tunnel b \<or> (\<exists>e. killSwitchRules (ctx 0) setup = Inl e)")
  case True
  then have "b' = b" "r \<noteq> None" using run by (auto simp: ArmKillSwitch_def split: if_splits)
  then show ?thesis using ok by auto
next
  case False
  then obtain rules where rules: "killSwitchRules (ctx 0) setup = Inr rules" and off: "\<not> lb_killArmed b" "\<not> lb_tunnel b"
    by (cases "killSwitchRules (ctx 0) setup") auto
  obtain w res where call: "lb_runner b \<lparr>cr_path = tp_NFT (lb_paths b), cr_args = [''-f'', ''-''], cr_stdin = rules\<rparr> (lb_world b) = (w, res)"
    by (cases "lb_runner b \<lparr>cr_path = tp_NFT (lb_paths b), cr_args = [''-f'', ''-''], cr_stdin = rules\<rparr> (lb_world b)")
  have "kn_link w = kn_link (lb_world b) \<and> kn_table w = (if res = None then Some rules else None)"
    using ok off by (intro nft_laws_dest(1) [where nft = "tp_NFT (lb_paths b)" and runner = "lb_runner b", OF _ call]) (auto simp: backend_ok_def kernel_laws_def)
  moreover have "(b', r) = (if res = None then (b\<lparr>lb_world := w, lb_killArmed := True\<rparr>, None) else (b\<lparr>lb_world := w\<rparr>, res))"
    using run off rules call by (auto simp: ArmKillSwitch_def and_then_def Run_def on_world_def split: option.splits)
  ultimately show ?thesis
    using ok off killSwitchRules_Inr [OF rules] by (auto simp: backend_ok_def backend_sealed_def split: if_splits)
qed

lemma RemoveKillSwitch_ok:
  assumes ok: "backend_ok b" and run: "RemoveKillSwitch b = (b', r)"
  shows "backend_ok b' \<and> (r \<noteq> None \<longrightarrow> (\<forall>ep. backend_sealed b ep \<longrightarrow> backend_sealed b' ep)) \<and>
    (kn_link (lb_world b') \<longrightarrow> kn_link (lb_world b))"
proof (cases "lb_tunnel b \<or> \<not> lb_killArmed b")
  case True
  then show ?thesis using ok run by (auto simp: RemoveKillSwitch_def split: if_splits)
next
  case False
  let ?req = "\<lparr>cr_path = tp_NFT (lb_paths b), cr_args = [''delete'', ''table'', ''inet'', ''private_vm_guest''], cr_stdin = []\<rparr>"
  obtain w res where call: "lb_runner b ?req (lb_world b) = (w, res)" by (cases "lb_runner b ?req (lb_world b)")
  have "kn_link w = kn_link (lb_world b) \<and> kn_table w = (if res = None then None else kn_table (lb_world b))"
    using ok by (intro nft_laws_dest(2) [where nft = "tp_NFT (lb_paths b)" and runner = "lb_runner b", OF _ call]) (simp add: backend_ok_def kernel_laws_def)
  moreover have "(b', r) = (if res = None then (b\<lparr>lb_world := w, lb_killArmed := False\<rparr>, None) else (b\<lparr>lb_world := w\<rparr>, res))"
    using run False call by (auto simp: RemoveKillSwitch_def and_then_def Run_def on_world_def split: option.splits)
  ultimately show ?thesis
    using ok False by (auto simp: backend_ok_def backend_sealed_def split: if_splits)
qed


lemma link_laws_dest:
  assumes "link_laws ip runner"
  shows "runner \<lparr>cr_path = ip, cr_args = [''link'', ''add'', TunnelInterface, ''type'', ''wireguard''], cr_stdin = []\<rparr> w = (w', r) \<Longrightarrow>
      kn_table w' = kn_table w"
    and "runner \<lparr>cr_path = ip, cr_args = [''link'', ''delete'', TunnelInterface], cr_stdin = []\<rparr> w = (w', r) \<Longrightarrow>
      quiet w w' \<and> (r = None \<longrightarrow> \<not> kn_link w')"
  using assms unfolding link_laws_def by blast+

text \<open>\<open>held b b'\<close>: the backend stays lawful and whatever it sealed stays sealed.\<close>

definition held :: "'a kernel_scheme LinuxBackend \<Rightarrow> 'a kernel_scheme LinuxBackend \<Rightarrow> bool" where
  "held b b' \<longleftrightarrow> backend_ok b' \<and> (\<forall>ep. backend_sealed b ep \<longrightarrow> backend_sealed b' ep)"

lemma held_refl: "backend_ok b \<Longrightarrow> held b b"
  by (simp add: held_def)

lemma held_trans: "held a b \<Longrightarrow> held b c \<Longrightarrow> held a c"
  by (simp add: held_def)

lemma onward_held: "onward b b' \<Longrightarrow> backend_ok b \<Longrightarrow> held b b'"
  using onward_ok by (auto simp: held_def)

lemma link_add_held:
  assumes ok: "backend_ok b" "lb_killArmed b"
    and run: "Run tp_IP [''link'', ''add'', TunnelInterface, ''type'', ''wireguard''] [] (b\<lparr>lb_tunnel := True\<rparr>) = (b', r)"
  shows "held b b'"
proof -
  let ?req = "\<lparr>cr_path = tp_IP (lb_paths b), cr_args = [''link'', ''add'', TunnelInterface, ''type'', ''wireguard''], cr_stdin = []\<rparr>"
  obtain w res where call: "lb_runner b ?req (lb_world b) = (w, res)" by (cases "lb_runner b ?req (lb_world b)")
  have "kn_table w = kn_table (lb_world b)"
    using ok by (intro link_laws_dest(1) [where ip = "tp_IP (lb_paths b)" and runner = "lb_runner b", OF _ call]) (simp add: backend_ok_def kernel_laws_def)
  moreover have "b' = b\<lparr>lb_tunnel := True, lb_world := w\<rparr>" using run call by (simp add: Run_def on_world_def)
  ultimately show ?thesis using ok by (auto simp: held_def backend_ok_def backend_sealed_def)
qed

lemma and_then_held:
  assumes "and_then p f = (b', r)" "\<And>c r. p = (c, r) \<Longrightarrow> held b c"
    and "\<And>c. p = (c, None) \<Longrightarrow> f c = (b', r) \<Longrightarrow> held b c \<Longrightarrow> held c b'"
  shows "held b b'"
  using assms(1)
proof (cases rule: and_then_cases)
  case (failed e)
  then show ?thesis using assms(2) by blast
next
  case (went_on c)
  then show ?thesis using assms(2,3) held_trans by blast
qed

lemma held_ok: "held b c \<Longrightarrow> backend_ok c"
  by (simp add: held_def)

lemma finish_tunnel_held:
  assumes ok: "backend_ok b" and run: "finish_tunnel ctx setup b = (b', r)"
  shows "held b b'"
  using run unfolding finish_tunnel_def
proof (rule and_then_held)
  show "held b c" if "setconf ctx setup b = (c, r)" for c r using onward_held [OF setconf_onward [OF ok that] ok] .
next
  fix c
  assume rest: "(case tunnelCommands (ctx 2) setup of Inl e \<Rightarrow> (c, Some e)
      | Inr tunnelBatch \<Rightarrow>
          and_then (runBytes tp_IP [''-batch'', ''-''] tunnelBatch c) (\<lambda>b. on_world (lb_dnsConfigure b setup) b)) = (b', r)"
    and "held b c"
  then have okc: "backend_ok c" by (simp add: held_ok)
  show "held c b'"
  proof (cases "tunnelCommands (ctx 2) setup")
    case (Inl e)
    then show ?thesis using rest okc by (simp add: held_refl)
  next
    case (Inr batch)
    then have policy: "policy_batch batch" unfolding policy_batch_def by blast
    from rest Inr have "and_then (runBytes tp_IP [''-batch'', ''-''] batch c) (\<lambda>b. on_world (lb_dnsConfigure b setup) b) = (b', r)" by simp
    then show ?thesis
      by (rule and_then_held)
        (use okc policy in \<open>blast intro: onward_held batch_onward dnsConfigure_onward held_ok\<close>)+
  qed
qed

lemma raise_tunnel_held:
  assumes "backend_ok b" "lb_killArmed b" "raise_tunnel ctx setup b = (b', r)"
  shows "held b b'"
  using assms(3) unfolding raise_tunnel_def
  by (rule and_then_held) (blast intro: link_add_held assms(1,2) finish_tunnel_held held_ok)+

lemma ConfigureTunnel_held:
  assumes ok: "backend_ok b" and run: "ConfigureTunnel ctx underlay setup b = (b', r)"
  shows "held b b'"
proof (cases "underlay_validate underlay \<noteq> None \<or> \<not> lb_killArmed b \<or> lb_tunnel b \<or> (\<exists>e. underlayCommands (ctx 0) underlay setup = Inl e)")
  case True
  then show ?thesis using run ok by (auto simp: ConfigureTunnel_def held_refl split: if_splits)
next
  case False
  then obtain batch where batch: "underlayCommands (ctx 0) underlay setup = Inr batch" by (cases "underlayCommands (ctx 0) underlay setup") auto
  have policy: "policy_batch batch" using batch unfolding policy_batch_def by blast
  have "and_then (runBytes tp_IP [''-batch'', ''-''] batch b) (raise_tunnel ctx setup) = (b', r)"
    using run batch False by (simp add: ConfigureTunnel_def)
  then show ?thesis
  proof (rule and_then_held)
    show "held b c" if "runBytes tp_IP [''-batch'', ''-''] batch b = (c, r)" for c r
      using onward_held [OF batch_onward [OF ok policy that] ok] .
    show "held c b'" if "runBytes tp_IP [''-batch'', ''-''] batch b = (c, None)" "raise_tunnel ctx setup c = (b', r)" for c
    proof (rule raise_tunnel_held [OF _ _ that(2)])
      have on: "onward b c" using batch_onward [OF ok policy that(1)] .
      then show "backend_ok c" using onward_ok ok by blast
      show "lb_killArmed c" using onward_fields [OF on] False by simp
    qed
  qed
qed

lemma RemoveTunnel_held:
  assumes ok: "backend_ok b" and run: "RemoveTunnel b = (b', r)"
  shows "held b b' \<and> (r = None \<longrightarrow> \<not> kn_link (lb_world b'))"
proof (cases "lb_tunnel b")
  case False
  then show ?thesis using ok run by (auto simp: RemoveTunnel_def held_refl backend_ok_def)
next
  case True
  let ?delete = "Run tp_IP [''link'', ''delete'', TunnelInterface] []"
  have finish: "held c b' \<and> (r = None \<longrightarrow> \<not> kn_link (lb_world b'))"
    if "backend_ok c" "and_then (?delete c) (\<lambda>b. (b\<lparr>lb_tunnel := False\<rparr>, None)) = (b', r)" for c
  proof -
    let ?req = "\<lparr>cr_path = tp_IP (lb_paths c), cr_args = [''link'', ''delete'', TunnelInterface], cr_stdin = []\<rparr>"
    obtain w res where call: "lb_runner c ?req (lb_world c) = (w, res)" by (cases "lb_runner c ?req (lb_world c)")
    have "quiet (lb_world c) w \<and> (res = None \<longrightarrow> \<not> kn_link w)"
      using that(1) by (intro link_laws_dest(2) [where ip = "tp_IP (lb_paths c)" and runner = "lb_runner c", OF _ call])
        (simp add: backend_ok_def kernel_laws_def)
    moreover have "(b', r) = (if res = None then (c\<lparr>lb_world := w, lb_tunnel := False\<rparr>, None) else (c\<lparr>lb_world := w\<rparr>, res))"
      using that(2) call by (auto simp: and_then_def Run_def on_world_def split: option.splits)
    ultimately show ?thesis
      using that(1) by (auto simp: held_def backend_ok_def backend_sealed_def quiet_def split: if_splits)
  qed
  from run True have "and_then (on_world (lb_dnsClear b) b) (\<lambda>b. and_then (?delete b) (\<lambda>b. (b\<lparr>lb_tunnel := False\<rparr>, None))) = (b', r)"
    by (simp add: RemoveTunnel_def)
  then show ?thesis
  proof (cases rule: and_then_cases)
    case (failed e)
    then show ?thesis using onward_held [OF dnsClear_onward [OF ok] ok] by blast
  next
    case (went_on c)
    then have "held b c" using onward_held [OF dnsClear_onward [OF ok] ok] by blast
    with finish [OF _ went_on(2)] show ?thesis using held_ok held_trans by blast
  qed
qed

interpretation linux: vpn_backend LinuxOps backend_ok backend_sealed "\<lambda>b. kn_link (lb_world b)"
proof unfold_locales
  show "\<exists>ep. backend_sealed b ep" if "backend_ok b" "kn_link (lb_world b)" for b :: "'a kernel_scheme LinuxBackend"
    using that by (auto simp: backend_ok_def)
qed (use ArmKillSwitch_ok ConfigureTunnel_held RemoveTunnel_held RemoveKillSwitch_ok in \<open>simp_all add: LinuxOps_def held_def\<close>)

end
