(* ===== verification/Guest_Controller.thy ===== *)
theory Guest_Controller
  imports Guest_Backend
begin

text \<open>
  The owner of the guest's network state, \<^verbatim>\<open>internal/guestvpn/controller.go\<close>: configuration behind an armed kill switch,
  repeated verification, teardown and monitoring, over any backend, verifier and online application.
\<close>

section \<open>State\<close>

record 'o OnlineOps =
  on_Start :: "'o \<Rightarrow> 'o \<times> guestvpn_error option"
  on_Stop :: "'o \<Rightarrow> 'o \<times> guestvpn_error option"

record ('b, 'o) Controller =
  ct_backend :: 'b
  ct_online :: "'o option"
  ct_policy :: RolePolicy
  ct_underlay :: Underlay
  ct_state :: vpn_state
  ct_proof :: Proof
  ct_requireIPv6 :: bool
  ct_killSwitchArmed :: bool
  ct_configured :: bool
  ct_onlineActive :: bool

definition newController :: "'b \<Rightarrow> 'o option \<Rightarrow> RolePolicy \<Rightarrow> Underlay \<Rightarrow> guestvpn_error + ('b, 'o) Controller" where
  "newController backend online policy underlay =
     (case policy_validate policy of Some e \<Rightarrow> Inl e
      | None \<Rightarrow>
         (case underlay_validate underlay of Some e \<Rightarrow> Inl e
          | None \<Rightarrow> Inr \<lparr>ct_backend = backend, ct_online = online, ct_policy = policy, ct_underlay = underlay,
              ct_state = StateUnconfigured, ct_proof = no_proof, ct_requireIPv6 = False, ct_killSwitchArmed = False,
              ct_configured = False, ct_onlineActive = False\<rparr>))"

record VPNStatus =
  vs_SchemaVersion :: int
  vs_State :: vpn_state
  vs_KillSwitchArmed :: bool
  vs_Configured :: bool
  vs_Proof :: Proof
  vs_Code :: string
  vs_Remediation :: string

definition statusLocked :: "('b, 'o) Controller \<Rightarrow> VPNStatus" where
  "statusLocked c =
     (let (code, remediation) =
        (case ct_state c of
          StateVerified \<Rightarrow> (''GUEST_VPN_VERIFIED'', ''No action is required while continuous verification remains healthy.'')
        | StateDegraded \<Rightarrow> (''GUEST_VPN_DEGRADED'',
            ''Keep the kill switch armed, pause network work, and reconnect or stop the session.'')
        | StateKillSwitchArmed \<Rightarrow> (''GUEST_VPN_NOT_VERIFIED'',
            ''Do not start network applications until every VPN verification gate passes.'')
        | StateConfigured \<Rightarrow> (''GUEST_VPN_NOT_VERIFIED'',
            ''Do not start network applications until every VPN verification gate passes.'')
        | StateStopped \<Rightarrow> (''GUEST_VPN_STOPPED'',
            ''Configure and verify a new tunnel before starting network applications.'')
        | StateUnconfigured \<Rightarrow> (''GUEST_VPN_UNCONFIGURED'',
            ''Configure and verify the guest VPN before starting network applications.'')) in
      \<lparr>vs_SchemaVersion = 1, vs_State = ct_state c, vs_KillSwitchArmed = ct_killSwitchArmed c, vs_Configured = ct_configured c,
       vs_Proof = ct_proof c, vs_Code = code, vs_Remediation = remediation\<rparr>)"

section \<open>Operations\<close>

type_synonym verifier = "RolePolicy \<Rightarrow> Proof \<times> guestvpn_error option"

definition verificationPolicyLocked :: "('b, 'o) Controller \<Rightarrow> RolePolicy" where
  "verificationPolicyLocked c = (ct_policy c)\<lparr>po_RequireIPv6Tunnel := ct_requireIPv6 c\<rparr>"

definition failed_with :: "guestvpn_error \<Rightarrow> guestvpn_error option \<Rightarrow> guestvpn_error" where
  "failed_with e cause = (case cause of None \<Rightarrow> e | Some c \<Rightarrow> failed_as e c)"

definition removeTunnelDetached :: "'b BackendOps \<Rightarrow> ('b, 'o) Controller \<Rightarrow> ('b, 'o) Controller" where
  "removeTunnelDetached ops c = c\<lparr>ct_backend := fst (op_RemoveTunnel ops (ct_backend c))\<rparr>"

definition stopOnlineDetached :: "'o OnlineOps \<Rightarrow> ('b, 'o) Controller \<Rightarrow> ('b, 'o) Controller" where
  "stopOnlineDetached app c =
     (case ct_online c of None \<Rightarrow> c
      | Some online \<Rightarrow>
         if \<not> ct_onlineActive c then c
         else case on_Stop app online of (online', r) \<Rightarrow> c\<lparr>ct_online := Some online', ct_onlineActive := r \<noteq> None\<rparr>)"

text \<open>Starting the online application: it counts as active before the attempt; a failure degrades and stops it.\<close>

definition start_online :: "'o OnlineOps \<Rightarrow> ('b, 'o) Controller \<Rightarrow> ('b, 'o) Controller \<times> guestvpn_error option" where
  "start_online app c =
     (case ct_online c of None \<Rightarrow> (c, None)
      | Some online \<Rightarrow>
         (case on_Start app online of
            (online', None) \<Rightarrow> (c\<lparr>ct_online := Some online', ct_onlineActive := True\<rparr>, None)
          | (online', Some e) \<Rightarrow>
              (stopOnlineDetached app (c\<lparr>ct_online := Some online', ct_onlineActive := True, ct_state := StateDegraded\<rparr>),
               Some (failed_as ErrVerificationFailed e))))"

text \<open>The verification both callers run; only \<^verbatim>\<open>Configure\<close> stops the application when it fails.\<close>

definition run_verifier :: "verifier \<Rightarrow> (('b, 'o) Controller \<Rightarrow> ('b, 'o) Controller) \<Rightarrow> ('b, 'o) Controller \<Rightarrow>
    ('b, 'o) Controller \<times> guestvpn_error option" where
  "run_verifier verifier on_failure c =
     (case verifier (verificationPolicyLocked c) of (p, r) \<Rightarrow>
        let c = c\<lparr>ct_proof := p\<rparr> in
        if r \<noteq> None \<or> \<not> proof_complete (ct_requireIPv6 c) (po_RequireTorrentBinding (ct_policy c)) p
        then (on_failure (c\<lparr>ct_state := StateDegraded\<rparr>), Some (failed_with ErrVerificationFailed r))
        else (c\<lparr>ct_state := StateVerified\<rparr>, None))"

definition configure_armed :: "'b BackendOps \<Rightarrow> 'o OnlineOps \<Rightarrow> (nat \<Rightarrow> bool) \<Rightarrow> verifier \<Rightarrow> profileState \<Rightarrow>
    ('b, 'o) Controller \<Rightarrow> ('b, 'o) Controller \<times> guestvpn_error option" where
  "configure_armed ops app ctx verifier profile c =
     (case WithGuestSetup (ctx 2) profile of
        Inl e \<Rightarrow> (removeTunnelDetached ops c, Some (failed_as ErrConfigurationFailed (ErrGuestProfile e)))
      | Inr setup \<Rightarrow>
         (case op_ConfigureTunnel ops (\<lambda>i. ctx (3 + i)) (ct_underlay c) setup (ct_backend c) of
            (b, Some e) \<Rightarrow> (removeTunnelDetached ops (c\<lparr>ct_backend := b\<rparr>), Some (failed_as ErrConfigurationFailed e))
          | (b, None) \<Rightarrow>
              and_then (start_online app (c\<lparr>ct_backend := b, ct_state := StateConfigured, ct_configured := True\<rparr>))
                (run_verifier verifier (stopOnlineDetached app))))"

text \<open>\<open>profile i\<close> is the profile when it is locked for the \<open>i\<close>-th time; another goroutine may destroy it in between.\<close>

definition Configure :: "'b BackendOps \<Rightarrow> 'o OnlineOps \<Rightarrow> (nat \<Rightarrow> bool) \<Rightarrow> verifier \<Rightarrow> (nat \<Rightarrow> profileState) \<Rightarrow>
    ('b, 'o) Controller \<Rightarrow> ('b, 'o) Controller \<times> guestvpn_error option" where
  "Configure ops app ctx verifier profile c =
     (if ct_state c \<noteq> StateUnconfigured \<and> ct_state c \<noteq> StateStopped then (c, Some ErrInvalidRequest)
      else case InspectProfile (profile 0) of Inl _ \<Rightarrow> (c, Some ErrInvalidRequest)
       | Inr inspection \<Rightarrow>
          let c = c\<lparr>ct_requireIPv6 := in_IPv6Enabled inspection\<rparr> in
          (case WithGuestSetup (ctx 0) (profile 1) of
             Inl e \<Rightarrow> (c, Some (failed_as ErrKillSwitchFailed (ErrGuestProfile e)))
           | Inr setup \<Rightarrow>
              (case op_ArmKillSwitch ops (\<lambda>i. ctx (1 + i)) setup (ct_backend c) of
                 (b, Some e) \<Rightarrow> (c\<lparr>ct_backend := b\<rparr>, Some (failed_as ErrKillSwitchFailed e))
               | (b, None) \<Rightarrow> configure_armed ops app ctx verifier (profile 2)
                   (c\<lparr>ct_backend := b, ct_state := StateKillSwitchArmed, ct_killSwitchArmed := True\<rparr>))))"

definition Verify :: "'o OnlineOps \<Rightarrow> verifier \<Rightarrow> ('b, 'o) Controller \<Rightarrow> ('b, 'o) Controller \<times> guestvpn_error option" where
  "Verify app verifier c =
     (if ct_state c \<noteq> StateConfigured \<and> ct_state c \<noteq> StateVerified \<and> ct_state c \<noteq> StateDegraded then (c, Some ErrInvalidRequest)
      else and_then (if ct_onlineActive c then (c, None) else start_online app c) (run_verifier verifier (\<lambda>c. c)))"

definition stop_online :: "'o OnlineOps \<Rightarrow> ('b, 'o) Controller \<Rightarrow> ('b, 'o) Controller \<times> bool" where
  "stop_online app c =
     (case ct_online c of None \<Rightarrow> (c, True)
      | Some online \<Rightarrow>
         if \<not> ct_onlineActive c then (c, True)
         else case on_Stop app online of (online', r) \<Rightarrow>
           if r \<noteq> None then (c\<lparr>ct_online := Some online'\<rparr>, False)
           else (c\<lparr>ct_online := Some online', ct_onlineActive := False\<rparr>, True))"

definition stop_network :: "'b BackendOps \<Rightarrow> ('b, 'o) Controller \<Rightarrow> ('b, 'o) Controller \<times> guestvpn_error option" where
  "stop_network ops c =
     (case op_RemoveTunnel ops (ct_backend c) of
        (b, Some _) \<Rightarrow> (c\<lparr>ct_backend := b, ct_state := StateDegraded\<rparr>, Some ErrVPNCleanupIncomplete)
      | (b, None) \<Rightarrow>
         (let c = c\<lparr>ct_proof := no_proof, ct_requireIPv6 := False, ct_configured := False, ct_state := StateKillSwitchArmed\<rparr> in
          case op_RemoveKillSwitch ops b of
            (b, Some _) \<Rightarrow> (c\<lparr>ct_backend := b, ct_state := StateDegraded\<rparr>, Some ErrVPNCleanupIncomplete)
          | (b, None) \<Rightarrow> (c\<lparr>ct_backend := b, ct_killSwitchArmed := False, ct_state := StateStopped\<rparr>, None)))"

definition Stop :: "'b BackendOps \<Rightarrow> 'o OnlineOps \<Rightarrow> ('b, 'o) Controller \<Rightarrow> ('b, 'o) Controller \<times> guestvpn_error option" where
  "Stop ops app c =
     (if ct_state c = StateUnconfigured \<or> ct_state c = StateStopped
      then case stop_online app c of
        (c, False) \<Rightarrow> (c, Some ErrVPNCleanupIncomplete)
      | (c, True) \<Rightarrow> (c\<lparr>ct_state := StateStopped, ct_proof := no_proof, ct_requireIPv6 := False, ct_killSwitchArmed := False,
           ct_configured := False\<rparr>, None)
      else case stop_online app c of
        (c, False) \<Rightarrow> (c\<lparr>ct_state := StateDegraded\<rparr>, Some ErrVPNCleanupIncomplete)
      | (c, True) \<Rightarrow> stop_network ops c)"

text \<open>
  \<^verbatim>\<open>Monitor\<close> with no other caller: each element of the list is a tick with the verifier's answers and the
  responder's; the context ending is \<open>None\<close>.  With the list used up the loop is still waiting.
\<close>

definition maximumMonitorInterval :: int where "maximumMonitorInterval = 5 * 60 * 1000000000"

type_synonym tick = "(verifier \<times> guestvpn_error option) option"

fun monitor_loop :: "'o OnlineOps \<Rightarrow> tick list \<Rightarrow> ('b, 'o) Controller \<Rightarrow> VPNStatus list \<Rightarrow>
    ('b, 'o) Controller \<times> VPNStatus list \<times> guestvpn_error option" where
  "monitor_loop app [] c losses = (c, losses, None)"
| "monitor_loop app (None # ticks) c losses = (c, losses, Some ErrGuestContext)"
| "monitor_loop app (Some (verifier, response) # ticks) c losses =
     (case Verify app verifier c of
        (c', None) \<Rightarrow> monitor_loop app ticks c' losses
      | (c', Some e) \<Rightarrow>
          if isContextError e then (c', losses, Some e)
          else (c', losses @ [statusLocked c'],
            Some (case response of Some e' \<Rightarrow> if isContextError e' then e' else ErrTunnelLost | None \<Rightarrow> ErrTunnelLost)))"

definition Monitor :: "'o OnlineOps \<Rightarrow> int \<Rightarrow> tick list \<Rightarrow> ('b, 'o) Controller \<Rightarrow> ('b, 'o) Controller \<times> VPNStatus list \<times> guestvpn_error option" where
  "Monitor app interval ticks c =
     (if interval \<le> 0 \<or> maximumMonitorInterval < interval then (c, [], Some ErrInvalidRequest)
      else if vs_State (statusLocked c) \<noteq> StateVerified then (c, [], Some ErrInvalidRequest)
      else monitor_loop app ticks c [])"

text \<open>Any sequence of calls on one controller, each holding its lock throughout.\<close>

inductive controller_step :: "'b BackendOps \<Rightarrow> 'o OnlineOps \<Rightarrow> ('b, 'o) Controller \<Rightarrow> ('b, 'o) Controller \<Rightarrow> bool"
  for ops :: "'b BackendOps" and app :: "'o OnlineOps" where
  configured: "Configure ops app ctx verifier profile c = (c', r) \<Longrightarrow> controller_step ops app c c'"
| verified: "Verify app verifier c = (c', r) \<Longrightarrow> controller_step ops app c c'"
| stopped: "Stop ops app c = (c', r) \<Longrightarrow> controller_step ops app c c'"


section \<open>Fail closed\<close>

definition rising :: "vpn_state \<Rightarrow> bool" where
  "rising s \<longleftrightarrow> s = StateConfigured \<or> s = StateVerified \<or> s = StateDegraded"

lemma rising_simps [simp]:
  "rising StateConfigured" "rising StateVerified" "rising StateDegraded"
  "\<not> rising StateUnconfigured" "\<not> rising StateKillSwitchArmed" "\<not> rising StateStopped"
  by (simp_all add: rising_def)

lemma rising_armed: "rising s \<Longrightarrow> s \<noteq> StateUnconfigured \<and> s \<noteq> StateStopped \<and> s \<noteq> StateKillSwitchArmed"
  by auto

text \<open>
  A controller over a lawful backend and an application that is no longer running once it was stopped
  (\<open>running\<close> observes its process).
\<close>

locale fail_closed = vpn_backend ops inv sealed tunnelled
  for ops :: "'b BackendOps" and inv and sealed and tunnelled +
  fixes app :: "'o OnlineOps" and app_ok :: "'o \<Rightarrow> bool" and running :: "'o \<Rightarrow> bool"
  assumes start_law: "app_ok online \<Longrightarrow> on_Start app online = (online', r) \<Longrightarrow> app_ok online'"
    and stop_law: "app_ok online \<Longrightarrow> on_Stop app online = (online', r) \<Longrightarrow> app_ok online' \<and> (r = None \<longrightarrow> \<not> running online')"
begin

definition live :: "('b, 'o) Controller \<Rightarrow> bool" where
  "live c \<longleftrightarrow> (\<exists>online. ct_online c = Some online \<and> running online)"

definition shut :: "'b \<Rightarrow> bool" where
  "shut b \<longleftrightarrow> (\<exists>ep. sealed b ep \<and> publicEndpointAddress (fst ep))"

lemma shut_mono: "(\<forall>ep. sealed b ep \<longrightarrow> sealed b' ep) \<Longrightarrow> shut b \<Longrightarrow> shut b'"
  unfolding shut_def by blast

text \<open>The backend's part of the invariant, and the application's.\<close>

definition net_inv :: "('b, 'o) Controller \<Rightarrow> bool" where
  "net_inv c \<longleftrightarrow> inv (ct_backend c) \<and>
     (ct_killSwitchArmed c \<longleftrightarrow> ct_state c \<noteq> StateUnconfigured \<and> ct_state c \<noteq> StateStopped) \<and>
     (ct_killSwitchArmed c \<longrightarrow> shut (ct_backend c)) \<and>
     (tunnelled (ct_backend c) \<longrightarrow> ct_killSwitchArmed c)"

definition app_inv :: "('b, 'o) Controller \<Rightarrow> bool" where
  "app_inv c \<longleftrightarrow> pred_option app_ok (ct_online c) \<and> (live c \<longrightarrow> ct_onlineActive c) \<and>
     (ct_onlineActive c \<longrightarrow> ct_online c \<noteq> None \<and> rising (ct_state c)) \<and>
     (ct_state c = StateVerified \<longrightarrow> proof_complete (ct_requireIPv6 c) (po_RequireTorrentBinding (ct_policy c)) (ct_proof c))"

lemma stop_running:
  "on_Stop app online = (online', r) \<Longrightarrow> app_ok online \<Longrightarrow> app_ok online'"
  "on_Stop app online = (online', r) \<Longrightarrow> app_ok online \<Longrightarrow> running online' \<Longrightarrow> \<exists>e. r = Some e"
  using stop_law [of online online' r] by (cases r; simp)+

lemma stopOnlineDetached_net: "net_inv (stopOnlineDetached app c) = net_inv c"
  by (simp add: stopOnlineDetached_def net_inv_def split: option.splits prod.splits)

lemma stopOnlineDetached_app: "app_inv c \<Longrightarrow> app_inv (stopOnlineDetached app c)"
  by (auto simp: stopOnlineDetached_def app_inv_def live_def split: option.splits prod.splits dest: stop_running)

lemma stopOnlineDetached_state: "ct_state (stopOnlineDetached app c) = ct_state c"
  by (simp add: stopOnlineDetached_def split: option.splits prod.splits)

definition upward :: "('b, 'o) Controller \<Rightarrow> bool" where
  "upward c \<longleftrightarrow> net_inv c \<and> app_inv c \<and> rising (ct_state c)"

lemma stopOnlineDetached_upward: "upward c \<Longrightarrow> upward (stopOnlineDetached app c)"
  by (simp add: upward_def stopOnlineDetached_net stopOnlineDetached_app stopOnlineDetached_state)

lemma upward_online: "upward c \<Longrightarrow> app_ok x \<Longrightarrow> upward (c\<lparr>ct_online := Some x, ct_onlineActive := True\<rparr>)"
  by (auto simp: upward_def net_inv_def app_inv_def)

lemma upward_degraded: "upward c \<Longrightarrow> upward (c\<lparr>ct_state := StateDegraded\<rparr>)"
  by (auto simp: upward_def net_inv_def app_inv_def live_def)

lemma start_online_upward:
  assumes "start_online app c = (c', r)" "upward c"
  shows "upward c'"
proof -
  have ok: "pred_option app_ok (ct_online c)" using assms(2) by (simp add: upward_def app_inv_def)
  consider "c' = c" | online where "app_ok online" "c' = c\<lparr>ct_online := Some online, ct_onlineActive := True\<rparr>"
    | online where "app_ok online"
        "c' = stopOnlineDetached app (c\<lparr>ct_online := Some online, ct_onlineActive := True, ct_state := StateDegraded\<rparr>)"
    using assms(1) ok by (auto simp: start_online_def split: option.splits prod.splits dest: start_law)
  then show ?thesis
  proof cases
    case (3 online)
    show ?thesis unfolding 3(2) using upward_degraded [OF upward_online [OF assms(2) 3(1)]] by (intro stopOnlineDetached_upward) simp
  qed (use assms(2) upward_online in blast)+
qed

lemma run_verifier_upward:
  assumes "run_verifier verifier on_failure c = (c', r)" "upward c" "\<And>c. upward c \<Longrightarrow> upward (on_failure c)"
  shows "upward c'"
proof -
  obtain p e where v: "verifier (verificationPolicyLocked c) = (p, e)" by (cases "verifier (verificationPolicyLocked c)")
  show ?thesis
  proof (cases "e \<noteq> None \<or> \<not> proof_complete (ct_requireIPv6 c) (po_RequireTorrentBinding (ct_policy c)) p")
    case True
    then have "c' = on_failure (c\<lparr>ct_proof := p, ct_state := StateDegraded\<rparr>)"
      using assms(1) v by (auto simp: run_verifier_def)
    moreover have "upward (c\<lparr>ct_proof := p, ct_state := StateDegraded\<rparr>)"
      using assms(2) by (auto simp: upward_def net_inv_def app_inv_def live_def)
    ultimately show ?thesis using assms(3) by simp
  next
    case False
    then have "c' = c\<lparr>ct_proof := p, ct_state := StateVerified\<rparr>" using assms(1) v by (simp add: run_verifier_def)
    then show ?thesis using assms(2) False by (auto simp: upward_def net_inv_def app_inv_def live_def dest: rising_armed)
  qed
qed

lemma and_then_upward:
  assumes "and_then p f = (c', r)" "\<And>c r. p = (c, r) \<Longrightarrow> upward c" "\<And>c. upward c \<Longrightarrow> f c = (c', r) \<Longrightarrow> upward c'"
  shows "upward c'"
  using assms(1) by (cases rule: and_then_cases) (use assms(2,3) in blast)+

lemma Verify_inv:
  assumes "Verify app verifier c = (c', r)" "net_inv c" "app_inv c"
  shows "net_inv c'" "app_inv c'"
proof -
  have "net_inv c' \<and> app_inv c'"
  proof (cases "rising (ct_state c)")
    case False
    then show ?thesis using assms by (auto simp: Verify_def rising_def)
  next
    case True
    then have up: "upward c" using assms by (simp add: upward_def)
    have "and_then (if ct_onlineActive c then (c, None) else start_online app c) (run_verifier verifier (\<lambda>c. c)) = (c', r)"
      using assms(1) True by (auto simp: Verify_def rising_def)
    then have "upward c'"
      by (rule and_then_upward) (use up in \<open>auto split: if_splits intro: start_online_upward run_verifier_upward\<close>)
    then show ?thesis by (simp add: upward_def)
  qed
  then show "net_inv c'" "app_inv c'" by blast+
qed

lemma sealed_backend:
  assumes "net_inv c" "ct_killSwitchArmed c" "inv b" "\<forall>ep. sealed (ct_backend c) ep \<longrightarrow> sealed b ep"
  shows "net_inv (c\<lparr>ct_backend := b\<rparr>)"
  using assms(1-3) shut_mono [OF assms(4)] by (simp add: net_inv_def)

lemma removeTunnelDetached_inv:
  assumes "net_inv c" "app_inv c" "ct_killSwitchArmed c"
  shows "net_inv (removeTunnelDetached ops c)" "app_inv (removeTunnelDetached ops c)"
proof -
  obtain b r where call: "op_RemoveTunnel ops (ct_backend c) = (b, r)" by (cases "op_RemoveTunnel ops (ct_backend c)")
  have "inv (ct_backend c)" using assms(1) by (simp add: net_inv_def)
  from remove_law [OF this call] have "net_inv (c\<lparr>ct_backend := b\<rparr>)" by (intro sealed_backend [OF assms(1,3)]) blast+
  then show "net_inv (removeTunnelDetached ops c)" using call by (simp add: removeTunnelDetached_def)
  show "app_inv (removeTunnelDetached ops c)" using assms(2) by (simp add: removeTunnelDetached_def app_inv_def live_def)
qed

lemma configure_armed_inv:
  assumes run: "configure_armed ops app ctx verifier profile c = (c', r)"
    and c: "net_inv c" "app_inv c" "ct_killSwitchArmed c"
  shows "net_inv c' \<and> app_inv c'"
proof (cases "WithGuestSetup (ctx 2) profile")
  case (Inl e)
  then show ?thesis using run removeTunnelDetached_inv [OF c] by (auto simp: configure_armed_def)
next
  case (Inr s)
  obtain b e where call: "op_ConfigureTunnel ops (\<lambda>i. ctx (3 + i)) (ct_underlay c) s (ct_backend c) = (b, e)"
    by (cases "op_ConfigureTunnel ops (\<lambda>i. ctx (3 + i)) (ct_underlay c) s (ct_backend c)")
  let ?c = "c\<lparr>ct_backend := b\<rparr>"
  have "inv (ct_backend c)" using c by (simp add: net_inv_def)
  from configure_law [OF this call] have net: "net_inv ?c" by (intro sealed_backend [OF c(1,3)]) blast+
  have appl: "app_inv ?c" using c by (simp add: app_inv_def live_def)
  show ?thesis
  proof (cases e)
    case (Some e')
    then show ?thesis using run Inr call removeTunnelDetached_inv [OF net appl] c(3) by (auto simp: configure_armed_def)
  next
    case None
    have up: "upward (?c\<lparr>ct_state := StateConfigured, ct_configured := True\<rparr>)"
      using net appl c(3) by (auto simp: upward_def net_inv_def app_inv_def live_def)
    have "and_then (start_online app (?c\<lparr>ct_state := StateConfigured, ct_configured := True\<rparr>))
        (run_verifier verifier (stopOnlineDetached app)) = (c', r)"
      using run Inr call None by (simp add: configure_armed_def)
    then have "upward c'"
      by (rule and_then_upward) (blast intro: start_online_upward up run_verifier_upward stopOnlineDetached_upward)+
    then show ?thesis by (simp add: upward_def)
  qed
qed

lemma Configure_inv:
  assumes run: "Configure ops app ctx verifier profile c = (c', r)" and c: "net_inv c" "app_inv c"
  shows "net_inv c' \<and> app_inv c'"
proof (cases "(ct_state c \<noteq> StateUnconfigured \<and> ct_state c \<noteq> StateStopped) \<or> (\<exists>e. InspectProfile (profile 0) = Inl e)")
  case True
  then show ?thesis using run c by (auto simp: Configure_def split: if_splits)
next
  case False
  then obtain i where i: "InspectProfile (profile 0) = Inr i" by (cases "InspectProfile (profile 0)") auto
  let ?c = "c\<lparr>ct_requireIPv6 := in_IPv6Enabled i\<rparr>"
  have idle: "ct_state c = StateUnconfigured \<or> ct_state c = StateStopped" using False by auto
  have net: "net_inv ?c" using c by (auto simp: net_inv_def)
  have appl: "app_inv ?c" using c idle by (auto simp: app_inv_def live_def)
  show ?thesis
  proof (cases "WithGuestSetup (ctx 0) (profile 1)")
    case (Inl e)
    then show ?thesis using run False i net appl by (auto simp: Configure_def)
  next
    case (Inr s)
    obtain b e where call: "op_ArmKillSwitch ops (\<lambda>i. ctx (1 + i)) s (ct_backend c) = (b, e)"
      by (cases "op_ArmKillSwitch ops (\<lambda>i. ctx (1 + i)) s (ct_backend c)")
    have law: "inv b" "e = None \<longrightarrow> sealed b (SetupEndpoint s)" "tunnelled b \<longrightarrow> tunnelled (ct_backend c)"
      using arm_law [OF _ call] c by (auto simp: net_inv_def)
    have public: "publicEndpointAddress (fst (SetupEndpoint s))"
      using Inr by (auto simp: WithGuestSetup_def SetupEndpoint_def split: if_splits)
    show ?thesis
    proof (cases e)
      case (Some e')
      then have "c' = ?c\<lparr>ct_backend := b\<rparr>" using run idle i Inr call by (auto simp: Configure_def)
      then show ?thesis using law net appl idle by (auto simp: net_inv_def app_inv_def live_def)
    next
      case None
      let ?d = "?c\<lparr>ct_backend := b, ct_state := StateKillSwitchArmed, ct_killSwitchArmed := True\<rparr>"
      have armed: "configure_armed ops app ctx verifier (profile 2) ?d = (c', r)"
        using run idle i Inr call None by (auto simp: Configure_def)
      have "shut b" unfolding shut_def using law(2) None public by blast
      then have net': "net_inv ?d" using law by (auto simp: net_inv_def)
      have appl': "app_inv ?d" using appl idle by (auto simp: app_inv_def live_def)
      show ?thesis by (rule configure_armed_inv [OF armed net' appl']) simp
    qed
  qed
qed

lemma app_inv_ok: "app_inv c \<Longrightarrow> pred_option app_ok (ct_online c)"
  by (simp add: app_inv_def)

lemma stop_online_cases:
  assumes "stop_online app c = (d, off)" "pred_option app_ok (ct_online c)"
  obtains (nothing) "d = c" "off" "ct_online c = None \<or> \<not> ct_onlineActive c"
    | (gone) online where "d = c\<lparr>ct_online := Some online, ct_onlineActive := False\<rparr>" "off" "\<not> running online" "app_ok online"
    | (failed) online where "d = c\<lparr>ct_online := Some online\<rparr>" "\<not> off" "ct_onlineActive c" "app_ok online"
  using assms stop_running by (fastforce simp: stop_online_def split: option.splits if_splits prod.splits)

lemma stop_online_inv:
  assumes "stop_online app c = (d, off)" "net_inv c" "app_inv c"
  shows "net_inv d \<and> app_inv d \<and> ct_state d = ct_state c \<and> (off \<longrightarrow> \<not> live d \<and> \<not> ct_onlineActive d)"
  using assms(1) app_inv_ok [OF assms(3)]
  by (cases rule: stop_online_cases) (use assms(2,3) in \<open>auto simp: net_inv_def app_inv_def live_def\<close>)

lemma stop_network_inv:
  assumes run: "stop_network ops c = (c', r)" and c: "net_inv c" "ct_killSwitchArmed c" "\<not> live c" "\<not> ct_onlineActive c"
    and ok: "pred_option app_ok (ct_online c)"
  shows "net_inv c' \<and> app_inv c'"
proof -
  obtain b e where rm: "op_RemoveTunnel ops (ct_backend c) = (b, e)" by (cases "op_RemoveTunnel ops (ct_backend c)")
  have law: "inv b" "\<forall>ep. sealed (ct_backend c) ep \<longrightarrow> sealed b ep" "e = None \<longrightarrow> \<not> tunnelled b"
    using remove_law [OF _ rm] c(1) unfolding net_inv_def by blast+
  have still: "shut b" using c(1,2) shut_mono [OF law(2)] by (simp add: net_inv_def)
  show ?thesis
  proof (cases e)
    case (Some e')
    then have "c' = c\<lparr>ct_backend := b, ct_state := StateDegraded\<rparr>" using run rm by (simp add: stop_network_def)
    then show ?thesis using still law(1) c ok by (auto simp: net_inv_def app_inv_def live_def)
  next
    case None
    obtain b' e' where un: "op_RemoveKillSwitch ops b = (b', e')" by (cases "op_RemoveKillSwitch ops b")
    have un_law: "inv b'" "e' \<noteq> None \<longrightarrow> (\<forall>ep. sealed b ep \<longrightarrow> sealed b' ep)" "\<not> tunnelled b'"
      using unseal_law [OF law(1) un] law(3) None by auto
    have "e' \<noteq> None \<longrightarrow> shut b'" using still un_law(2) shut_mono by blast
    then show ?thesis
      using run rm None un un_law(1,3) c(2-4) ok by (cases e') (auto simp: stop_network_def net_inv_def app_inv_def live_def)
  qed
qed

lemma Stop_inv:
  assumes run: "Stop ops app c = (c', r)" and c: "net_inv c" "app_inv c"
  shows "net_inv c' \<and> app_inv c'"
proof -
  obtain d ok where off: "stop_online app c = (d, ok)" by (cases "stop_online app c")
  have d: "net_inv d" "app_inv d" "ct_state d = ct_state c" "ok \<longrightarrow> \<not> live d \<and> \<not> ct_onlineActive d"
    using stop_online_inv [OF off c] by blast+
  show ?thesis
  proof (cases "ct_state c = StateUnconfigured \<or> ct_state c = StateStopped")
    case True
    then have "\<not> ct_killSwitchArmed d" "\<not> ct_onlineActive d" using d by (auto simp: net_inv_def app_inv_def)
    with True show ?thesis
      using run off d by (cases ok) (auto simp: Stop_def net_inv_def app_inv_def live_def)
  next
    case False
    then have armed: "ct_killSwitchArmed d" using d by (auto simp: net_inv_def)
    show ?thesis
    proof (cases ok)
      case False': False
      then have "c' = d\<lparr>ct_state := StateDegraded\<rparr>" using run off False by (auto simp: Stop_def)
      then show ?thesis using d armed by (auto simp: net_inv_def app_inv_def live_def)
    next
      case True
      then have "stop_network ops d = (c', r)" using run off False by (auto simp: Stop_def)
      then show ?thesis using d armed True app_inv_ok [OF d(2)] by (intro stop_network_inv) auto
    qed
  qed
qed

lemma reachable_inv:
  assumes "(controller_step ops app)\<^sup>*\<^sup>* c c'" "net_inv c" "app_inv c"
  shows "net_inv c' \<and> app_inv c'"
  using assms
proof induction
  case (step d e)
  from step.hyps(2) show ?case
    by cases (use step.IH step.prems Configure_inv Verify_inv Stop_inv in blast)+
qed simp

lemma new_inv:
  assumes "newController b online policy underlay = Inr c" "inv b" "\<not> tunnelled b" "pred_option (\<lambda>p. app_ok p \<and> \<not> running p) online"
  shows "net_inv c" "app_inv c"
  using assms by (cases online; auto simp: newController_def net_inv_def app_inv_def live_def split: option.splits)+

end

end
