(* ===== verification/Guest_Probes.thy ===== *)
theory Guest_Probes
  imports Guest_VPN
begin

text \<open>
  The resolver adapter of \<^verbatim>\<open>internal/guestvpn/resolved_dns.go\<close>, the DNS leak probe of \<^verbatim>\<open>resolved_probe.go\<close> and the bound
  connection probe of \<^verbatim>\<open>probes.go\<close>.  The bus, the link table and the dialler are parameters; \<open>'k\<close> is
  the guest's kernel and services, as for the backend.
\<close>

section \<open>Tunnel-only DNS\<close>

datatype resolved_call = SetLinkDNS int "(int \<times> u8 list) list" | SetLinkDomains int "(string \<times> bool) list"
  | SetLinkDefaultRoute int bool | SetLinkLLMNR int string | SetLinkMulticastDNS int string | RevertLink int

text \<open>\<open>rs_ended\<close> says whether the operation's context has ended.\<close>

record 'k SystemdResolvedDNS =
  rs_linkIndex :: "string \<Rightarrow> 'k \<Rightarrow> int option"
  rs_connect :: "'k guest_call"
  rs_Call :: "resolved_call \<Rightarrow> 'k guest_call"
  rs_ended :: "'k \<Rightarrow> bool"

definition AF_INET :: int where "AF_INET = 2"
definition AF_INET6 :: int where "AF_INET6 = 10"

definition AsSlice :: "Addr \<Rightarrow> u8 list" where
  "AsSlice a =
     (case a of AddrNone \<Rightarrow> [] | Addr4 w \<Rightarrow> octets w
      | Addr6 w _ \<Rightarrow> map (\<lambda>i. ucast (drop_bit (8 * (15 - i)) w)) [0..<16])"

definition normalizeResolvedError :: "'k SystemdResolvedDNS \<Rightarrow> 'k \<Rightarrow> guestvpn_error" where
  "normalizeResolvedError r w = (if rs_ended r w then ErrGuestContext else ErrGuestCommand)"

definition dns_addresses :: "bool \<Rightarrow> profileState \<Rightarrow> (int \<times> u8 list) list option" where
  "dns_addresses cancelled setup =
     (let servers = ps_dnsServers setup in
      if servers = [] \<or> cancelled \<or> 8 < length servers \<or> list_ex (\<lambda>a. a = AddrNone \<or> Is4In6 a) servers then None
      else Some (map (\<lambda>a. (if Is4 a then AF_INET else AF_INET6, AsSlice a)) servers))"

definition resolved_calls :: "int \<Rightarrow> (int \<times> u8 list) list \<Rightarrow> resolved_call list" where
  "resolved_calls index addresses =
     [SetLinkDNS index addresses, SetLinkDomains index [(''.'', True)], SetLinkDefaultRoute index True,
      SetLinkLLMNR index ''no'', SetLinkMulticastDNS index ''no'']"

text \<open>The first call that fails reverts the link; whether the revert worked is not looked at.\<close>

fun run_calls :: "'k SystemdResolvedDNS \<Rightarrow> int \<Rightarrow> resolved_call list \<Rightarrow> 'k guest_call" where
  "run_calls r index [] w = (w, None)"
| "run_calls r index (call # calls) w =
     (case rs_Call r call w of
        (w', None) \<Rightarrow> run_calls r index calls w'
      | (w', Some _) \<Rightarrow> let w'' = fst (rs_Call r (RevertLink index) w') in (w'', Some (normalizeResolvedError r w'')))"

definition resolved_configure :: "'k SystemdResolvedDNS \<Rightarrow> bool \<Rightarrow> profileState \<Rightarrow> 'k guest_call" where
  "resolved_configure r cancelled setup w =
     (case rs_linkIndex r TunnelInterface w of None \<Rightarrow> (w, Some ErrGuestCommand)
      | Some index \<Rightarrow>
         if index \<le> 0 then (w, Some ErrGuestCommand)
         else case dns_addresses cancelled setup of None \<Rightarrow> (w, Some ErrGuestCommand)
          | Some addresses \<Rightarrow>
             (case rs_connect r w of (w', Some _) \<Rightarrow> (w', Some (normalizeResolvedError r w'))
              | (w', None) \<Rightarrow> run_calls r index (resolved_calls index addresses) w'))"

definition resolved_clear :: "'k SystemdResolvedDNS \<Rightarrow> 'k guest_call" where
  "resolved_clear r w =
     (case rs_linkIndex r TunnelInterface w of None \<Rightarrow> (w, Some ErrGuestCommand)
      | Some index \<Rightarrow>
         if index \<le> 0 then (w, Some ErrGuestCommand)
         else case rs_connect r w of (w', Some _) \<Rightarrow> (w', Some (normalizeResolvedError r w'))
          | (w', None) \<Rightarrow>
             (case rs_Call r (RevertLink index) w' of (w'', Some _) \<Rightarrow> (w'', Some (normalizeResolvedError r w''))
              | (w'', None) \<Rightarrow> (w'', None)))"

section \<open>The DNS leak probe\<close>

record resolvedAnswer =
  ra_Interface :: int
  ra_Family :: int
  ra_Address :: "u8 list"

definition maximumDNSAnswers :: nat where "maximumDNSAnswers = 16"
definition resolvedProtocolDNS :: u64 where "resolvedProtocolDNS = 1"

definition AddrFromSlice :: "u8 list \<Rightarrow> Addr option" where
  "AddrFromSlice bs =
     (if length bs = 4 then Some (Addr4 (of_octets bs))
      else if length bs = 16 then Some (Addr6 (foldl (\<lambda>w b. push_bit 8 w OR ucast b) 0 bs) [])
      else None)"

definition answer_ok :: "int \<Rightarrow> resolvedAnswer \<Rightarrow> bool" where
  "answer_ok index answer \<longleftrightarrow>
     ra_Interface answer = index \<and>
     (case AddrFromSlice (ra_Address answer) of None \<Rightarrow> False
      | Some address \<Rightarrow>
         (if ra_Family answer = AF_INET then Is4 address
          else if ra_Family answer = AF_INET6 then Is6 address \<and> \<not> Is4In6 address else False) \<and>
         IsGlobalUnicast address \<and> \<not> IsPrivate address \<and> \<not> IsLoopback address \<and> \<not> IsLinkLocalUnicast address)"

text \<open>\<open>None\<close>: the call failed; otherwise its answers and flags.\<close>

definition resolveOnLink :: "int \<Rightarrow> (resolvedAnswer list \<times> u64) option \<Rightarrow> bool option" where
  "resolveOnLink index reply =
     (case reply of None \<Rightarrow> None
      | Some (answers, flags) \<Rightarrow>
         if answers = [] \<or> maximumDNSAnswers < length answers \<or> flags AND resolvedProtocolDNS = 0 then Some False
         else Some (list_all (answer_ok index) answers))"

record dns_probe =
  dp_ended :: bool
  dp_linkIndex :: "string \<Rightarrow> int option"
  dp_connected :: bool
  dp_resolve :: "int \<Rightarrow> string \<Rightarrow> (resolvedAnswer list \<times> u64) option"
  dp_endedAfter :: bool

text \<open>The result pair and whether the probe failed, as the verifier reads them.\<close>

definition TunnelAndBypass :: "dns_probe \<Rightarrow> string \<Rightarrow> (bool \<times> bool) \<times> bool" where
  "TunnelAndBypass probe hostname =
     (if hostname = [] \<or> 253 < length hostname \<or> \<not> probeDomainPattern (trim_dot (to_lower hostname)) then ((False, False), True)
      else if dp_ended probe then ((False, False), True)
      else case (dp_linkIndex probe TunnelInterface, dp_linkIndex probe UnderlayInterface) of
         (Some tunnelIndex, Some underlayIndex) \<Rightarrow>
           if tunnelIndex \<le> 0 \<or> underlayIndex \<le> 0 \<or> underlayIndex = tunnelIndex \<or> \<not> dp_connected probe then ((False, False), True)
           else
             (case resolveOnLink tunnelIndex (dp_resolve probe tunnelIndex hostname) of
                None \<Rightarrow> ((False, False), True)
              | Some False \<Rightarrow> ((False, False), dp_endedAfter probe)
              | Some True \<Rightarrow>
                 if dp_endedAfter probe then ((True, False), True)
                 else
                   (case resolveOnLink underlayIndex (dp_resolve probe underlayIndex hostname) of
                      None \<Rightarrow> ((True, True), False)
                    | Some underlayOK \<Rightarrow> ((True, \<not> underlayOK), False)))
       | _ \<Rightarrow> ((False, False), True))"

section \<open>The bound connection probe\<close>

text \<open>The dialler's answer: reachable, unreachable, or an error.\<close>

definition Reachable :: "(string \<Rightarrow> bool) \<Rightarrow> (string \<Rightarrow> Addr \<times> u16 \<Rightarrow> bool option) \<Rightarrow> string \<Rightarrow> Addr \<times> u16 \<Rightarrow> bool \<times> bool" where
  "Reachable interfaceExists dial interfaceName target =
     (if (interfaceName \<noteq> TunnelInterface \<and> interfaceName \<noteq> UnderlayInterface) \<or> fst target = AddrNone then (False, True)
      else if \<not> interfaceExists interfaceName then (False, True)
      else case dial interfaceName target of None \<Rightarrow> (False, True) | Some reachable \<Rightarrow> (reachable, False))"

section \<open>What the probes show\<close>

text \<open>
  A DNS proof without failure: the tunnel link answered the name with public addresses only, each attributed to
  that link, and the underlay link gave no such answer.
\<close>

lemma TunnelAndBypass_proof:
  assumes "TunnelAndBypass probe hostname = ((True, True), False)"
  obtains tunnelIndex underlayIndex answers flags where
    "dp_linkIndex probe TunnelInterface = Some tunnelIndex" "dp_linkIndex probe UnderlayInterface = Some underlayIndex"
    "tunnelIndex \<noteq> underlayIndex" "dp_resolve probe tunnelIndex hostname = Some (answers, flags)" "answers \<noteq> []"
    "\<forall>a \<in> set answers. answer_ok tunnelIndex a"
    "resolveOnLink underlayIndex (dp_resolve probe underlayIndex hostname) \<noteq> Some True"
proof -
  obtain t u where idx: "dp_linkIndex probe TunnelInterface = Some t" "dp_linkIndex probe UnderlayInterface = Some u" "t \<noteq> u"
    and tun: "resolveOnLink t (dp_resolve probe t hostname) = Some True"
    and und: "resolveOnLink u (dp_resolve probe u hostname) \<noteq> Some True"
    using assms by (auto simp: TunnelAndBypass_def split: if_splits option.splits bool.splits)
  from tun obtain answers flags where "dp_resolve probe t hostname = Some (answers, flags)" "answers \<noteq> []"
    "\<forall>a \<in> set answers. answer_ok t a"
    by (auto simp: resolveOnLink_def list_all_iff split: option.splits if_splits)
  with idx und show ?thesis using that by blast
qed

text \<open>Without the tunnel link the DNS settings cannot be cleared.\<close>

lemma resolved_clear_no_link: "rs_linkIndex r TunnelInterface w = None \<Longrightarrow> resolved_clear r w = (w, Some ErrGuestCommand)"
  by (simp add: resolved_clear_def)

end
