(* ===== verification/Qbit_Service.thy ===== *)
theory Qbit_Service
  imports Guest_VPN
begin

text \<open>
  The downloader's online application: the process owner of \<^verbatim>\<open>internal/torrent/local_process_linux.go\<close> and the
  authenticated service of \<^verbatim>\<open>internal/torrent/local_service.go\<close> on top of it.  What the kernel, the child and its
  Web API do during one call is an element of \<open>qbit_env\<close>; a service carries the sequence of them.
\<close>

section \<open>The process owner\<close>

text \<open>
  One call's surroundings.  \<open>ev_exited\<close>: an owned child has exited by itself before the call.
  \<open>ev_context\<close>: the context has ended when the call looks at it; \<open>ev_spawned\<close>, \<open>ev_pidfd\<close>: the outcomes of
  \<^verbatim>\<open>command.Start\<close> and \<^verbatim>\<open>PidfdOpen\<close>.  \<open>ev_graceful\<close>, \<open>ev_killed\<close>: the child exited within the grace period, within
  the time after the kill; \<open>ev_termFailed\<close>, \<open>ev_killFailed\<close>: signalling failed other than with \<^verbatim>\<open>ESRCH\<close>;
  \<open>ev_callerEnded\<close>: the caller's context ended during the grace period.  \<open>ev_logins\<close>: the answers to the login
  attempts until the operation's context ends, and \<open>ev_after\<close> what a stop after a failed start meets.
\<close>

record login_response =
  lr_status :: int
  lr_body :: string
  lr_cookies :: "(string \<times> string) list"

record stop_env =
  ev_exited :: bool
  ev_graceful :: bool
  ev_killed :: bool
  ev_termFailed :: bool
  ev_killFailed :: bool
  ev_callerEnded :: bool

record start_env =
  ev_context :: bool
  ev_childExited :: bool
  ev_spawned :: bool
  ev_pidfd :: bool
  ev_logins :: "login_response option list"
  ev_after :: stop_env

datatype qbit_env = DuringStart start_env | DuringStop stop_env

text \<open>The owned child, if any, with whether it has exited.\<close>

record qbittorrentProcessManager =
  pm_active :: "bool option"

definition child_running :: "qbittorrentProcessManager \<Rightarrow> bool" where
  "child_running m \<longleftrightarrow> pm_active m = Some False"

definition child_exits :: "bool \<Rightarrow> qbittorrentProcessManager \<Rightarrow> qbittorrentProcessManager" where
  "child_exits exited m = (if exited then m\<lparr>pm_active := map_option (\<lambda>_. True) (pm_active m)\<rparr> else m)"

definition manager_start :: "start_env \<Rightarrow> qbittorrentProcessManager \<Rightarrow> qbittorrentProcessManager \<times> guestvpn_error option" where
  "manager_start env m =
     (if ev_context env then (m, Some ErrGuestContext)
      else let m = child_exits (ev_childExited env) m in
        if pm_active m = Some False then (m, None)
        else let m = m\<lparr>pm_active := None\<rparr> in
          if \<not> ev_spawned env then (m, Some ErrGuestCommand)
          else if \<not> ev_pidfd env then (m, Some ErrGuestCommand)
          else (m\<lparr>pm_active := Some False\<rparr>, None))"

text \<open>A child that could not be killed in time stays owned and running.\<close>

definition manager_stop :: "stop_env \<Rightarrow> qbittorrentProcessManager \<Rightarrow> qbittorrentProcessManager \<times> guestvpn_error option" where
  "manager_stop env m =
     (let m = child_exits (ev_exited env) m in
      if pm_active m = None then (m, None)
      else if pm_active m = Some True then (m\<lparr>pm_active := None\<rparr>, None)
      else if ev_graceful env then (m\<lparr>pm_active := None\<rparr>, if ev_termFailed env then Some ErrGuestCommand else None)
      else let m = (if ev_killed env then m\<lparr>pm_active := None\<rparr> else m) in
        (m, if ev_callerEnded env then Some ErrGuestContext
            else if \<not> ev_killed env \<or> ev_killFailed env then Some ErrGuestCommand else None))"

section \<open>The service\<close>

record LocalQBittorrentService =
  qs_manager :: qbittorrentProcessManager
  qs_cookie :: "string option"
  qs_started :: bool
  qs_env :: "nat \<Rightarrow> qbit_env"
  qs_calls :: nat

definition sid_char :: "char \<Rightarrow> bool" where
  "sid_char c \<longleftrightarrow> is_upper c \<or> is_lower c \<or> is_digit c \<or> c = CHR ''_'' \<or> c = CHR ''-''"

definition qbitSIDPattern :: "string \<Rightarrow> bool" where
  "qbitSIDPattern s \<longleftrightarrow> 16 \<le> length s \<and> length s \<le> 128 \<and> list_all sid_char s"

definition login :: "login_response option \<Rightarrow> string option" where
  "login response =
     (case response of None \<Rightarrow> None
      | Some r \<Rightarrow>
         if lr_status r \<noteq> 200 \<or> take 17 (lr_body r) \<noteq> ''Ok.'' then None
         else map_option snd (find (\<lambda>(name, value). name = ''SID'' \<and> qbitSIDPattern value) (lr_cookies r)))"

definition stopAfterFailure :: "stop_env \<Rightarrow> LocalQBittorrentService \<Rightarrow> LocalQBittorrentService" where
  "stopAfterFailure env s =
     (case manager_stop env (qs_manager s) of (m, r) \<Rightarrow>
        s\<lparr>qs_manager := m, qs_started := qs_started s \<and> r \<noteq> None\<rparr>)"

text \<open>The operation's context is bounded, so that the attempts are finitely many and end with it.\<close>

fun login_loop :: "login_response option list \<Rightarrow> string option" where
  "login_loop [] = None"
| "login_loop (response # rest) = (case login response of Some cookie \<Rightarrow> Some cookie | None \<Rightarrow> login_loop rest)"

definition no_stop_env :: stop_env where
  "no_stop_env = \<lparr>ev_exited = False, ev_graceful = False, ev_killed = False, ev_termFailed = False, ev_killFailed = False,
     ev_callerEnded = False\<rparr>"

definition start_surroundings :: "qbit_env \<Rightarrow> start_env" where
  "start_surroundings env =
     (case env of DuringStart e \<Rightarrow> e
      | DuringStop e \<Rightarrow> \<lparr>ev_context = True, ev_childExited = False, ev_spawned = False, ev_pidfd = False, ev_logins = [], ev_after = e\<rparr>)"

definition stop_surroundings :: "qbit_env \<Rightarrow> stop_env" where
  "stop_surroundings env = (case env of DuringStart e \<Rightarrow> no_stop_env | DuringStop e \<Rightarrow> e)"

definition service_start :: "LocalQBittorrentService \<Rightarrow> LocalQBittorrentService \<times> guestvpn_error option" where
  "service_start s =
     (let env = start_surroundings (qs_env s (qs_calls s)); s = s\<lparr>qs_calls := Suc (qs_calls s)\<rparr> in
      if qs_started s \<and> qs_cookie s \<noteq> None then (s, None)
      else case manager_start env (qs_manager s) of
         (m, Some e) \<Rightarrow> (stopAfterFailure (ev_after env) (s\<lparr>qs_manager := m, qs_started := True\<rparr>), Some e)
       | (m, None) \<Rightarrow>
          let s = s\<lparr>qs_manager := m, qs_started := True\<rparr> in
          (case login_loop (ev_logins env) of
             Some cookie \<Rightarrow> (s\<lparr>qs_cookie := Some cookie\<rparr>, None)
           | None \<Rightarrow> (stopAfterFailure (ev_after env) s, Some ErrGuestContext)))"

definition service_stop :: "LocalQBittorrentService \<Rightarrow> LocalQBittorrentService \<times> guestvpn_error option" where
  "service_stop s =
     (let env = stop_surroundings (qs_env s (qs_calls s)); s = s\<lparr>qs_calls := Suc (qs_calls s), qs_cookie := None\<rparr> in
      if \<not> qs_started s then (s, None)
      else case manager_stop env (qs_manager s) of
         (m, Some e) \<Rightarrow> (s\<lparr>qs_manager := m\<rparr>, Some e)
       | (m, None) \<Rightarrow> (s\<lparr>qs_manager := m, qs_started := False\<rparr>, None))"

definition newLocalQBittorrentService :: "(nat \<Rightarrow> qbit_env) \<Rightarrow> LocalQBittorrentService" where
  "newLocalQBittorrentService env =
     \<lparr>qs_manager = \<lparr>pm_active = None\<rparr>, qs_cookie = None, qs_started = False, qs_env = env, qs_calls = 0\<rparr>"

text \<open>A request to the Web API and the cookie it carries; the login path is refused.\<close>

record http_request =
  hr_scheme :: string
  hr_host :: string
  hr_path :: string

definition service_do :: "http_request \<Rightarrow> LocalQBittorrentService \<Rightarrow> string option" where
  "service_do request s =
     (if hr_scheme request \<noteq> ''http'' \<or> hr_host request \<noteq> ''127.0.0.1:8080'' \<or> hr_path request = ''/api/v2/auth/login'' then None
      else if \<not> qs_started s then None
      else case qs_cookie s of None \<Rightarrow> None
       | Some value \<Rightarrow> if qbitSIDPattern (take 129 value) then Some (''SID='' @ take 129 value) else None)"

section \<open>A stopped service has no child\<close>

definition service_ok :: "LocalQBittorrentService \<Rightarrow> bool" where
  "service_ok s \<longleftrightarrow> (child_running (qs_manager s) \<longrightarrow> qs_started s)"

lemma manager_stop_gone: "manager_stop env m = (m', r) \<Longrightarrow> child_running m' \<Longrightarrow> \<exists>e. r = Some e"
  by (auto simp: manager_stop_def child_running_def child_exits_def Let_def split: if_splits)

lemma stopAfterFailure_ok: "qs_started s \<Longrightarrow> service_ok (stopAfterFailure env s)"
  by (auto simp: stopAfterFailure_def service_ok_def split: prod.splits dest: manager_stop_gone)

lemma service_start_ok: "service_ok s \<Longrightarrow> service_start s = (s', r) \<Longrightarrow> service_ok s'"
  by (auto simp: service_start_def Let_def split: if_splits prod.splits option.splits intro!: stopAfterFailure_ok)
    (auto simp: service_ok_def)

lemma service_stop_ok:
  "service_ok s \<Longrightarrow> service_stop s = (s', r) \<Longrightarrow> service_ok s' \<and> (r = None \<longrightarrow> \<not> child_running (qs_manager s'))"
  by (auto simp: service_stop_def Let_def service_ok_def split: if_splits prod.splits option.splits dest: manager_stop_gone)

end
