(* ===== verification/Guest_Network.thy ===== *)
theory Guest_Network
  imports Guest_Controller Guest_Probes Qbit_Service VPN_Delivery
begin

text \<open>
  The guest network as the downloader composes it: the controller over the command backend and the local
  service.  It fails closed, its kill switch confines what leaves the guest, and its verifier accepts exactly
  the answers the role asks for.
\<close>

definition QbitOps :: "LocalQBittorrentService OnlineOps" where
  "QbitOps = \<lparr>on_Start = service_start, on_Stop = service_stop\<rparr>"

interpretation guest: fail_closed LinuxOps backend_ok backend_sealed "\<lambda>b. kn_link (lb_world b)" QbitOps service_ok
  "\<lambda>s. child_running (qs_manager s)"
proof unfold_locales
  show "service_ok s'" if "service_ok s" "on_Start QbitOps s = (s', r)" for s s' r
    using that service_start_ok by (simp add: QbitOps_def)
  show "service_ok s' \<and> (r = None \<longrightarrow> \<not> child_running (qs_manager s'))" if "service_ok s" "on_Stop QbitOps s = (s', r)" for s s' r
    using that service_stop_ok by (simp add: QbitOps_def)
qed

section \<open>Fail closed\<close>

lemma new_backend_ok:
  assumes "NewLinuxBackend paths runner dnsConfigure dnsClear w = Inr b" "kernel_laws paths runner dnsConfigure dnsClear"
    "kn_table w = None" "\<not> kn_link w"
  shows "backend_ok b" "\<not> kn_link (lb_world b)"
  using assms by (auto simp: NewLinuxBackend_def backend_ok_def split: if_splits)

lemma guest_reachable_inv:
  assumes "NewLinuxBackend paths runner dnsConfigure dnsClear w = Inr b" "kernel_laws paths runner dnsConfigure dnsClear"
    "kn_table w = None" "\<not> kn_link w"
    and "newController b (map_option newLocalQBittorrentService env) policy underlay = Inr c"
    and "(controller_step LinuxOps QbitOps)\<^sup>*\<^sup>* c c'"
  shows "guest.net_inv c' \<and> guest.app_inv c'"
  using guest.new_inv [OF assms(5) new_backend_ok [OF assms(1-4)]] guest.reachable_inv [OF assms(6)]
  by (cases env) (auto simp: newLocalQBittorrentService_def service_ok_def child_running_def)


section \<open>An example guest\<close>

definition example_paths :: ToolPaths where
  "example_paths = \<lparr>tp_IP = ''/bin/ip'', tp_NFT = ''/bin/nft'', tp_WG = ''/bin/wg''\<rparr>"

definition example_runner :: "commandRequest \<Rightarrow> kernel guest_call" where
  "example_runner req w =
     (if cr_path req = ''/bin/nft'' then (w\<lparr>kn_table := if cr_args req = [''-f'', ''-''] then Some (cr_stdin req) else None\<rparr>, None)
      else if cr_args req = [''link'', ''add'', TunnelInterface, ''type'', ''wireguard''] then (w\<lparr>kn_link := True\<rparr>, None)
      else if cr_args req = [''link'', ''delete'', TunnelInterface] then (w\<lparr>kn_link := False\<rparr>, None)
      else (w, None))"

definition example_backend :: "kernel LinuxBackend" where
  "example_backend = \<lparr>lb_paths = example_paths, lb_runner = example_runner, lb_dnsConfigure = \<lambda>_ w. (w, None),
     lb_dnsClear = \<lambda>w. (w, None), lb_killArmed = False, lb_tunnel = False, lb_world = \<lparr>kn_table = None, kn_link = False\<rparr>\<rparr>"

definition example_underlay :: Underlay where
  "example_underlay =
     \<lparr>un_IPv4Address = \<lparr>pf_Addr = Addr4 0x0A000002, pf_Bits = 30\<rparr>, un_IPv4Gateway = Addr4 0x0A000001,
      un_IPv6Address = \<lparr>pf_Addr = Addr6 0xFD000000000000000000000000000002 [], pf_Bits = 126\<rparr>,
      un_IPv6Gateway = Addr6 0xFD000000000000000000000000000001 []\<rparr>"

definition example_policy :: RolePolicy where
  "example_policy = \<lparr>po_Role = RoleDownloader, po_ScannerUpdate = False, po_RequireTorrentBinding = True, po_RequireIPv6Tunnel = False\<rparr>"

definition example_targets :: ProbeTargets where
  "example_targets = \<lparr>tg_DNSName = ''probe.example.net'', tg_IPv4 = (Addr4 0x01010101, 443),
     tg_IPv6 = (Addr6 0x26064700470000000000000000001111 [], 443)\<rparr>"

definition passing_probes :: Probes where
  "passing_probes = \<lparr>pb_Recent = (True, False), pb_TunnelAndBypass = \<lambda>_. ((True, True), False),
     pb_Reachable = \<lambda>i _. (i = TunnelInterface, False), pb_Bound = (True, False), pb_ended = False\<rparr>"

definition example_env :: "nat \<Rightarrow> qbit_env" where
  "example_env n = DuringStart \<lparr>ev_context = False, ev_childExited = False, ev_spawned = True, ev_pidfd = True,
     ev_logins = [Some \<lparr>lr_status = 200, lr_body = ''Ok.'', lr_cookies = [(''SID'', ''abcdefghijklmnop'')]\<rparr>],
     ev_after = no_stop_env\<rparr>"

definition example_controller :: "(kernel LinuxBackend, LocalQBittorrentService) Controller" where
  "example_controller = \<lparr>ct_backend = example_backend, ct_online = Some (newLocalQBittorrentService example_env),
     ct_policy = example_policy, ct_underlay = example_underlay, ct_state = StateUnconfigured, ct_proof = no_proof,
     ct_requireIPv6 = False, ct_killSwitchArmed = False, ct_configured = False, ct_onlineActive = False\<rparr>"

lemma example_laws: "kernel_laws example_paths example_runner (\<lambda>_ w. (w, None)) (\<lambda>w. (w, None))"
  unfolding kernel_laws_def
proof (intro conjI)
  show "nft_laws (tp_NFT example_paths) example_runner"
    by (simp add: nft_laws_def example_runner_def example_paths_def)
  show "link_laws (tp_IP example_paths) example_runner"
    by (auto simp add: link_laws_def example_runner_def example_paths_def quiet_def)
  show "quiet_laws example_paths example_runner"
    by (simp add: quiet_laws_def example_runner_def example_paths_def quiet_def)
  show "dns_laws (\<lambda>_ w. (w, None :: guestvpn_error option)) (\<lambda>w :: kernel. (w, None))" by (simp add: dns_laws_def quiet_def)
qed

lemma example_new:
  "NewLinuxBackend example_paths example_runner (\<lambda>_ w. (w, None)) (\<lambda>w. (w, None)) \<lparr>kn_table = None, kn_link = False\<rparr> = Inr example_backend"
  "newController example_backend (map_option newLocalQBittorrentService (Some example_env)) example_policy example_underlay = Inr example_controller"
proof -
  have "paths_validate example_paths = None" by code_simp
  then show "NewLinuxBackend example_paths example_runner (\<lambda>_ w. (w, None)) (\<lambda>w. (w, None)) \<lparr>kn_table = None, kn_link = False\<rparr> = Inr example_backend"
    by (simp add: NewLinuxBackend_def example_backend_def)
  have "policy_validate example_policy = None" "underlay_validate example_underlay = None" by code_simp+
  then show "newController example_backend (map_option newLocalQBittorrentService (Some example_env)) example_policy example_underlay = Inr example_controller"
    by (simp add: newController_def example_controller_def)
qed

text \<open>The texts of a plain profile stay within the input limit.\<close>

lemma prefix_text_length:
  assumes "plain_addr (pf_Addr q)" "pf_Bits q < 1000"
  shows "length (prefix_text q) \<le> 104"
  using AppendTo_length [OF assms(1)] length_show_base [of 10 "pf_Bits q" 2] assms(2) by (simp add: prefix_text_def)

lemma unat_port: "unat (port :: u16) < 65536"
  using unsigned_less [of port] by simp

lemma port_length: "length (show_base 10 (unat (port :: u16))) \<le> 5"
  using length_show_base [of 10 "unat port" 4] unat_port [of port] by simp

lemma plain_valid: "plain_addr a \<Longrightarrow> a \<noteq> AddrNone" "plain_addr a \<Longrightarrow> \<not> Is4In6 a"
  by (auto simp: plain_addr_def Is4In6_def split: Addr.splits)

lemma killSwitchRules_plain:
  assumes "plain_addr (fst (SetupEndpoint s))" "snd (SetupEndpoint s) \<noteq> 0"
  shows "killSwitchRules False s = Inr (guest_table (fst (SetupEndpoint s)) (snd (SetupEndpoint s)))"
proof -
  obtain a port where ep: "SetupEndpoint s = (a, port)" by (cases "SetupEndpoint s")
  have "length (guest_table a port) \<le> guestCommandInputLimit"
    using AppendTo_length [of a] port_length [of port] assms(1) ep
    by (simp add: guest_table_def text_of_lines_def endpoint_rule_def neighbour_rule_def quoted_def UnderlayInterface_def TunnelInterface_def
      guestCommandInputLimit_def)
  then show ?thesis using assms ep plain_valid [of a] by (simp add: killSwitchRules_def)
qed

lemma underlayCommands_plain:
  assumes "plain_addr (fst (SetupEndpoint s))" "underlay_validate u = None" "Zone (pf_Addr (un_IPv6Address u)) = []"
    "\<not> Is4In6 (pf_Addr (un_IPv6Address u))" "\<not> Is4In6 (un_IPv6Gateway u)"
  shows "\<exists>t. underlayCommands False u s = Inr t \<and> t \<noteq> [] \<and> length t \<le> guestCommandInputLimit"
proof -
  obtain a port where ep: "SetupEndpoint s = (a, port)" by (cases "SetupEndpoint s")
  have plain: "plain_addr (pf_Addr (un_IPv4Address u))" "plain_addr (pf_Addr (un_IPv6Address u))" "plain_addr (un_IPv4Gateway u)"
      "plain_addr (un_IPv6Gateway u)" "pf_Bits (un_IPv4Address u) < 1000" "pf_Bits (un_IPv6Address u) < 1000"
    using assms(2-) by (auto simp: underlay_validate_def plain_addr_def Is4_def Is6_def Zone_def Contains_def split: if_splits Addr.splits)
  have "length (prefix_text \<lparr>pf_Addr = a, pf_Bits = BitLen a\<rparr>) \<le> 104"
    using assms(1) ep by (intro prefix_text_length) (auto simp: BitLen_def split: Addr.splits)
  moreover note prefix_text_length [OF plain(1,5)] prefix_text_length [OF plain(2,6)] AppendTo_length [OF plain(3)] AppendTo_length [OF plain(4)]
  ultimately show ?thesis
    using assms(1) ep plain_valid [of a] by (simp add: underlayCommands_def text_of_lines_def UnderlayInterface_def guestCommandInputLimit_def)
qed


lemma example_plain: "plain_addr (Addr4 w)" "plain_addr (pf_Addr (prefix4 a b c d n))"
  by (simp_all add: plain_addr_def prefix4_def)

lemma example_endpoint_plain: "SetupEndpoint example_profile = (Addr4 0x01010101, 51820)"
  by (simp add: SetupEndpoint_def example_profile_def)

lemma example_rules: "killSwitchRules False example_profile = Inr (guest_table (Addr4 0x01010101) 51820)"
  using killSwitchRules_plain [of example_profile] by (simp add: example_endpoint_plain example_plain)

lemma example_underlay_batch: "\<exists>t. underlayCommands False example_underlay example_profile = Inr t \<and> t \<noteq> [] \<and> length t \<le> guestCommandInputLimit"
proof (rule underlayCommands_plain)
  show "underlay_validate example_underlay = None" by code_simp
qed (simp_all add: example_endpoint_plain example_plain example_underlay_def Zone_def Is4In6_def)

lemma example_tunnel_batch: "\<exists>t. tunnelCommands False example_profile = Inr t \<and> t \<noteq> [] \<and> length t \<le> guestCommandInputLimit"
proof -
  have "length (prefix_text (prefix4 10 2 0 2 32)) \<le> 104" by (rule prefix_text_length) (simp_all add: plain_addr_def prefix4_def)
  then show ?thesis
    by (simp add: tunnelCommands_def example_profile_def text_of_lines_def TunnelInterface_def guestCommandInputLimit_def prefix_valid_def
      prefix4_def [of 10 2 0 2 32] BitLen_def)
qed

lemma example_wireguard: "\<exists>t. WithWireGuardConfig False example_profile = Inr t"
  using AppendTo_length [OF example_plain(1), of "0x01010101"] port_length [of 51820]
  by (simp add: WithWireGuardConfig_def config_text_def example_profile_def writeEndpoint_def allowed_text_def Is6_def
    encode_std_length MaximumProfileBytes_def)


definition example_up :: "kernel LinuxBackend" where
  "example_up = example_backend\<lparr>lb_killArmed := True, lb_tunnel := True,
     lb_world := \<lparr>kn_table = Some (guest_table (Addr4 0x01010101) 51820), kn_link = True\<rparr>\<rparr>"

lemma guest_table_split:
  "guest_table address port = text_of_lines
     ([''table inet private_vm_guest {'', '' chain input {'', ''  type filter hook input priority filter; policy drop;'',
       ''  iifname '' @ quoted ''lo'' @ '' accept'', ''  ct state { established, related } accept'',
       ''  iifname '' @ quoted TunnelInterface @ '' accept'', ''  iifname '' @ quoted UnderlayInterface @ neighbour_rule, '' }'',
       '' chain forward { type filter hook forward priority filter; policy drop; }'']) @
     text_of_lines ([ '' chain output {'', ''  type filter hook output priority filter; policy drop;''] @
       map rule_line (output_rules address port) @ ['' }'', ''}''])"
  by (simp add: guest_table_def text_of_lines_def output_rules_def rule_line_def endpoint_rule_def del: append_Cons append.simps)

lemma example_arm:
  "ArmKillSwitch (\<lambda>_. False) example_profile example_backend =
     (example_backend\<lparr>lb_killArmed := True, lb_world := \<lparr>kn_table = Some (guest_table (Addr4 0x01010101) 51820), kn_link = False\<rparr>\<rparr>, None)"
  by (simp add: ArmKillSwitch_def example_rules example_backend_def and_then_def Run_def on_world_def example_runner_def example_paths_def)

lemma example_configure_tunnel:
  "ConfigureTunnel (\<lambda>_. False) example_underlay example_profile (fst (ArmKillSwitch (\<lambda>_. False) example_profile example_backend)) = (example_up, None)"
proof -
  have valid: "underlay_validate example_underlay = None" by code_simp
  obtain t where t: "underlayCommands False example_underlay example_profile = Inr t" "t \<noteq> []" "length t \<le> guestCommandInputLimit"
    using example_underlay_batch by blast
  obtain u where u: "tunnelCommands False example_profile = Inr u" "u \<noteq> []" "length u \<le> guestCommandInputLimit"
    using example_tunnel_batch by blast
  obtain v where v: "WithWireGuardConfig False example_profile = Inr v" using example_wireguard by blast
  show ?thesis
    unfolding example_arm fst_conv
    by (simp add: ConfigureTunnel_def valid raise_tunnel_def finish_tunnel_def setconf_def t u v example_backend_def example_up_def and_then_def
      runBytes_def Run_def on_world_def example_runner_def example_paths_def not_less)
qed

definition example_verified :: "(kernel LinuxBackend, LocalQBittorrentService) Controller" where
  "example_verified = fst (Configure LinuxOps QbitOps (\<lambda>_. False) (ControlledVerify passing_probes example_targets)
     (\<lambda>_. example_profile) example_controller)"

lemma example_verify:
  "ControlledVerify passing_probes example_targets (example_policy\<lparr>po_RequireIPv6Tunnel := False\<rparr>) =
     (\<lparr>pr_Handshake = True, pr_DNSThroughTunnel = True, pr_DNSBypassBlocked = True, pr_IPv4ThroughTunnel = True,
       pr_IPv6ThroughTunnel = False, pr_IPv4BypassBlocked = True, pr_IPv6BypassBlocked = True, pr_TorrentBound = True\<rparr>, None)"
proof -
  have "policy_validate (example_policy\<lparr>po_RequireIPv6Tunnel := False\<rparr>) = None" "targets_validate example_targets = None" by code_simp+
  then show ?thesis by (simp add: ControlledVerify_def passing_probes_def verify_steps example_policy_def no_proof_def TunnelInterface_def UnderlayInterface_def)
qed


lemma example_service:
  "\<exists>s. service_start (newLocalQBittorrentService example_env) = (s, None) \<and> child_running (qs_manager s)"
proof -
  have "login_loop [Some \<lparr>lr_status = 200, lr_body = ''Ok.'', lr_cookies = [(''SID'', ''abcdefghijklmnop'')]\<rparr>] = Some ''abcdefghijklmnop''"
    by code_simp
  then show ?thesis
    by (simp add: service_start_def start_surroundings_def newLocalQBittorrentService_def example_env_def manager_start_def child_exits_def
      child_running_def del: login_loop.simps)
qed

lemma example_verified_facts:
  "(controller_step LinuxOps QbitOps)\<^sup>*\<^sup>* example_controller example_verified" "ct_state example_verified = StateVerified"
  "ct_backend example_verified = example_up" "\<exists>s. ct_online example_verified = Some s \<and> child_running (qs_manager s)"
proof -
  show "(controller_step LinuxOps QbitOps)\<^sup>*\<^sup>* example_controller example_verified"
    unfolding example_verified_def by (rule r_into_rtranclp, rule controller_step.configured, rule prod.collapse [symmetric])
  obtain s where s: "service_start (newLocalQBittorrentService example_env) = (s, None)" "child_running (qs_manager s)"
    using example_service by blast
  have setup_ok: "WithGuestSetup False example_profile = Inr example_profile" "InspectProfile example_profile \<noteq> Inl e" for e
    using public_example by (simp_all add: WithGuestSetup_def InspectProfile_def example_profile_def)
  obtain i where i: "InspectProfile example_profile = Inr i" "\<not> in_IPv6Enabled i"
    by (simp add: InspectProfile_def example_profile_def)
  have "\<exists>c. Configure LinuxOps QbitOps (\<lambda>_. False) (ControlledVerify passing_probes example_targets) (\<lambda>_. example_profile) example_controller = (c, None) \<and>
      ct_state c = StateVerified \<and> ct_backend c = example_up \<and> ct_online c = Some s"
    using example_arm example_configure_tunnel [unfolded example_arm fst_conv] example_verify s
    by (simp add: Configure_def configure_armed_def example_controller_def i setup_ok LinuxOps_def QbitOps_def start_online_def and_then_def
      run_verifier_def verificationPolicyLocked_def proof_complete_def example_policy_def)
  then show "ct_state example_verified = StateVerified" "ct_backend example_verified = example_up"
    "\<exists>s. ct_online example_verified = Some s \<and> child_running (qs_manager s)"
    using s unfolding example_verified_def by auto
qed


section \<open>Teardown after a failed link\<close>

definition broken_runner :: "commandRequest \<Rightarrow> kernel guest_call" where
  "broken_runner req w = (w, if take 2 (cr_args req) = [''link'', ''add''] then Some ErrGuestCommand else None)"

definition example_resolved :: "kernel SystemdResolvedDNS" where
  "example_resolved = \<lparr>rs_linkIndex = \<lambda>_ w. if kn_link w then Some 3 else None, rs_connect = \<lambda>w. (w, None),
     rs_Call = \<lambda>_ w. (w, None), rs_ended = \<lambda>_. False\<rparr>"

definition broken_backend :: "kernel LinuxBackend" where
  "broken_backend = example_backend\<lparr>lb_runner := broken_runner, lb_dnsClear := resolved_clear example_resolved, lb_killArmed := True\<rparr>"

text \<open>A backend that marked a link it does not have, over a resolver adapter that needs the link.\<close>

definition linkless :: "'k SystemdResolvedDNS \<Rightarrow> 'k LinuxBackend \<Rightarrow> bool" where
  "linkless r b \<longleftrightarrow> lb_tunnel b \<and> lb_dnsClear b = resolved_clear r \<and> rs_linkIndex r TunnelInterface (lb_world b) = None"

lemma linkless_RemoveTunnel: "linkless r b \<Longrightarrow> RemoveTunnel b = (b, Some ErrGuestCommand)"
  by (simp add: linkless_def RemoveTunnel_def on_world_def resolved_clear_no_link and_then_def)

lemma stop_online_keeps:
  "stop_online app c = (d, off) \<Longrightarrow> ct_backend d = ct_backend c \<and> ct_state d = ct_state c"
  by (auto simp: stop_online_def split: option.splits if_splits prod.splits)

lemma linkless_Stop:
  assumes "linkless r (ct_backend c)" "ct_state c \<noteq> StateUnconfigured" "ct_state c \<noteq> StateStopped"
  shows "snd (Stop LinuxOps app c) = Some ErrVPNCleanupIncomplete \<and> ct_backend (fst (Stop LinuxOps app c)) = ct_backend c \<and>
    ct_state (fst (Stop LinuxOps app c)) = StateDegraded"
proof -
  obtain d off where d: "stop_online app c = (d, off)" by (cases "stop_online app c")
  note keeps = stop_online_keeps [OF d]
  show ?thesis
    using assms d keeps linkless_RemoveTunnel [OF assms(1)]
    by (cases off) (simp_all add: Stop_def stop_network_def LinuxOps_def)
qed

lemma linkless_Stop_forever:
  assumes "linkless r (ct_backend c)" "ct_state c \<noteq> StateUnconfigured" "ct_state c \<noteq> StateStopped"
  shows "snd (Stop LinuxOps app (((\<lambda>c. fst (Stop LinuxOps app c)) ^^ n) c)) = Some ErrVPNCleanupIncomplete"
proof -
  let ?c = "((\<lambda>c. fst (Stop LinuxOps app c)) ^^ n) c"
  have "ct_backend ?c = ct_backend c \<and> ct_state ?c \<noteq> StateUnconfigured \<and> ct_state ?c \<noteq> StateStopped"
  proof (induction n)
    case (Suc n)
    then show ?case using linkless_Stop [of r "((\<lambda>c. fst (Stop LinuxOps app c)) ^^ n) c" app] assms(1) by simp
  qed (use assms in simp)
  then show ?thesis using linkless_Stop [of r ?c app] assms(1) by simp
qed

lemma failed_link_add:
  assumes "lb_killArmed b" "\<not> lb_tunnel b" "underlay_validate u = None" "underlayCommands (ctx 0) u s = Inr batch"
    and "runBytes tp_IP [''-batch'', ''-''] batch b = (b1, None)"
    and "lb_runner b1 \<lparr>cr_path = tp_IP (lb_paths b1), cr_args = [''link'', ''add'', TunnelInterface, ''type'', ''wireguard''], cr_stdin = []\<rparr> (lb_world b1) = (w, Some e)"
    and "lb_dnsClear b1 = resolved_clear r" "rs_linkIndex r TunnelInterface w = None"
  shows "\<exists>b'. ConfigureTunnel ctx u s b = (b', Some e) \<and> linkless r b'"
  using assms by (auto simp: ConfigureTunnel_def raise_tunnel_def and_then_def Run_def on_world_def linkless_def)

section \<open>Verification after a failed stop\<close>

text \<open>
  A stop that removed the tunnel and then failed to remove the kill switch leaves a degraded controller that is
  no longer configured; a verification from there starts the online application although no tunnel is configured.
\<close>

lemma online_starts_without_tunnel:
  assumes "rising (ct_state c)" "stop_online app c = (d, True)" "ct_online d = Some online" "\<not> ct_onlineActive d"
    and "op_RemoveTunnel ops (ct_backend d) = (b, None)" "op_RemoveKillSwitch ops b = (b', Some e)"
    and "on_Start app online = (online', None)"
  shows "\<exists>c1. Stop ops app c = (c1, Some ErrVPNCleanupIncomplete) \<and> \<not> ct_configured c1 \<and> ct_backend c1 = b' \<and>
    ct_online (fst (Verify app verifier c1)) = Some online' \<and> ct_onlineActive (fst (Verify app verifier c1)) \<and>
    \<not> ct_configured (fst (Verify app verifier c1))"
proof -
  let ?c = "d\<lparr>ct_proof := no_proof, ct_requireIPv6 := False, ct_configured := False, ct_backend := b', ct_state := StateDegraded\<rparr>"
  have "Stop ops app c = (?c, Some ErrVPNCleanupIncomplete)"
    using assms rising_armed [OF assms(1)] by (simp add: Stop_def stop_network_def)
  moreover have "ct_online (fst (Verify app verifier ?c)) = Some online'" "ct_onlineActive (fst (Verify app verifier ?c))"
    "\<not> ct_configured (fst (Verify app verifier ?c))"
    using assms by (simp_all add: Verify_def start_online_def and_then_def run_verifier_def Let_def split: prod.splits)
  ultimately show ?thesis by (intro exI [of _ ?c]) simp
qed

section \<open>Properties\<close>




text \<open>C13: the kill switch confines the guest.  The rules loaded for a profile end with an output chain whose policy drops and
  whose accepting rules are exactly those of \<open>output_rules\<close>; through them a packet leaves only by loopback or the tunnel, or by
  the underlay as neighbour discovery or as UDP to the public endpoint of the profile.\<close>

theorem kill_switch_confines:
  assumes "WithGuestSetup cancelled profile = Inr s" "killSwitchRules ended s = Inr rules" "SetupEndpoint s = (address, port)"
  shows "(\<exists>earlier. rules = earlier @ text_of_lines
        ([ '' chain output {'', ''  type filter hook output priority filter; policy drop;''] @
         map rule_line (output_rules address port) @ ['' }'', ''}''])) \<and>
    (leaves (output_rules address port) p \<longleftrightarrow>
       pk_oif p = ''lo'' \<or> pk_oif p = TunnelInterface \<or>
       pk_oif p = UnderlayInterface \<and>
         (pk_l4 p = NeighbourDiscovery \<or> pk_l4 p = Udp port \<and> pk_daddr p = address \<and> publicEndpointAddress (pk_daddr p)))"
proof (rule conjI)
  have rules: "rules = guest_table address port" using killSwitchRules_Inr [OF assms(2)] assms(3) by simp
  show "\<exists>earlier. rules = earlier @ text_of_lines
        ([ '' chain output {'', ''  type filter hook output priority filter; policy drop;''] @
         map rule_line (output_rules address port) @ ['' }'', ''}''])"
    unfolding rules by (rule exI, rule guest_table_split)
  have "publicEndpointAddress address"
    using assms(1,3) by (auto simp: WithGuestSetup_def SetupEndpoint_def split: if_splits)
  then show "leaves (output_rules address port) p \<longleftrightarrow>
       pk_oif p = ''lo'' \<or> pk_oif p = TunnelInterface \<or>
       pk_oif p = UnderlayInterface \<and>
         (pk_l4 p = NeighbourDiscovery \<or> pk_l4 p = Udp port \<and> pk_daddr p = address \<and> publicEndpointAddress (pk_daddr p))"
    by (auto simp: leaves_def output_rules_def rule_accepts_def)
qed

theorem kill_switch_confines_witness:
  "\<exists>rules. killSwitchRules False example_profile = Inr rules \<and>
     leaves (output_rules (Addr4 0x01010101) 51820) \<lparr>pk_oif = ''eth0'', pk_daddr = Addr4 0x01010101, pk_l4 = Udp 51820\<rparr> \<and>
     \<not> leaves (output_rules (Addr4 0x01010101) 51820) \<lparr>pk_oif = ''eth0'', pk_daddr = Addr4 0x08080808, pk_l4 = Udp 53\<rparr>"
proof -
  have "WithGuestSetup False example_profile = Inr example_profile"
    using public_example by (simp add: WithGuestSetup_def example_profile_def)
  note confines = kill_switch_confines [OF this example_rules example_endpoint_plain]
  show ?thesis
    using example_rules public_example
      confines [of "\<lparr>pk_oif = ''eth0'', pk_daddr = Addr4 0x01010101, pk_l4 = Udp 51820\<rparr>"]
      confines [of "\<lparr>pk_oif = ''eth0'', pk_daddr = Addr4 0x08080808, pk_l4 = Udp 53\<rparr>"]
    by (simp add: UnderlayInterface_def TunnelInterface_def)
qed

text \<open>C36: the verifier accepts exactly the answers the role asks for: for a valid policy and valid targets it reports a complete
  proof and no failure if and only if the handshake is recent, DNS goes through the tunnel and not around it, both targets are
  unreachable through the underlay, the tunnel reaches IPv4 and, where required, IPv6, and the downloader's client is bound.\<close>

theorem verifier_complete_iff:
  assumes "policy_validate policy = None" "targets_validate targets = None" "ControlledVerify probes targets policy = (p, r)"
  shows "r = None \<and> proof_complete (po_RequireIPv6Tunnel policy) (po_RequireTorrentBinding policy) p \<longleftrightarrow>
    probes_pass probes targets policy \<and> (po_RequireTorrentBinding policy \<longrightarrow> po_Role policy = RoleDownloader)"
  by (rule ControlledVerify_complete_iff [OF assms])

theorem verifier_complete_iff_witness:
  "\<exists>p. ControlledVerify passing_probes example_targets (example_policy\<lparr>po_RequireIPv6Tunnel := False\<rparr>) = (p, None) \<and>
     probes_pass passing_probes example_targets (example_policy\<lparr>po_RequireIPv6Tunnel := False\<rparr>)"
proof -
  have "policy_validate (example_policy\<lparr>po_RequireIPv6Tunnel := False\<rparr>) = None" "targets_validate example_targets = None" by code_simp+
  from verifier_complete_iff [OF this example_verify] show ?thesis
    unfolding example_verify by (simp add: proof_complete_def example_policy_def)
qed

text \<open>A failed link creation blocks teardown.  When \<^verbatim>\<open>ip link add\<close> fails and leaves no link, the backend counts the link as
  possibly allocated; the resolver adapter cannot clear DNS without the link, so that removal fails before it reaches the deletion
  and every later stop, however often it is retried, reports an incomplete cleanup.\<close>

theorem failed_link_add_blocks_stop:
  assumes "lb_killArmed b" "\<not> lb_tunnel b" "underlay_validate u = None" "underlayCommands (ctx 0) u s = Inr batch"
    and "runBytes tp_IP [''-batch'', ''-''] batch b = (b1, None)"
    and "lb_runner b1 \<lparr>cr_path = tp_IP (lb_paths b1), cr_args = [''link'', ''add'', TunnelInterface, ''type'', ''wireguard''], cr_stdin = []\<rparr> (lb_world b1) = (w, Some e)"
    and "lb_dnsClear b1 = resolved_clear r" "rs_linkIndex r TunnelInterface w = None"
  shows "\<exists>b'. ConfigureTunnel ctx u s b = (b', Some e) \<and>
    (\<forall>app c n. ct_backend c = b' \<and> ct_state c \<noteq> StateUnconfigured \<and> ct_state c \<noteq> StateStopped \<longrightarrow>
       snd (Stop LinuxOps app (((\<lambda>c. fst (Stop LinuxOps app c)) ^^ n) c)) = Some ErrVPNCleanupIncomplete)"
proof -
  obtain b' where "ConfigureTunnel ctx u s b = (b', Some e)" "linkless r b'" using failed_link_add [where ctx = ctx, OF assms] by blast
  then show ?thesis using linkless_Stop_forever [of r] by blast
qed


theorem failed_link_add_blocks_stop_witness:
  "\<exists>b'. ConfigureTunnel (\<lambda>_. False) example_underlay example_profile broken_backend = (b', Some ErrGuestCommand) \<and>
     snd (Stop LinuxOps QbitOps (((\<lambda>c. fst (Stop LinuxOps QbitOps c)) ^^ 3)
       (example_controller\<lparr>ct_backend := b', ct_state := StateKillSwitchArmed\<rparr>))) = Some ErrVPNCleanupIncomplete"
proof -
  obtain batch where batch: "underlayCommands False example_underlay example_profile = Inr batch" "batch \<noteq> []" "length batch \<le> guestCommandInputLimit"
    using example_underlay_batch by blast
  have valid: "underlay_validate example_underlay = None" by code_simp
  have run: "runBytes tp_IP [''-batch'', ''-''] batch broken_backend = (broken_backend, None)"
    using batch by (simp add: runBytes_def Run_def on_world_def broken_backend_def broken_runner_def example_backend_def example_paths_def)
  have facts: "lb_killArmed broken_backend" "\<not> lb_tunnel broken_backend" "lb_dnsClear broken_backend = resolved_clear example_resolved"
    "lb_runner broken_backend \<lparr>cr_path = tp_IP (lb_paths broken_backend), cr_args = [''link'', ''add'', TunnelInterface, ''type'', ''wireguard''],
       cr_stdin = []\<rparr> (lb_world broken_backend) = (lb_world broken_backend, Some ErrGuestCommand)"
    "rs_linkIndex example_resolved TunnelInterface (lb_world broken_backend) = None"
    by (simp_all add: broken_backend_def broken_runner_def example_backend_def example_resolved_def)
  obtain b' where b': "ConfigureTunnel (\<lambda>_. False) example_underlay example_profile broken_backend = (b', Some ErrGuestCommand)"
    "\<forall>app c n. ct_backend c = b' \<and> ct_state c \<noteq> StateUnconfigured \<and> ct_state c \<noteq> StateStopped \<longrightarrow>
       snd (Stop LinuxOps (app :: LocalQBittorrentService OnlineOps) (((\<lambda>c. fst (Stop LinuxOps app c)) ^^ n) c)) = Some ErrVPNCleanupIncomplete"
    using failed_link_add_blocks_stop [where ctx = "\<lambda>_. False", OF facts(1,2) valid batch(1) run facts(4,3,5)] by blast
  then show ?thesis by (intro exI [of _ b'] conjI) simp_all
qed

end
