(* ===== verification/Guest_Server.thy ===== *)
theory Guest_Server
  imports Guest_Handshake Guest_Controller Guest_Probes VPN_Delivery
begin

text \<open>
  The guest's network service of \<^verbatim>\<open>internal/guest/downloader_vpn.go\<close> and its wire forms from
  \<^verbatim>\<open>downloader_network.go\<close>: the host's encoding of underlay and probe targets, their reading in the guest, the
  configuration and verification calls, and the scanner's gate on definition updates.
\<close>

section \<open>Wire forms\<close>

record GuestUnderlay =
  gu_Ipv4Address :: "u8 list"
  gu_Ipv4PrefixLength :: u32
  gu_Ipv4Gateway :: "u8 list"
  gu_Ipv6Address :: "u8 list"
  gu_Ipv6PrefixLength :: u32
  gu_Ipv6Gateway :: "u8 list"

record VPNProbeTargets =
  vt_DnsName :: string
  vt_Ipv4Address :: "u8 list"
  vt_Ipv4Port :: u32
  vt_Ipv6Address :: "u8 list"
  vt_Ipv6Port :: u32

definition protoGuestUnderlay :: "Underlay \<Rightarrow> GuestUnderlay" where
  "protoGuestUnderlay value =
     \<lparr>gu_Ipv4Address = AsSlice (pf_Addr (un_IPv4Address value)), gu_Ipv4PrefixLength = of_nat (pf_Bits (un_IPv4Address value)),
      gu_Ipv4Gateway = AsSlice (un_IPv4Gateway value),
      gu_Ipv6Address = AsSlice (pf_Addr (un_IPv6Address value)), gu_Ipv6PrefixLength = of_nat (pf_Bits (un_IPv6Address value)),
      gu_Ipv6Gateway = AsSlice (un_IPv6Gateway value)\<rparr>"

definition protoVPNProbeTargets :: "ProbeTargets \<Rightarrow> VPNProbeTargets" where
  "protoVPNProbeTargets value =
     \<lparr>vt_DnsName = tg_DNSName value, vt_Ipv4Address = AsSlice (fst (tg_IPv4 value)), vt_Ipv4Port = ucast (snd (tg_IPv4 value)),
      vt_Ipv6Address = AsSlice (fst (tg_IPv6 value)), vt_Ipv6Port = ucast (snd (tg_IPv6 value))\<rparr>"

definition guestNetworkRequestError :: guest_error where
  "guestNetworkRequestError = GuestRPC ''GUEST_VPN_REQUEST_INVALID''"

definition NewUnderlay :: "Prefix \<Rightarrow> Addr \<Rightarrow> Prefix \<Rightarrow> Addr \<Rightarrow> guestvpn_error + Underlay" where
  "NewUnderlay ipv4 ipv4Gateway ipv6 ipv6Gateway =
     (let underlay = \<lparr>un_IPv4Address = ipv4, un_IPv4Gateway = ipv4Gateway, un_IPv6Address = ipv6, un_IPv6Gateway = ipv6Gateway\<rparr> in
      case underlay_validate underlay of Some e \<Rightarrow> Inl e | None \<Rightarrow> Inr underlay)"

definition NewProbeTargets :: "string \<Rightarrow> Addr \<times> u16 \<Rightarrow> Addr \<times> u16 \<Rightarrow> guestvpn_error + ProbeTargets" where
  "NewProbeTargets dnsName ipv4 ipv6 =
     (let targets = \<lparr>tg_DNSName = dnsName, tg_IPv4 = ipv4, tg_IPv6 = ipv6\<rparr> in
      case targets_validate targets of Some e \<Rightarrow> Inl e | None \<Rightarrow> Inr targets)"

definition guestUnderlayFromProto :: "GuestUnderlay option \<Rightarrow> guest_error + Underlay" where
  "guestUnderlayFromProto value =
     (case value of None \<Rightarrow> Inl guestNetworkRequestError
      | Some v \<Rightarrow>
         if gu_Ipv4PrefixLength v > 32 \<or> gu_Ipv6PrefixLength v > 128 then Inl guestNetworkRequestError
         else case (AddrFromSlice (gu_Ipv4Address v), AddrFromSlice (gu_Ipv4Gateway v), AddrFromSlice (gu_Ipv6Address v), AddrFromSlice (gu_Ipv6Gateway v)) of
           (Some ipv4, Some ipv4Gateway, Some ipv6, Some ipv6Gateway) \<Rightarrow>
             if \<not> Is4 ipv4 \<or> \<not> Is4 ipv4Gateway \<or> \<not> Is6 ipv6 \<or> Is4In6 ipv6 \<or> \<not> Is6 ipv6Gateway \<or> Is4In6 ipv6Gateway
             then Inl guestNetworkRequestError
             else
               (case NewUnderlay \<lparr>pf_Addr = ipv4, pf_Bits = unat (gu_Ipv4PrefixLength v)\<rparr> ipv4Gateway
                   \<lparr>pf_Addr = ipv6, pf_Bits = unat (gu_Ipv6PrefixLength v)\<rparr> ipv6Gateway of
                  Inl _ \<Rightarrow> Inl guestNetworkRequestError | Inr u \<Rightarrow> Inr u)
         | _ \<Rightarrow> Inl guestNetworkRequestError)"

definition vpnProbeTargetsFromProto :: "VPNProbeTargets option \<Rightarrow> guest_error + ProbeTargets" where
  "vpnProbeTargetsFromProto value =
     (case value of None \<Rightarrow> Inl guestNetworkRequestError
      | Some v \<Rightarrow>
         if vt_Ipv4Port v = 0 \<or> vt_Ipv4Port v > 65535 \<or> vt_Ipv6Port v = 0 \<or> vt_Ipv6Port v > 65535 then Inl guestNetworkRequestError
         else case (AddrFromSlice (vt_Ipv4Address v), AddrFromSlice (vt_Ipv6Address v)) of
           (Some ipv4, Some ipv6) \<Rightarrow>
             if \<not> Is4 ipv4 \<or> \<not> Is6 ipv6 \<or> Is4In6 ipv6 then Inl guestNetworkRequestError
             else
               (case NewProbeTargets (vt_DnsName v) (ipv4, ucast (vt_Ipv4Port v)) (ipv6, ucast (vt_Ipv6Port v)) of
                  Inl _ \<Rightarrow> Inl guestNetworkRequestError | Inr t \<Rightarrow> Inr t)
         | _ \<Rightarrow> Inl guestNetworkRequestError)"

section \<open>The service\<close>

text \<open>
  A controller is kept with the targets its verifier was built for.  Errors of the lower layers keep their cause;
  the gRPC status they are reported under is not represented.
\<close>

datatype server_error = ServerRequest guest_error | ServerProfile vpn_error | ServerNetwork guestvpn_error

record ('b, 'o) DownloaderVPNServer =
  sv_expectedRole :: role
  sv_controller :: "(('b, 'o) Controller \<times> ProbeTargets) option"

record ConfigureWireGuardRequest =
  cw_Context :: "GuestContext option"
  cw_Underlay :: "GuestUnderlay option"
  cw_ProbeTargets :: "VPNProbeTargets option"
  cw_Profile :: string

definition server_role :: "('b, 'o) DownloaderVPNServer \<Rightarrow> role" where
  "server_role server =
     (case sv_expectedRole server of RoleWorkstation \<Rightarrow> RoleWorkstation | RoleDownloader \<Rightarrow> RoleDownloader
      | RoleScanner \<Rightarrow> RoleScanner | _ \<Rightarrow> RoleDownloader)"

definition ConfigureWireGuard :: "'b BackendOps \<Rightarrow> 'o OnlineOps \<Rightarrow> (nat \<Rightarrow> bool) \<Rightarrow> bool \<Rightarrow> Probes \<Rightarrow>
    (Underlay \<Rightarrow> ProbeTargets \<Rightarrow> ('b, 'o) Controller option) \<Rightarrow> ConfigureWireGuardRequest \<Rightarrow> ('b, 'o) DownloaderVPNServer \<Rightarrow>
    ('b, 'o) DownloaderVPNServer \<times> (server_error + VPNStatus)" where
  "ConfigureWireGuard ops app ctx sealed probes factory request server =
     (case ValidateGuestContext (cw_Context request) (server_role server) of Some e \<Rightarrow> (server, Inl (ServerRequest e))
      | None \<Rightarrow> case guestUnderlayFromProto (cw_Underlay request) of Inl e \<Rightarrow> (server, Inl (ServerRequest e))
      | Inr underlay \<Rightarrow> case vpnProbeTargetsFromProto (cw_ProbeTargets request) of Inl e \<Rightarrow> (server, Inl (ServerRequest e))
      | Inr targets \<Rightarrow>
         if cw_Profile request = [] \<or> MaximumProfileBytes < length (cw_Profile request)
         then (server, Inl (ServerRequest (GuestRPC ''VPN_PROFILE_INVALID'')))
         else case Parse sealed (secret_reader (cw_Profile request)) of Inl e \<Rightarrow> (server, Inl (ServerProfile e))
      | Inr profile \<Rightarrow>
         if sv_controller server \<noteq> None then (server, Inl (ServerRequest (GuestRPC ''GUEST_VPN_ALREADY_CONFIGURED'')))
         else case factory underlay targets of None \<Rightarrow> (server, Inl (ServerRequest (GuestRPC ''GUEST_VPN_COMPOSITION_FAILED'')))
      | Some controller \<Rightarrow>
         (case Configure ops app ctx (ControlledVerify probes targets) (\<lambda>_. profile) controller of (c, r) \<Rightarrow>
            (server\<lparr>sv_controller := Some (c, targets)\<rparr>,
             case r of Some e \<Rightarrow> Inl (ServerNetwork e) | None \<Rightarrow> Inr (statusLocked c))))"

definition VerifyVPN :: "'o OnlineOps \<Rightarrow> Probes \<Rightarrow> GuestContext option \<Rightarrow> ('b, 'o) DownloaderVPNServer \<Rightarrow>
    ('b, 'o) DownloaderVPNServer \<times> (server_error + VPNStatus)" where
  "VerifyVPN app probes context server =
     (case ValidateGuestContext context (server_role server) of Some e \<Rightarrow> (server, Inl (ServerRequest e))
      | None \<Rightarrow> case sv_controller server of None \<Rightarrow> (server, Inl (ServerRequest (GuestRPC ''GUEST_VPN_UNCONFIGURED'')))
      | Some (controller, targets) \<Rightarrow>
         (case Verify app (ControlledVerify probes targets) controller of (c, r) \<Rightarrow>
            (server\<lparr>sv_controller := Some (c, targets)\<rparr>,
             case r of Some e \<Rightarrow> Inl (ServerNetwork e) | None \<Rightarrow> Inr (statusLocked c))))"

definition StopVPN :: "'b BackendOps \<Rightarrow> 'o OnlineOps \<Rightarrow> ('b, 'o) DownloaderVPNServer \<Rightarrow> ('b, 'o) DownloaderVPNServer \<times> guestvpn_error option" where
  "StopVPN ops app server =
     (case sv_controller server of None \<Rightarrow> (server, None)
      | Some (controller, targets) \<Rightarrow>
         (case Stop ops app controller of (c, r) \<Rightarrow> (server\<lparr>sv_controller := Some (c, targets)\<rparr>, r)))"

text \<open>The scanner's gate: \<open>Inr ()\<close> hands the call on to the scanner's own update.\<close>

definition UpdateDefinitions :: "'o OnlineOps \<Rightarrow> Probes \<Rightarrow> GuestContext option \<Rightarrow> ('b, 'o) DownloaderVPNServer \<Rightarrow>
    ('b, 'o) DownloaderVPNServer \<times> (server_error + unit)" where
  "UpdateDefinitions app probes context server =
     (case VerifyVPN app probes context server of
        (server', Inl _) \<Rightarrow> (server', Inl (ServerRequest (GuestRPC ''GUEST_VPN_UNVERIFIED'')))
      | (server', Inr verified) \<Rightarrow>
         (let p = vs_Proof verified in
          if \<not> vs_Configured verified \<or> \<not> pr_Handshake p \<or> \<not> pr_DNSThroughTunnel p \<or> \<not> pr_DNSBypassBlocked p \<or>
            \<not> pr_IPv4ThroughTunnel p \<or> \<not> pr_IPv6ThroughTunnel p \<or> \<not> pr_IPv4BypassBlocked p \<or> \<not> pr_IPv6BypassBlocked p
          then (server', Inl (ServerRequest (GuestRPC ''GUEST_VPN_UNVERIFIED'')))
          else (server', Inr ())))"


section \<open>The wire loses nothing\<close>

lemma byte_below: "push_bit 8 (drop_bit 8 x) OR ucast (ucast x :: u8) = (x :: u128)"
  by (rule bit_word_eqI) (auto simp: bit_simps)

lemma foldl_slice:
  assumes "n \<le> 16"
  shows "foldl (\<lambda>v b. push_bit 8 v OR ucast b) 0 (map (\<lambda>i. ucast (drop_bit (8 * (15 - i)) w) :: u8) [0..<n]) = drop_bit (8 * (16 - n)) (w :: u128)"
  using assms
proof (induction n)
  case 0
  show ?case by simp
next
  case (Suc n)
  let ?x = "drop_bit (8 * (15 - n)) w"
  have "8 * (16 - n) = 8 + 8 * (15 - n)" using Suc.prems by simp
  then have "drop_bit (8 * (16 - n)) w = drop_bit 8 ?x" by (simp add: drop_bit_drop_bit)
  with Suc byte_below [of ?x] show ?case by simp
qed

lemma AddrFromSlice_AsSlice:
  assumes "a \<noteq> AddrNone" "Zone a = []"
  shows "AddrFromSlice (AsSlice a) = Some a"
proof (cases a)
  case (Addr4 w)
  then show ?thesis using octets_of [of w] by (simp add: AddrFromSlice_def AsSlice_def octets_def)
next
  case (Addr6 w zone)
  then show ?thesis using assms(2) foldl_slice [of 16 w] by (simp add: AddrFromSlice_def AsSlice_def Zone_def)
qed (use assms in simp)

lemma port_wire:
  fixes port :: u16
  shows "ucast (ucast port :: u32) = port" "(ucast port :: u32) \<le> 65535" "(ucast port :: u32) = 0 \<longleftrightarrow> port = 0"
proof -
  have small: "unat port < 65536" using unsigned_less [of port] by simp
  have wide: "unat (ucast port :: u32) = unat port" using small by (simp add: unsigned_ucast_eq take_bit_nat_eq_self)
  show "ucast (ucast port :: u32) = port" by (rule bit_word_eqI) (simp add: bit_simps)
  show "(ucast port :: u32) \<le> 65535" using small wide by (simp add: word_le_nat_alt)
  show "(ucast port :: u32) = 0 \<longleftrightarrow> port = 0" using wide by (metis unat_eq_zero)
qed

lemma underlay_wire:
  assumes "underlay_validate u = None" "\<not> Is4In6 (pf_Addr (un_IPv6Address u))" "\<not> Is4In6 (un_IPv6Gateway u)"
    "Zone (pf_Addr (un_IPv6Address u)) = []"
  shows "guestUnderlayFromProto (Some (protoGuestUnderlay u)) = Inr u"
proof -
  have bits: "pf_Bits (un_IPv4Address u) = 30" "pf_Bits (un_IPv6Address u) = 126"
    and kinds: "Is4 (pf_Addr (un_IPv4Address u))" "Is4 (un_IPv4Gateway u)" "Is6 (pf_Addr (un_IPv6Address u))" "Is6 (un_IPv6Gateway u)"
      "Zone (un_IPv6Gateway u) = []"
    using assms(1) by (auto simp: underlay_validate_def Contains_def Zone_def split: if_splits Addr.splits)
  then have "AddrFromSlice (AsSlice (pf_Addr (un_IPv4Address u))) = Some (pf_Addr (un_IPv4Address u))"
    "AddrFromSlice (AsSlice (un_IPv4Gateway u)) = Some (un_IPv4Gateway u)"
    "AddrFromSlice (AsSlice (pf_Addr (un_IPv6Address u))) = Some (pf_Addr (un_IPv6Address u))"
    "AddrFromSlice (AsSlice (un_IPv6Gateway u)) = Some (un_IPv6Gateway u)"
    using assms(4) by (auto intro!: AddrFromSlice_AsSlice simp: Is4_def Is6_def Zone_def split: Addr.splits)
  moreover have eta: "\<lparr>un_IPv4Address = \<lparr>pf_Addr = pf_Addr (un_IPv4Address u), pf_Bits = 30\<rparr>, un_IPv4Gateway = un_IPv4Gateway u,
      un_IPv6Address = \<lparr>pf_Addr = pf_Addr (un_IPv6Address u), pf_Bits = 126\<rparr>, un_IPv6Gateway = un_IPv6Gateway u\<rparr> = u"
    using bits by (intro Underlay.equality Prefix.equality) simp_all
  ultimately show ?thesis
    using assms kinds bits by (simp add: guestUnderlayFromProto_def protoGuestUnderlay_def NewUnderlay_def Let_def eta)
qed

lemma targets_wire:
  assumes "targets_validate t = None" "Zone (fst (tg_IPv6 t)) = []"
  shows "vpnProbeTargetsFromProto (Some (protoVPNProbeTargets t)) = Inr t"
proof -
  obtain a p b q where t: "tg_IPv4 t = (a, p)" "tg_IPv6 t = (b, q)" by (cases "tg_IPv4 t", cases "tg_IPv6 t")
  have safe: "safeProbeTarget (a, p) True" "safeProbeTarget (b, q) False"
    using assms(1) t by (auto simp: targets_validate_def Let_def split: if_splits)
  then have facts: "Is4 a" "Is6 b" "\<not> Is4In6 b" "p \<noteq> 0" "q \<noteq> 0" "a \<noteq> AddrNone" "b \<noteq> AddrNone" "Zone a = []"
    by (auto simp: safeProbeTarget_def Let_def Is4_def Is6_def Zone_def split: if_splits Addr.splits)
  then have "AddrFromSlice (AsSlice a) = Some a" "AddrFromSlice (AsSlice b) = Some b"
    using assms(2) t by (auto intro!: AddrFromSlice_AsSlice)
  moreover have eta: "\<lparr>tg_DNSName = tg_DNSName t, tg_IPv4 = (a, p), tg_IPv6 = (b, q)\<rparr> = t" using t by (cases t) simp
  ultimately show ?thesis
    using assms(1) facts t
    by (simp add: Let_def vpnProbeTargetsFromProto_def protoVPNProbeTargets_def NewProbeTargets_def port_wire not_less eta)
qed


section \<open>Definition updates\<close>

lemma start_online_requireIPv6: "ct_requireIPv6 (fst (start_online app c)) = ct_requireIPv6 c"
  by (simp add: start_online_def stopOnlineDetached_def split: option.splits prod.splits)

lemma run_verifier_requireIPv6:
  "(\<And>c. ct_requireIPv6 (f c) = ct_requireIPv6 c) \<Longrightarrow> ct_requireIPv6 (fst (run_verifier verifier f c)) = ct_requireIPv6 c"
  by (simp add: run_verifier_def Let_def split: prod.splits)

lemma Verify_requireIPv6: "ct_requireIPv6 (fst (Verify app verifier c)) = ct_requireIPv6 c"
  using start_online_requireIPv6 [of app c]
  by (auto simp: Verify_def and_then_def run_verifier_requireIPv6 split: prod.splits option.splits)

lemma configure_armed_requireIPv6: "ct_requireIPv6 (fst (configure_armed ops app ctx verifier profile c)) = ct_requireIPv6 c"
proof -
  have stop: "ct_requireIPv6 (stopOnlineDetached app d) = ct_requireIPv6 d" for d
    by (simp add: stopOnlineDetached_def split: option.splits prod.splits)
  have up: "ct_requireIPv6 (fst (and_then (start_online app d) (run_verifier verifier (stopOnlineDetached app)))) = ct_requireIPv6 d" for d
    using start_online_requireIPv6 [of app d] by (auto simp: and_then_def run_verifier_requireIPv6 [OF stop] split: prod.splits option.splits)
  show ?thesis by (auto simp: configure_armed_def removeTunnelDetached_def up split: sum.splits prod.splits option.splits)
qed

lemma Configure_requireIPv6:
  "ct_requireIPv6 (fst (Configure ops app ctx verifier profile c)) \<in> {ct_requireIPv6 c, ps_allowedV6 (profile 0)}"
proof (cases "InspectProfile (profile 0)")
  case (Inr i)
  then have "in_IPv6Enabled i = ps_allowedV6 (profile 0)" by (auto simp: InspectProfile_def split: if_splits)
  then show ?thesis using Inr by (auto simp: Configure_def Let_def configure_armed_requireIPv6 split: sum.splits prod.splits option.splits)
qed (simp add: Configure_def)

lemma Verify_ipv4_only:
  assumes "Verify app (ControlledVerify probes targets) c = (c', None)" "\<not> ct_requireIPv6 c"
  shows "\<not> pr_IPv6ThroughTunnel (ct_proof c')"
proof -
  obtain d where d: "run_verifier (ControlledVerify probes targets) (\<lambda>c. c) d = (c', None)" "ct_requireIPv6 d = ct_requireIPv6 c"
    using assms(1) start_online_requireIPv6 [of app c]
    by (auto simp: Verify_def and_then_def split: if_splits prod.splits option.splits)
  then have "ct_proof c' = fst (ControlledVerify probes targets (verificationPolicyLocked d))"
    by (auto simp: run_verifier_def Let_def split: prod.splits if_splits)
  then show ?thesis
    using ControlledVerify_ipv4_only [of "verificationPolicyLocked d" probes targets] d(2) assms(2) by (simp add: verificationPolicyLocked_def)
qed

definition ipv4_only :: "('b, 'o) DownloaderVPNServer \<Rightarrow> bool" where
  "ipv4_only server \<longleftrightarrow> (\<forall>c t. sv_controller server = Some (c, t) \<longrightarrow> \<not> ct_requireIPv6 c)"

lemma VerifyVPN_cases:
  assumes "VerifyVPN app probes context server = (server', r)"
  obtains (refused) e where "server' = server" "r = Inl e"
    | (failed) c t c' e where "sv_controller server = Some (c, t)" "Verify app (ControlledVerify probes t) c = (c', Some e)"
        "server' = server\<lparr>sv_controller := Some (c', t)\<rparr>" "r = Inl (ServerNetwork e)"
    | (passed) c t c' where "sv_controller server = Some (c, t)" "Verify app (ControlledVerify probes t) c = (c', None)"
        "server' = server\<lparr>sv_controller := Some (c', t)\<rparr>" "r = Inr (statusLocked c')"
proof (cases "\<exists>e. r = Inl e \<and> server' = server")
  case True
  then show ?thesis using that(1) by blast
next
  case False
  then obtain c t where ct: "ValidateGuestContext context (server_role server) = None" "sv_controller server = Some (c, t)"
    using assms by (cases "ValidateGuestContext context (server_role server)"; cases "sv_controller server") (auto simp: VerifyVPN_def)
  obtain c' e where v: "Verify app (ControlledVerify probes t) c = (c', e)" by (cases "Verify app (ControlledVerify probes t) c")
  show ?thesis
    using assms ct v that(2) [OF ct(2)] that(3) [OF ct(2)] by (cases e) (simp_all add: VerifyVPN_def)
qed

lemma VerifyVPN_ipv4_only:
  assumes only: "ipv4_only server" and run: "VerifyVPN app probes context server = (server', r)"
  shows "ipv4_only server'" "r = Inr status \<Longrightarrow> \<not> pr_IPv6ThroughTunnel (vs_Proof status)"
proof -
  from run have "ipv4_only server' \<and> (r = Inr status \<longrightarrow> \<not> pr_IPv6ThroughTunnel (vs_Proof status))"
  proof (cases rule: VerifyVPN_cases)
    case (failed c t c' e)
    then show ?thesis using only Verify_requireIPv6 [of app "ControlledVerify probes t" c] by (simp add: ipv4_only_def)
  next
    case (passed c t c')
    then have c: "\<not> ct_requireIPv6 c" using only by (simp add: ipv4_only_def)
    have "vs_Proof (statusLocked c') = ct_proof c'" by (simp add: statusLocked_def Let_def split: prod.splits)
    with passed c show ?thesis
      using Verify_requireIPv6 [of app "ControlledVerify probes t" c] Verify_ipv4_only [OF passed(2)] by (auto simp: ipv4_only_def)
  qed (use only in simp)
  then show "ipv4_only server'" "r = Inr status \<Longrightarrow> \<not> pr_IPv6ThroughTunnel (vs_Proof status)" by blast+
qed

lemma UpdateDefinitions_ipv4_only:
  assumes "ipv4_only server"
  shows "ipv4_only (fst (UpdateDefinitions app probes context server))"
    and "snd (UpdateDefinitions app probes context server) = Inl (ServerRequest (GuestRPC ''GUEST_VPN_UNVERIFIED''))"
proof -
  obtain server' r where run: "VerifyVPN app probes context server = (server', r)" by (cases "VerifyVPN app probes context server")
  note facts = VerifyVPN_ipv4_only [OF assms run]
  show "ipv4_only (fst (UpdateDefinitions app probes context server))"
    using run facts(1) by (simp add: UpdateDefinitions_def Let_def split: sum.splits)
  show "snd (UpdateDefinitions app probes context server) = Inl (ServerRequest (GuestRPC ''GUEST_VPN_UNVERIFIED''))"
    using run facts(2) by (simp add: UpdateDefinitions_def Let_def split: sum.splits)
qed

lemma ConfigureWireGuard_effect:
  "fst (ConfigureWireGuard ops app ctx sealed probes factory request server) = server \<or>
   (\<exists>u t c profile. factory u t = Some c \<and> Parse sealed (secret_reader (cw_Profile request)) = Inr profile \<and>
     sv_controller (fst (ConfigureWireGuard ops app ctx sealed probes factory request server)) =
       Some (fst (Configure ops app ctx (ControlledVerify probes t) (\<lambda>_. profile) c), t))"
proof -
  let ?run = "ConfigureWireGuard ops app ctx sealed probes factory request server"
  consider "fst ?run = server" | u t profile c where "ValidateGuestContext (cw_Context request) (server_role server) = None"
    "guestUnderlayFromProto (cw_Underlay request) = Inr u" "vpnProbeTargetsFromProto (cw_ProbeTargets request) = Inr t"
    "\<not> (cw_Profile request = [] \<or> MaximumProfileBytes < length (cw_Profile request))"
    "Parse sealed (secret_reader (cw_Profile request)) = Inr profile" "sv_controller server = None" "factory u t = Some c"
    unfolding ConfigureWireGuard_def by (force split: option.splits sum.splits)
  then show ?thesis
  proof cases
    case (2 u t profile c)
    then have "sv_controller (fst ?run) = Some (fst (Configure ops app ctx (ControlledVerify probes t) (\<lambda>_. profile) c), t)"
      by (simp add: ConfigureWireGuard_def split: prod.splits)
    with 2(5,7) show ?thesis by blast
  qed blast
qed

lemma ConfigureWireGuard_ipv4_only:
  assumes "\<And>u t c. factory u t = Some c \<Longrightarrow> \<not> ct_requireIPv6 c"
    and "\<And>profile. Parse sealed (secret_reader (cw_Profile request)) = Inr profile \<Longrightarrow> \<not> ps_allowedV6 profile"
    and "sv_controller server = None"
  shows "ipv4_only (fst (ConfigureWireGuard ops app ctx sealed probes factory request server))"
  using ConfigureWireGuard_effect [of ops app ctx sealed probes factory request server]
proof
  assume "\<exists>u t c profile. factory u t = Some c \<and> Parse sealed (secret_reader (cw_Profile request)) = Inr profile \<and>
     sv_controller (fst (ConfigureWireGuard ops app ctx sealed probes factory request server)) =
       Some (fst (Configure ops app ctx (ControlledVerify probes t) (\<lambda>_. profile) c), t)"
  then obtain u t c profile where f: "factory u t = Some c" "Parse sealed (secret_reader (cw_Profile request)) = Inr profile"
    "sv_controller (fst (ConfigureWireGuard ops app ctx sealed probes factory request server)) =
       Some (fst (Configure ops app ctx (ControlledVerify probes t) (\<lambda>_. profile) c), t)" by blast
  have "\<not> ct_requireIPv6 (fst (Configure ops app ctx (ControlledVerify probes t) (\<lambda>_. profile) c))"
    using Configure_requireIPv6 [of ops app ctx "ControlledVerify probes t" "\<lambda>_. profile" c] assms(1) [OF f(1)] assms(2) [OF f(2)] by auto
  then show ?thesis using f(3) by (simp add: ipv4_only_def)
qed (use assms(3) in \<open>simp add: ipv4_only_def\<close>)

section \<open>An example scanner\<close>

definition idle_app :: "unit OnlineOps" where
  "idle_app = \<lparr>on_Start = \<lambda>u. (u, None), on_Stop = \<lambda>u. (u, None)\<rparr>"

definition all_pass :: Probes where
  "all_pass = \<lparr>pb_Recent = (True, False), pb_TunnelAndBypass = \<lambda>_. ((True, True), False),
     pb_Reachable = \<lambda>i _. (i = TunnelInterface, False), pb_Bound = (True, False), pb_ended = False\<rparr>"

definition scanner_factory :: "Underlay \<Rightarrow> ProbeTargets \<Rightarrow> (kernel LinuxBackend, unit) Controller option" where
  "scanner_factory underlay targets =
     (case newController
         \<lparr>lb_paths = \<lparr>tp_IP = ''/bin/ip'', tp_NFT = ''/bin/nft'', tp_WG = ''/bin/wg''\<rparr>, lb_runner = \<lambda>_ w. (w, None),
          lb_dnsConfigure = \<lambda>_ w. (w, None), lb_dnsClear = \<lambda>w. (w, None), lb_killArmed = False, lb_tunnel = False,
          lb_world = \<lparr>kn_table = None, kn_link = False\<rparr>\<rparr>
         None \<lparr>po_Role = RoleScanner, po_ScannerUpdate = True, po_RequireTorrentBinding = False, po_RequireIPv6Tunnel = False\<rparr> underlay
      of Inl _ \<Rightarrow> None | Inr c \<Rightarrow> Some c)"

definition scanner_underlay :: Underlay where
  "scanner_underlay =
     \<lparr>un_IPv4Address = \<lparr>pf_Addr = Addr4 0x0A000002, pf_Bits = 30\<rparr>, un_IPv4Gateway = Addr4 0x0A000001,
      un_IPv6Address = \<lparr>pf_Addr = Addr6 0xFD000000000000000000000000000002 [], pf_Bits = 126\<rparr>,
      un_IPv6Gateway = Addr6 0xFD000000000000000000000000000001 []\<rparr>"

definition scanner_targets :: ProbeTargets where
  "scanner_targets = \<lparr>tg_DNSName = ''probe.example.net'', tg_IPv4 = (Addr4 0x01010101, 443),
     tg_IPv6 = (Addr6 0x26064700470000000000000000001111 [], 443)\<rparr>"

definition scanner_request :: "string \<Rightarrow> ConfigureWireGuardRequest" where
  "scanner_request raw =
     \<lparr>cw_Context = Some \<lparr>gc_Context = Some \<lparr>rc_ApiVersion = Some \<lparr>av_Major = 1, av_Minor = 0\<rparr>, rc_RequestId = ''request-0001'',
        rc_SessionId = ''pvm-0123456789abcdef0123456789abcdef''\<rparr>, gc_ExpectedRole = (case ProtoRole RoleScanner of Inr r \<Rightarrow> r)\<rparr>,
      cw_Underlay = Some (protoGuestUnderlay scanner_underlay), cw_ProbeTargets = Some (protoVPNProbeTargets scanner_targets),
      cw_Profile = raw\<rparr>"

lemma scanner_wire_valid:
  "underlay_validate scanner_underlay = None" "\<not> Is4In6 (pf_Addr (un_IPv6Address scanner_underlay))" "\<not> Is4In6 (un_IPv6Gateway scanner_underlay)"
  "Zone (pf_Addr (un_IPv6Address scanner_underlay)) = []" "targets_validate scanner_targets = None" "Zone (fst (tg_IPv6 scanner_targets)) = []"
  by code_simp+

lemma scanner_valid:
  "ValidateGuestContext (cw_Context (scanner_request raw)) (server_role \<lparr>sv_expectedRole = RoleScanner, sv_controller = None\<rparr>) = None"
  "guestUnderlayFromProto (cw_Underlay (scanner_request raw)) = Inr scanner_underlay"
  "vpnProbeTargetsFromProto (cw_ProbeTargets (scanner_request raw)) = Inr scanner_targets"
  "\<exists>c. scanner_factory scanner_underlay scanner_targets = Some c"
proof -
  have "ValidateGuestContext (cw_Context (scanner_request [])) RoleScanner = None" by code_simp
  then show "ValidateGuestContext (cw_Context (scanner_request raw)) (server_role \<lparr>sv_expectedRole = RoleScanner, sv_controller = None\<rparr>) = None"
    by (simp add: server_role_def scanner_request_def)
  show "guestUnderlayFromProto (cw_Underlay (scanner_request raw)) = Inr scanner_underlay"
    using underlay_wire [OF scanner_wire_valid(1-4)] by (simp add: scanner_request_def)
  show "vpnProbeTargetsFromProto (cw_ProbeTargets (scanner_request raw)) = Inr scanner_targets"
    using targets_wire [OF scanner_wire_valid(5,6)] by (simp add: scanner_request_def)
  show "\<exists>c. scanner_factory scanner_underlay scanner_targets = Some c"
    using scanner_wire_valid(1) by (simp add: scanner_factory_def newController_def policy_validate_def)
qed

section \<open>Properties\<close>






end
