(* ===== verification/Torrent_Plan.thy ===== *)
theory Torrent_Plan
  imports VPN_Profile
begin

text \<open>
  What a downloader may be asked to fetch: the metadata checks of \<^verbatim>\<open>internal/torrent/model.go\<close> and the capacity
  plan of \<^verbatim>\<open>capacity.go\<close>.  Unicode normalisation and case folding are parameters: \<open>nfc\<close> is
  \<^verbatim>\<open>norm.NFC.String\<close>, \<open>lower\<close> is \<^verbatim>\<open>strings.ToLower\<close>, whose tables are not reproduced.
\<close>

section \<open>Data\<close>

datatype torrent_error = TInvalidRequest | TInvalidInput | TInvalidSelection | TBlockedType | TInsufficientCapacity
  | TEvidenceUnavailable | TUnsafeMetadata | TMetadataUnavailable | TNotApproved | TDownloadFailed | TDownloadStalled
  | TVPNLost | TSealFailed | TCleanupIncomplete | TInputTooLarge | TCanceled | TDeadlineExceeded | TOther

definition MaximumFiles :: nat where "MaximumFiles = 100000"
definition MaximumPathBytes :: nat where "MaximumPathBytes = 1024"
definition MaximumDisplayName :: nat where "MaximumDisplayName = 255"

record RawFile =
  rf_Index :: u32
  rf_Path :: string
  rf_Size :: u64

record RawMetadata =
  rm_Available :: bool
  rm_PayloadRead :: u64
  rm_DisplayName :: string
  rm_Files :: "RawFile list"

record File =
  fi_Index :: u32
  fi_DisplayPath :: string
  fi_SizeBytes :: u64
  fi_Selected :: bool
  fi_SuspectedType :: string
  fi_HazardCodes :: "string list"

record Metadata =
  md_DisplayName :: string
  md_Files :: "File list"
  md_TotalSizeBytes :: u64
  md_SelectedSizeBytes :: u64
  md_PayloadPaused :: bool

record CapacityBudget =
  cb_QuarantineAvailableBytes :: u64
  cb_ScanAvailableBytes :: u64
  cb_ReconstructionAvailable :: u64
  cb_DestinationAvailable :: u64
  cb_RootOverlayBudgetBytes :: u64
  cb_ArchiveExpansionBytes :: u64
  cb_ReconstructionBytes :: u64
  cb_MaximumOutputBytes :: u64
  cb_MaximumSelectedBytes :: u64

datatype Destination = DestinationWorkstation | DestinationUSB | DestinationOther string

record CapacityEvidence =
  ce_Destination :: Destination
  ce_ScanAvailableBytes :: u64
  ce_ReconstructionAvailable :: u64
  ce_DestinationAvailable :: u64
  ce_RootOverlayBudgetBytes :: u64
  ce_ArchiveExpansionBytes :: u64
  ce_ReconstructionBytes :: u64
  ce_MaximumOutputBytes :: u64
  ce_MaximumSelectedBytes :: u64

record SelectionPlan =
  sp_SelectedBytes :: u64
  sp_QuarantineRequired :: u64
  sp_ScanRequired :: u64
  sp_ReconstructionNeed :: u64
  sp_DestinationRequired :: u64
  sp_SessionRequired :: u64
  sp_SafetyMargin :: u64
  sp_QuarantineMargin :: u64
  sp_ScanMargin :: u64
  sp_ReconstructionMargin :: u64
  sp_DestinationMargin :: u64

definition checkedAdd :: "u64 \<Rightarrow> u64 \<Rightarrow> u64 \<times> bool" where
  "checkedAdd left right = (left + right, left + right < left)"

section \<open>Names\<close>

text \<open>\<^verbatim>\<open>path.Ext\<close>: from the last dot of the last element on.\<close>

definition path_ext :: "string \<Rightarrow> string" where
  "path_ext p =
     (let base = rev (takeWhile (\<lambda>c. c \<noteq> CHR ''/'') (rev p)) in
      if CHR ''.'' \<in> set base then CHR ''.'' # rev (takeWhile (\<lambda>c. c \<noteq> CHR ''.'') (rev base)) else [])"

definition trim_suffix :: "string \<Rightarrow> string \<Rightarrow> string" where
  "trim_suffix s suffix = (if has_suffix suffix s then take (length s - length suffix) s else s)"

text \<open>A relative path that \<^verbatim>\<open>path.Clean\<close> leaves alone.\<close>

definition clean_rel :: "string \<Rightarrow> bool" where
  "clean_rel p \<longleftrightarrow> p = ''.'' \<or>
     (let parts = split_at (CHR ''/'') p in
      list_all (\<lambda>e. e \<noteq> [] \<and> e \<noteq> ''.'') parts \<and> ''..'' \<notin> set (dropWhile (\<lambda>e. e = ''..'') parts))"

definition windowsReservedName :: "(string \<Rightarrow> string) \<Rightarrow> string \<Rightarrow> bool" where
  "windowsReservedName lower value =
     (let base = trim_suffix (lower value) (path_ext value) in
      base \<in> set [''con'', ''prn'', ''aux'', ''nul'', ''clock$''] \<or>
      length base = 4 \<and> (has_prefix ''com'' base \<or> has_prefix ''lpt'' base) \<and> byte_in 0x31 0x39 (base ! 3))"

definition validateRelativePath :: "(string \<Rightarrow> string) \<Rightarrow> string \<Rightarrow> torrent_error option" where
  "validateRelativePath lower value =
     (if value = [] \<or> MaximumPathBytes < length value \<or> \<not> valid_utf8 value \<or>
        list_ex (\<lambda>c. c = CHR 0x00 \<or> c = CHR 0x0D \<or> c = CHR 0x0A \<or> c = CHR 0x5C) value \<or> has_prefix ''/'' value \<or> \<not> clean_rel value
      then Some TUnsafeMetadata
      else if list_ex (\<lambda>e. e = [] \<or> e = ''.'' \<or> e = ''..'' \<or> 255 < length e \<or> windowsReservedName lower e) (split_at (CHR ''/'') value)
      then Some TUnsafeMetadata else None)"

definition classifyPath :: "(string \<Rightarrow> string) \<Rightarrow> string \<Rightarrow> string \<times> string list" where
  "classifyPath lower value =
     (let ext = lower (path_ext value) in
      if ext \<in> set [''.exe'', ''.com'', ''.scr'', ''.dll'', ''.msi'', ''.appimage'', ''.apk''] then (''executable'', [''TYPE_EXECUTABLE''])
      else if ext \<in> set [''.bat'', ''.cmd'', ''.ps1'', ''.sh'', ''.js'', ''.vbs'', ''.py'', ''.pl''] then (''script'', [''TYPE_SCRIPT''])
      else if ext \<in> set [''.deb'', ''.rpm'', ''.pkg'', ''.jar''] then (''package'', [''TYPE_PACKAGE''])
      else if ext \<in> set [''.iso'', ''.img'', ''.vhd'', ''.vhdx'', ''.vmdk'', ''.qcow'', ''.qcow2''] then (''disk-image'', [''TYPE_DISK_IMAGE''])
      else if ext \<in> set [''.zip'', ''.tar'', ''.gz'', ''.bz2'', ''.xz'', ''.7z'', ''.rar''] then (''archive'', [''TYPE_ARCHIVE''])
      else if ext \<in> set [''.pdf'', ''.doc'', ''.docx'', ''.xls'', ''.xlsx'', ''.ppt'', ''.pptx'', ''.odt'', ''.ods'', ''.odp''] then (''document'', [])
      else if ext \<in> set [''.jpg'', ''.jpeg'', ''.png'', ''.gif'', ''.webp'', ''.tif'', ''.tiff'', ''.bmp''] then (''image'', [])
      else if ext \<in> set [''.mp3'', ''.wav'', ''.flac'', ''.ogg'', ''.mp4'', ''.mkv'', ''.webm'', ''.mov''] then (''media'', [])
      else if ext \<in> set [''.txt'', ''.md'', ''.csv''] then (''text'', [])
      else (''unknown'', [''TYPE_UNKNOWN'']))"

definition hasBlockedType :: "File \<Rightarrow> bool" where
  "hasBlockedType file \<longleftrightarrow>
     list_ex (\<lambda>c. c \<in> set (fi_HazardCodes file)) [''TYPE_EXECUTABLE'', ''TYPE_SCRIPT'', ''TYPE_PACKAGE'', ''TYPE_DISK_IMAGE'']"

definition hasArchive :: "File \<Rightarrow> bool" where
  "hasArchive file \<longleftrightarrow> ''TYPE_ARCHIVE'' \<in> set (fi_HazardCodes file)"

section \<open>Metadata\<close>

fun collect_files :: "(string \<Rightarrow> string) \<Rightarrow> (string \<Rightarrow> string) \<Rightarrow> nat \<Rightarrow> RawFile list \<Rightarrow> string list \<Rightarrow> string list \<Rightarrow> u64 \<Rightarrow>
    torrent_error + File list \<times> u64" where
  "collect_files nfc lower expectedIndex [] seen seenFolded acc = Inr ([], acc)"
| "collect_files nfc lower expectedIndex (raw # raws) seen seenFolded acc =
     (if rf_Index raw \<noteq> of_nat expectedIndex \<or> rf_Size raw = 0 then Inl TUnsafeMetadata
      else case validateRelativePath lower (rf_Path raw) of Some e \<Rightarrow> Inl e
       | None \<Rightarrow>
          let normalized = nfc (rf_Path raw); folded = lower normalized; (kind, hazards) = classifyPath lower normalized;
              (acc', overflow) = checkedAdd acc (rf_Size raw) in
          if normalized \<in> set seen \<or> folded \<in> set seenFolded then Inl TUnsafeMetadata
          else if overflow then Inl TUnsafeMetadata
          else case collect_files nfc lower (Suc expectedIndex) raws (normalized # seen) (folded # seenFolded) acc' of
             Inl e \<Rightarrow> Inl e
           | Inr (files, result) \<Rightarrow>
              Inr (\<lparr>fi_Index = rf_Index raw, fi_DisplayPath = normalized, fi_SizeBytes = rf_Size raw, fi_Selected = False,
                fi_SuspectedType = kind, fi_HazardCodes = hazards\<rparr> # files, result))"

definition validateMetadata :: "(string \<Rightarrow> string) \<Rightarrow> (string \<Rightarrow> string) \<Rightarrow> RawMetadata \<Rightarrow> torrent_error + Metadata" where
  "validateMetadata nfc lower raw =
     (if \<not> rm_Available raw \<or> rm_PayloadRead raw \<noteq> 0 \<or> rm_DisplayName raw = [] \<or> MaximumDisplayName < length (rm_DisplayName raw) \<or>
        \<not> valid_utf8 (rm_DisplayName raw) \<or> list_ex (\<lambda>c. c = CHR 0x00 \<or> c = CHR 0x0D \<or> c = CHR 0x0A) (rm_DisplayName raw) \<or>
        rm_Files raw = [] \<or> MaximumFiles < length (rm_Files raw)
      then Inl TUnsafeMetadata
      else case collect_files nfc lower 0 (rm_Files raw) [] [] 0 of Inl e \<Rightarrow> Inl e
       | Inr (files, acc) \<Rightarrow>
          Inr \<lparr>md_DisplayName = rm_DisplayName raw, md_Files = files, md_TotalSizeBytes = acc, md_SelectedSizeBytes = 0,
            md_PayloadPaused = True\<rparr>)"

section \<open>The capacity plan\<close>

definition minimumSafetyMargin :: u64 where "minimumSafetyMargin = 4 * 2 ^ 30"
definition minimumStageMargin :: u64 where "minimumStageMargin = 64 * 2 ^ 20"

definition stageMargin :: "u64 \<Rightarrow> u64 \<Rightarrow> u64" where
  "stageMargin value minimum = (let margin = value div 10 in if margin < minimum then minimum else margin)"

definition overhead :: "u64 \<Rightarrow> u64" where
  "overhead value = (let part = value div 20 in if part < 64 * 2 ^ 20 then 64 * 2 ^ 20 else part)"

fun sum_from :: "u64 \<Rightarrow> u64 list \<Rightarrow> u64 \<times> bool" where
  "sum_from result [] = (result, False)"
| "sum_from result (value # values) =
     (case checkedAdd result value of (result', overflow) \<Rightarrow> if overflow then (0, True) else sum_from result' values)"

definition checkedSum :: "u64 list \<Rightarrow> u64 \<times> bool" where
  "checkedSum values = sum_from 0 values"

definition budget :: "CapacityEvidence \<Rightarrow> u64 \<Rightarrow> torrent_error + CapacityBudget" where
  "budget e quarantineAvailable =
     (if (ce_Destination e \<noteq> DestinationWorkstation \<and> ce_Destination e \<noteq> DestinationUSB) \<or> quarantineAvailable = 0 \<or>
        ce_ScanAvailableBytes e = 0 \<or> ce_ReconstructionAvailable e = 0 \<or> ce_DestinationAvailable e = 0 \<or>
        ce_RootOverlayBudgetBytes e = 0 \<or> ce_ReconstructionBytes e = 0 \<or> ce_MaximumOutputBytes e = 0 \<or> ce_MaximumSelectedBytes e = 0
      then Inl TEvidenceUnavailable
      else Inr \<lparr>cb_QuarantineAvailableBytes = quarantineAvailable, cb_ScanAvailableBytes = ce_ScanAvailableBytes e,
        cb_ReconstructionAvailable = ce_ReconstructionAvailable e, cb_DestinationAvailable = ce_DestinationAvailable e,
        cb_RootOverlayBudgetBytes = ce_RootOverlayBudgetBytes e, cb_ArchiveExpansionBytes = ce_ArchiveExpansionBytes e,
        cb_ReconstructionBytes = ce_ReconstructionBytes e, cb_MaximumOutputBytes = ce_MaximumOutputBytes e,
        cb_MaximumSelectedBytes = ce_MaximumSelectedBytes e\<rparr>)"

text \<open>The loop over the selected indexes: \<open>seen\<close> is the map of those already taken.\<close>

fun select_files :: "bool \<Rightarrow> u32 list \<Rightarrow> u32 list \<Rightarrow> File list \<Rightarrow> u64 \<Rightarrow> bool \<Rightarrow> torrent_error + File list \<times> u64 \<times> bool" where
  "select_files safePolicy [] seen files acc archive = Inr (files, acc, archive)"
| "select_files safePolicy (index # indexes) seen files acc archive =
     (if length files \<le> unat index then Inl TInvalidSelection
      else if index \<in> set seen then Inl TInvalidSelection
      else let file = files ! unat index in
        if safePolicy \<and> hasBlockedType file then Inl TBlockedType
        else case checkedAdd acc (fi_SizeBytes file) of (acc', overflow) \<Rightarrow>
          if overflow then Inl TInsufficientCapacity
          else select_files safePolicy indexes (index # seen) (files[unat index := file\<lparr>fi_Selected := True\<rparr>]) acc'
            (archive \<or> hasArchive file))"

text \<open>The plan for a selected total.\<close>

definition plan_bytes :: "CapacityBudget \<Rightarrow> u64 \<Rightarrow> bool \<Rightarrow> torrent_error + SelectionPlan" where
  "plan_bytes b selected archiveSelected =
     (if selected = 0 \<or> cb_MaximumSelectedBytes b < selected then Inl TInsufficientCapacity
      else let quarantineMargin = stageMargin selected minimumStageMargin;
               (quarantineRequired, overflow1) = checkedSum [selected, overhead selected, quarantineMargin];
               expansion = (if archiveSelected then cb_ArchiveExpansionBytes b else 0);
               scanMargin = stageMargin selected minimumStageMargin;
               (scanRequired, overflow2) = checkedSum [selected, scanMargin];
               reconstructionMargin = stageMargin (cb_ReconstructionBytes b) minimumStageMargin;
               (reconstructionRequired, overflow3) = checkedSum [expansion, cb_ReconstructionBytes b, reconstructionMargin];
               destinationMargin = stageMargin (cb_MaximumOutputBytes b) minimumStageMargin;
               (destinationRequired, overflow4) = checkedSum [cb_MaximumOutputBytes b, overhead (cb_MaximumOutputBytes b), destinationMargin];
               safetyMargin = stageMargin selected minimumSafetyMargin;
               (sessionRequired, overflow5) = checkedSum [cb_RootOverlayBudgetBytes b, quarantineRequired, reconstructionRequired, safetyMargin] in
        if overflow1 \<or> (archiveSelected \<and> expansion = 0) \<or> overflow2 \<or> overflow3 \<or> overflow4 \<or> overflow5 \<or>
          cb_QuarantineAvailableBytes b < quarantineRequired \<or> cb_ScanAvailableBytes b < scanRequired \<or>
          cb_ReconstructionAvailable b < reconstructionRequired \<or> cb_DestinationAvailable b < destinationRequired
        then Inl TInsufficientCapacity
        else Inr \<lparr>sp_SelectedBytes = selected, sp_QuarantineRequired = quarantineRequired, sp_ScanRequired = scanRequired,
          sp_ReconstructionNeed = reconstructionRequired, sp_DestinationRequired = destinationRequired,
          sp_SessionRequired = sessionRequired, sp_SafetyMargin = safetyMargin, sp_QuarantineMargin = quarantineMargin,
          sp_ScanMargin = scanMargin, sp_ReconstructionMargin = reconstructionMargin, sp_DestinationMargin = destinationMargin\<rparr>)"

definition budget_positive :: "CapacityBudget \<Rightarrow> bool" where
  "budget_positive b \<longleftrightarrow>
     cb_QuarantineAvailableBytes b \<noteq> 0 \<and> cb_ScanAvailableBytes b \<noteq> 0 \<and> cb_ReconstructionAvailable b \<noteq> 0 \<and>
     cb_DestinationAvailable b \<noteq> 0 \<and> cb_RootOverlayBudgetBytes b \<noteq> 0 \<and> cb_ReconstructionBytes b \<noteq> 0 \<and>
     cb_MaximumOutputBytes b \<noteq> 0 \<and> cb_MaximumSelectedBytes b \<noteq> 0"

definition planSelection :: "Metadata \<Rightarrow> u32 list \<Rightarrow> CapacityBudget \<Rightarrow> bool \<Rightarrow> torrent_error + Metadata \<times> SelectionPlan" where
  "planSelection metadata indexes b safePolicy =
     (if \<not> md_PayloadPaused metadata \<or> md_Files metadata = [] \<or> indexes = [] \<or> length (md_Files metadata) < length indexes \<or>
        \<not> budget_positive b
      then Inl TInvalidSelection
      else case select_files safePolicy indexes [] (md_Files metadata) 0 False of Inl e \<Rightarrow> Inl e
       | Inr (files, acc, archive) \<Rightarrow>
          (case plan_bytes b acc archive of Inl e \<Rightarrow> Inl e
           | Inr plan \<Rightarrow> Inr (metadata\<lparr>md_Files := files, md_SelectedSizeBytes := acc\<rparr>, plan)))"

definition PlanSelection :: "Metadata \<Rightarrow> u32 list \<Rightarrow> CapacityEvidence \<Rightarrow> u64 \<Rightarrow> bool \<Rightarrow> torrent_error + Metadata \<times> SelectionPlan" where
  "PlanSelection metadata indexes evidence quarantineAvailable safePolicy =
     (case budget evidence quarantineAvailable of Inl e \<Rightarrow> Inl e | Inr b \<Rightarrow> planSelection metadata indexes b safePolicy)"


section \<open>The plan over the natural numbers\<close>

definition stage_part :: nat where "stage_part = 64 * 2 ^ 20"

definition quarantine_need :: "nat \<Rightarrow> nat" where
  "quarantine_need n = n + max (n div 20) stage_part + max (n div 10) stage_part"

definition scan_need :: "nat \<Rightarrow> nat" where
  "scan_need n = n + max (n div 10) stage_part"

definition reconstruction_need :: "CapacityBudget \<Rightarrow> bool \<Rightarrow> nat" where
  "reconstruction_need b archive =
     (if archive then unat (cb_ArchiveExpansionBytes b) else 0) + scan_need (unat (cb_ReconstructionBytes b))"

definition session_need :: "CapacityBudget \<Rightarrow> bool \<Rightarrow> nat \<Rightarrow> nat" where
  "session_need b archive n =
     unat (cb_RootOverlayBudgetBytes b) + quarantine_need n + reconstruction_need b archive + max (n div 10) (4 * 2 ^ 30)"

definition fits :: "CapacityBudget \<Rightarrow> bool \<Rightarrow> nat \<Rightarrow> bool" where
  "fits b archive n \<longleftrightarrow>
     0 < n \<and> n \<le> unat (cb_MaximumSelectedBytes b) \<and> (archive \<longrightarrow> cb_ArchiveExpansionBytes b \<noteq> 0) \<and>
     quarantine_need n \<le> unat (cb_QuarantineAvailableBytes b) \<and> scan_need n \<le> unat (cb_ScanAvailableBytes b) \<and>
     reconstruction_need b archive \<le> unat (cb_ReconstructionAvailable b) \<and>
     quarantine_need (unat (cb_MaximumOutputBytes b)) \<le> unat (cb_DestinationAvailable b) \<and> session_need b archive n < 2 ^ 64"

definition one_file :: Metadata where
  "one_file = \<lparr>md_DisplayName = ''a'', md_Files = [\<lparr>fi_Index = 0, fi_DisplayPath = ''a.txt'', fi_SizeBytes = 5, fi_Selected = False,
     fi_SuspectedType = ''text'', fi_HazardCodes = []\<rparr>], md_TotalSizeBytes = 5, md_SelectedSizeBytes = 0, md_PayloadPaused = True\<rparr>"

definition ample_evidence :: CapacityEvidence where
  "ample_evidence = \<lparr>ce_Destination = DestinationUSB, ce_ScanAvailableBytes = 2 ^ 40, ce_ReconstructionAvailable = 2 ^ 40,
     ce_DestinationAvailable = 2 ^ 40, ce_RootOverlayBudgetBytes = 1, ce_ArchiveExpansionBytes = 0, ce_ReconstructionBytes = 1,
     ce_MaximumOutputBytes = 1, ce_MaximumSelectedBytes = 9\<rparr>"

lemma unat_u64: "unat (a :: u64) < 2 ^ 64"
  using unsigned_less [of a, where ?'a = nat] by simp

lemma sum_from_spec:
  "snd (sum_from a vs) \<longleftrightarrow> 2 ^ 64 \<le> unat a + sum_list (map unat vs)"
  "\<not> snd (sum_from a vs) \<Longrightarrow> unat (fst (sum_from a vs)) = unat a + sum_list (map unat vs)"
proof (induction vs arbitrary: a)
  case (Cons v vs)
  have carry: "a + v < a \<longleftrightarrow> 2 ^ 64 \<le> unat a + unat v" for a using word_add_carry_iff [of a v] by simp
  have step: "unat (a + v) = unat a + unat v" if "\<not> a + v < a" for a using that by (rule unat_add_no_carry)
  { case (1 a) show ?case using Cons(1) [of "a + v"] carry [of a] step [of a] by (auto simp: checkedAdd_def) }
  { case (2 a) then show ?case using Cons(2) [of "a + v"] carry [of a] step [of a] by (auto simp: checkedAdd_def split: if_splits) }
qed (use unat_u64 in \<open>auto simp: not_le\<close>)

lemma checkedSum_spec:
  "snd (checkedSum vs) \<longleftrightarrow> 2 ^ 64 \<le> sum_list (map unat vs)"
  "\<not> snd (checkedSum vs) \<Longrightarrow> unat (fst (checkedSum vs)) = sum_list (map unat vs)"
  using sum_from_spec [of 0 vs] by (simp_all add: checkedSum_def)

lemma checkedSum_cases:
  assumes "checkedSum vs = (r, overflow)"
  shows "overflow \<longleftrightarrow> 2 ^ 64 \<le> sum_list (map unat vs)" "\<not> overflow \<Longrightarrow> unat r = sum_list (map unat vs)"
  using checkedSum_spec [of vs] assms by simp_all

lemma unat_margins:
  "unat (stageMargin v minimumStageMargin) = max (unat v div 10) stage_part"
  "unat (stageMargin v minimumSafetyMargin) = max (unat v div 10) (4 * 2 ^ 30)"
  "unat (overhead v) = max (unat v div 20) stage_part"
  by (auto simp: stageMargin_def overhead_def minimumStageMargin_def minimumSafetyMargin_def stage_part_def Let_def word_less_nat_alt unat_div)

lemma plan_bytes_spec:
  "(\<exists>p. plan_bytes b v archive = Inr p) \<longleftrightarrow> fits b archive (unat v)"
  "plan_bytes b v archive = Inr p \<Longrightarrow>
     sp_SelectedBytes p = v \<and> unat (sp_QuarantineRequired p) = quarantine_need (unat v) \<and> unat (sp_ScanRequired p) = scan_need (unat v) \<and>
     unat (sp_ReconstructionNeed p) = reconstruction_need b archive \<and>
     unat (sp_DestinationRequired p) = quarantine_need (unat (cb_MaximumOutputBytes b)) \<and> unat (sp_SessionRequired p) = session_need b archive (unat v)"
proof -
  let ?x = "if archive then cb_ArchiveExpansionBytes b else 0"
  obtain q o1 where q: "checkedSum [v, overhead v, stageMargin v minimumStageMargin] = (q, o1)" by (cases "checkedSum [v, overhead v, stageMargin v minimumStageMargin]")
  obtain s o2 where s: "checkedSum [v, stageMargin v minimumStageMargin] = (s, o2)" by (cases "checkedSum [v, stageMargin v minimumStageMargin]")
  let ?r = "[?x, cb_ReconstructionBytes b, stageMargin (cb_ReconstructionBytes b) minimumStageMargin]"
  obtain r o3 where r: "checkedSum ?r = (r, o3)" by (cases "checkedSum ?r")
  let ?d = "[cb_MaximumOutputBytes b, overhead (cb_MaximumOutputBytes b), stageMargin (cb_MaximumOutputBytes b) minimumStageMargin]"
  obtain d o4 where d: "checkedSum ?d = (d, o4)" by (cases "checkedSum ?d")
  let ?t = "[cb_RootOverlayBudgetBytes b, q, r, stageMargin v minimumSafetyMargin]"
  obtain t o5 where t: "checkedSum ?t = (t, o5)" by (cases "checkedSum ?t")
  have q': "o1 \<longleftrightarrow> 2 ^ 64 \<le> quarantine_need (unat v)" "\<not> o1 \<Longrightarrow> unat q = quarantine_need (unat v)"
    using checkedSum_cases [OF q] by (simp_all add: quarantine_need_def unat_margins add.assoc)
  have s': "o2 \<longleftrightarrow> 2 ^ 64 \<le> scan_need (unat v)" "\<not> o2 \<Longrightarrow> unat s = scan_need (unat v)"
    using checkedSum_cases [OF s] by (simp_all add: scan_need_def unat_margins)
  have r': "o3 \<longleftrightarrow> 2 ^ 64 \<le> reconstruction_need b archive" "\<not> o3 \<Longrightarrow> unat r = reconstruction_need b archive"
    using checkedSum_cases [OF r] by (auto simp: reconstruction_need_def scan_need_def unat_margins add.assoc)
  have d': "o4 \<longleftrightarrow> 2 ^ 64 \<le> quarantine_need (unat (cb_MaximumOutputBytes b))"
    "\<not> o4 \<Longrightarrow> unat d = quarantine_need (unat (cb_MaximumOutputBytes b))"
    using checkedSum_cases [OF d] by (simp_all add: quarantine_need_def unat_margins add.assoc)
  have t': "o5 \<longleftrightarrow> 2 ^ 64 \<le> session_need b archive (unat v)" "\<not> o5 \<Longrightarrow> unat t = session_need b archive (unat v)" if "\<not> o1" "\<not> o3"
    using checkedSum_cases [OF t] q'(2) r'(2) that by (simp_all add: session_need_def unat_margins add.assoc)
  have plan: "plan_bytes b v archive =
    (if v = 0 \<or> cb_MaximumSelectedBytes b < v \<or> o1 \<or> (archive \<and> ?x = 0) \<or> o2 \<or> o3 \<or> o4 \<or> o5 \<or>
        cb_QuarantineAvailableBytes b < q \<or> cb_ScanAvailableBytes b < s \<or> cb_ReconstructionAvailable b < r \<or> cb_DestinationAvailable b < d
     then Inl TInsufficientCapacity
     else Inr \<lparr>sp_SelectedBytes = v, sp_QuarantineRequired = q, sp_ScanRequired = s, sp_ReconstructionNeed = r, sp_DestinationRequired = d,
       sp_SessionRequired = t, sp_SafetyMargin = stageMargin v minimumSafetyMargin, sp_QuarantineMargin = stageMargin v minimumStageMargin,
       sp_ScanMargin = stageMargin v minimumStageMargin, sp_ReconstructionMargin = stageMargin (cb_ReconstructionBytes b) minimumStageMargin,
       sp_DestinationMargin = stageMargin (cb_MaximumOutputBytes b) minimumStageMargin\<rparr>)"
    using q s r d t by (simp add: plan_bytes_def Let_def)
  show "(\<exists>p. plan_bytes b v archive = Inr p) \<longleftrightarrow> fits b archive (unat v)"
  proof
    assume "\<exists>p. plan_bytes b v archive = Inr p"
    then show "fits b archive (unat v)"
      using q'(2) s'(2) r'(2) d'(2) t'(1)
      by (auto simp: plan fits_def word_less_nat_alt not_less unat_gt_0 split: if_splits)
  next
    assume f: "fits b archive (unat v)"
    have "\<not> o1" "\<not> o2" "\<not> o3" "\<not> o4"
      using f unat_u64 [of "cb_QuarantineAvailableBytes b"] unat_u64 [of "cb_ScanAvailableBytes b"] unat_u64 [of "cb_ReconstructionAvailable b"]
        unat_u64 [of "cb_DestinationAvailable b"] by (auto simp: q'(1) s'(1) r'(1) d'(1) fits_def)
    moreover from this have "\<not> o5" using f t'(1) by (simp add: fits_def)
    ultimately show "\<exists>p. plan_bytes b v archive = Inr p"
      using f q'(2) s'(2) r'(2) d'(2) by (auto simp: plan fits_def word_less_nat_alt not_less)
  qed
  show "plan_bytes b v archive = Inr p \<Longrightarrow>
     sp_SelectedBytes p = v \<and> unat (sp_QuarantineRequired p) = quarantine_need (unat v) \<and> unat (sp_ScanRequired p) = scan_need (unat v) \<and>
     unat (sp_ReconstructionNeed p) = reconstruction_need b archive \<and>
     unat (sp_DestinationRequired p) = quarantine_need (unat (cb_MaximumOutputBytes b)) \<and> unat (sp_SessionRequired p) = session_need b archive (unat v)"
    using q'(2) s'(2) r'(2) d'(2) t'(2) by (auto simp: plan split: if_splits)
qed


section \<open>The selection\<close>

definition mark :: "u32 list \<Rightarrow> File list \<Rightarrow> File list" where
  "mark indexes files = foldl (\<lambda>fs i. fs[unat i := (fs ! unat i)\<lparr>fi_Selected := True\<rparr>]) files indexes"

definition selected_sizes :: "u32 list \<Rightarrow> File list \<Rightarrow> nat" where
  "selected_sizes indexes files = sum_list (map (\<lambda>i. unat (fi_SizeBytes (files ! unat i))) indexes)"

lemma mark_simps: "mark [] files = files"
  "mark (i # is) files = mark is (files[unat i := (files ! unat i)\<lparr>fi_Selected := True\<rparr>])"
  by (simp_all add: mark_def)

lemma mark_length [simp]: "length (mark is files) = length files"
  by (induction "is" arbitrary: files) (simp_all add: mark_simps)

lemma mark_nth:
  "j < length files \<Longrightarrow> mark is files ! j = (files ! j)\<lparr>fi_Selected := fi_Selected (files ! j) \<or> j \<in> unat ` set is\<rparr>"
proof (induction "is" arbitrary: files)
  case (Cons i "is")
  then show ?case by (cases "unat i = j") (auto simp: mark_simps nth_list_update)
qed (simp add: mark_simps)

lemma unselected_file:
  "hasBlockedType (f\<lparr>fi_Selected := x\<rparr>) = hasBlockedType f" "hasArchive (f\<lparr>fi_Selected := x\<rparr>) = hasArchive f"
  by (simp_all add: hasBlockedType_def hasArchive_def)

lemma select_files_Inr:
  "select_files safe is seen files acc archive = Inr r \<longleftrightarrow>
     distinct is \<and> set is \<inter> set seen = {} \<and> (\<forall>i \<in> set is. unat i < length files \<and> (safe \<longrightarrow> \<not> hasBlockedType (files ! unat i))) \<and>
     unat acc + selected_sizes is files < 2 ^ 64 \<and>
     r = (mark is files, of_nat (unat acc + selected_sizes is files), archive \<or> (\<exists>i \<in> set is. hasArchive (files ! unat i)))"
proof (induction "is" arbitrary: seen files acc archive)
  case Nil
  show ?case using unat_u64 [of acc] by (auto simp: mark_simps selected_sizes_def)
next
  case (Cons i "is")
  let ?f = "files ! unat i" and ?v = "fi_SizeBytes (files ! unat i)"
  let ?files = "files[unat i := ?f\<lparr>fi_Selected := True\<rparr>]"
  have carry: "acc + ?v < acc \<longleftrightarrow> 2 ^ 64 \<le> unat acc + unat ?v" using word_add_carry_iff [of acc ?v] by simp
  have sizes: "selected_sizes (i # is) files = unat ?v + selected_sizes is files" by (simp add: selected_sizes_def)
  show ?case
  proof (cases "unat i < length files \<and> i \<notin> set seen \<and> (safe \<longrightarrow> \<not> hasBlockedType ?f) \<and> \<not> acc + ?v < acc")
    case True
    then have sum: "unat (acc + ?v) = unat acc + unat ?v" by (intro unat_add_no_carry) simp
    have same: "selected_sizes is ?files = selected_sizes is files" "hasBlockedType (?files ! j) = hasBlockedType (files ! j)"
      "hasArchive (?files ! j) = hasArchive (files ! j)" for j
      using True by (auto simp: selected_sizes_def nth_list_update unselected_file intro!: arg_cong [where f = sum_list])
    have step: "select_files safe (i # is) seen files acc archive = select_files safe is (i # seen) ?files (acc + ?v) (archive \<or> hasArchive ?f)"
      using True by (auto simp: checkedAdd_def Let_def)
    show ?thesis
      unfolding step Cons.IH same sum sizes using True by (auto simp: mark_simps same add.assoc)
  next
    case False
    then have "\<forall>r. select_files safe (i # is) seen files acc archive \<noteq> Inr r" by (auto simp: checkedAdd_def Let_def)
    moreover have "2 ^ 64 \<le> unat acc + selected_sizes (i # is) files" if "acc + ?v < acc" using that carry sizes by linarith
    ultimately show ?thesis using False by fastforce
  qed
qed

lemma distinct_indexes_bounded:
  assumes "distinct (is :: u32 list)" "\<forall>i \<in> set is. unat i < n"
  shows "length is \<le> n"
proof -
  have "inj_on unat (set is)" by (auto simp: inj_on_def word_unat_eq_iff)
  then have "card (set is) = card (unat ` set is)" by (simp add: card_image)
  also have "\<dots> \<le> card {..<n}" using assms(2) by (intro card_mono) auto
  finally show ?thesis using assms(1) by (simp add: distinct_card)
qed

text \<open>What a selection must satisfy: the guard of the request, the choice of files, the room for every stage.\<close>

definition selection_guard :: "Metadata \<Rightarrow> u32 list \<Rightarrow> CapacityBudget \<Rightarrow> bool" where
  "selection_guard m is b \<longleftrightarrow>
     md_PayloadPaused m \<and> md_Files m \<noteq> [] \<and> is \<noteq> [] \<and> length is \<le> length (md_Files m) \<and> budget_positive b"

definition permitted_files :: "Metadata \<Rightarrow> u32 list \<Rightarrow> bool \<Rightarrow> bool" where
  "permitted_files m is safe \<longleftrightarrow>
     distinct is \<and> (\<forall>i \<in> set is. unat i < length (md_Files m) \<and> (safe \<longrightarrow> \<not> hasBlockedType (md_Files m ! unat i)))"

definition selection_ok :: "Metadata \<Rightarrow> u32 list \<Rightarrow> CapacityBudget \<Rightarrow> bool \<Rightarrow> bool" where
  "selection_ok m is b safe \<longleftrightarrow>
     md_PayloadPaused m \<and> is \<noteq> [] \<and> budget_positive b \<and> permitted_files m is safe \<and>
     fits b (\<exists>i \<in> set is. hasArchive (md_Files m ! unat i)) (selected_sizes is (md_Files m))"

lemma permitted_room:
  "permitted_files m is safe \<Longrightarrow> length is \<le> length (md_Files m)"
  using distinct_indexes_bounded [of "is" "length (md_Files m)"] by (simp add: permitted_files_def)

lemma selection_ok_iff:
  "selection_ok m is b safe \<longleftrightarrow> selection_guard m is b \<and> permitted_files m is safe \<and>
     fits b (\<exists>i \<in> set is. hasArchive (md_Files m ! unat i)) (selected_sizes is (md_Files m))"
  using permitted_room [of m "is" safe] by (cases "md_Files m") (auto simp: selection_ok_def selection_guard_def)

lemma fits_bounded: "fits b archive n \<Longrightarrow> n < 2 ^ 64"
  using unat_u64 [of "cb_MaximumSelectedBytes b"] by (simp add: fits_def)

lemma planSelection_permitted:
  assumes "selection_guard m is b" "permitted_files m is safe" "selected_sizes is (md_Files m) < 2 ^ 64"
  shows "planSelection m is b safe =
    (case plan_bytes b (of_nat (selected_sizes is (md_Files m))) (\<exists>i \<in> set is. hasArchive (md_Files m ! unat i)) of Inl e \<Rightarrow> Inl e
     | Inr p \<Rightarrow> Inr (m\<lparr>md_Files := mark is (md_Files m), md_SelectedSizeBytes := of_nat (selected_sizes is (md_Files m))\<rparr>, p))"
proof -
  have "select_files safe is [] (md_Files m) 0 False =
      Inr (mark is (md_Files m), of_nat (selected_sizes is (md_Files m)), \<exists>i \<in> set is. hasArchive (md_Files m ! unat i))"
    using assms(2,3) by (subst select_files_Inr) (simp add: permitted_files_def)
  then show ?thesis using assms(1) by (simp add: planSelection_def selection_guard_def not_less)
qed

lemma planSelection_refused:
  assumes "\<not> (selection_guard m is b \<and> permitted_files m is safe \<and> selected_sizes is (md_Files m) < 2 ^ 64)"
  shows "\<exists>e. planSelection m is b safe = Inl e"
proof (cases "selection_guard m is b")
  case True
  have "\<nexists>r. select_files safe is [] (md_Files m) 0 False = Inr r"
    unfolding select_files_Inr using True assms by (simp add: permitted_files_def)
  then obtain e where "select_files safe is [] (md_Files m) 0 False = Inl e"
    by (cases "select_files safe is [] (md_Files m) 0 False") auto
  then show ?thesis by (simp add: planSelection_def)
qed (simp add: planSelection_def selection_guard_def not_le)

lemma planSelection_Inr:
  "(\<exists>r. planSelection m is b safe = Inr r) \<longleftrightarrow> selection_ok m is b safe"
proof (cases "selection_guard m is b \<and> permitted_files m is safe \<and> selected_sizes is (md_Files m) < 2 ^ 64")
  case True
  let ?n = "selected_sizes is (md_Files m)" and ?archive = "\<exists>i \<in> set is. hasArchive (md_Files m ! unat i)"
  have n: "unat (of_nat ?n :: u64) = ?n" using True by (simp add: unat_of_nat_small)
  have "(\<exists>r. planSelection m is b safe = Inr r) \<longleftrightarrow> (\<exists>p. plan_bytes b (of_nat ?n) ?archive = Inr p)"
    using True by (subst planSelection_permitted) (auto split: sum.splits)
  also have "\<dots> \<longleftrightarrow> fits b ?archive ?n" unfolding plan_bytes_spec(1) n ..
  also have "\<dots> \<longleftrightarrow> selection_ok m is b safe" using True by (simp add: selection_ok_iff)
  finally show ?thesis .
next
  case False
  then have "\<not> selection_ok m is b safe" using fits_bounded by (auto simp: selection_ok_iff)
  then show ?thesis using planSelection_refused [OF False] by auto
qed

lemma planSelection_result:
  assumes run: "planSelection m is b safe = Inr (m', p)"
  shows "m' = m\<lparr>md_Files := mark is (md_Files m), md_SelectedSizeBytes := sp_SelectedBytes p\<rparr>"
    "unat (sp_SelectedBytes p) = selected_sizes is (md_Files m)"
    "plan_bytes b (sp_SelectedBytes p) (\<exists>i \<in> set is. hasArchive (md_Files m ! unat i)) = Inr p"
proof -
  let ?n = "selected_sizes is (md_Files m)" and ?archive = "\<exists>i \<in> set is. hasArchive (md_Files m ! unat i)"
  have ok: "selection_guard m is b" "permitted_files m is safe" "?n < 2 ^ 64" using run planSelection_refused [of m "is" b safe] by fastforce+
  have n: "unat (of_nat ?n :: u64) = ?n" using ok(3) by (simp add: unat_of_nat_small)
  have p: "plan_bytes b (of_nat ?n) ?archive = Inr p" "m' = m\<lparr>md_Files := mark is (md_Files m), md_SelectedSizeBytes := of_nat ?n\<rparr>"
    using run unfolding planSelection_permitted [OF ok] by (auto split: sum.splits)
  have size: "sp_SelectedBytes p = of_nat ?n" using plan_bytes_spec(2) [OF p(1)] by simp
  show "m' = m\<lparr>md_Files := mark is (md_Files m), md_SelectedSizeBytes := sp_SelectedBytes p\<rparr>"
    "unat (sp_SelectedBytes p) = ?n" "plan_bytes b (sp_SelectedBytes p) ?archive = Inr p"
    using p n by (simp_all add: size)
qed

text \<open>C39: planning a selection is exact.  With usable evidence, \<^verbatim>\<open>PlanSelection\<close> accepts a selection just when it names
  existing files once each, none of them blocked under the safe policy, and every stage of the workflow (quarantine,
  scan, reconstruction, destination) has room for it with its overhead and margin, computed without any wrap-around;
  then it marks those files and reports the sizes those computations give.  Otherwise it refuses.
\<close>

theorem selection_plan_exact:
  "case budget ev available of
     Inl e \<Rightarrow> PlanSelection m is ev available safe = Inl e
   | Inr b \<Rightarrow>
      (case PlanSelection m is ev available safe of
         Inl e \<Rightarrow> \<not> selection_ok m is b safe
       | Inr (m', p) \<Rightarrow>
           let n = selected_sizes is (md_Files m); archive = (\<exists>i \<in> set is. hasArchive (md_Files m ! unat i)) in
           selection_ok m is b safe \<and> md_Files m' = mark is (md_Files m) \<and>
           unat (md_SelectedSizeBytes m') = n \<and> unat (sp_SelectedBytes p) = n \<and>
           unat (sp_QuarantineRequired p) = quarantine_need n \<and> unat (sp_ScanRequired p) = scan_need n \<and>
           unat (sp_ReconstructionNeed p) = reconstruction_need b archive \<and>
           unat (sp_DestinationRequired p) = quarantine_need (unat (cb_MaximumOutputBytes b)) \<and>
           unat (sp_SessionRequired p) = session_need b archive n)"
proof (cases "budget ev available")
  case (Inr b)
  have eq: "PlanSelection m is ev available safe = planSelection m is b safe" by (simp add: PlanSelection_def Inr)
  show ?thesis
  proof (cases "planSelection m is b safe")
    case (Inl e)
    then show ?thesis using planSelection_Inr [of m "is" b safe] Inr by (simp add: eq)
  next
    case run: (Inr r)
    obtain m' p where r: "r = (m', p)" by (cases r)
    note facts = planSelection_result [OF run [unfolded r]]
    have "selection_ok m is b safe" using planSelection_Inr [of m "is" b safe] run by blast
    then show ?thesis using Inr run r facts(1,2) plan_bytes_spec(2) [OF facts(3)] by (simp add: eq Let_def)
  qed
qed (simp add: PlanSelection_def)

theorem selection_plan_exact_witness:
  "\<exists>m' p. PlanSelection one_file [0] ample_evidence (2 ^ 40) True = Inr (m', p) \<and> md_Files m' = mark [0] (md_Files one_file) \<and>
     unat (sp_SessionRequired p) = session_need (projr (budget ample_evidence (2 ^ 40))) False 5"
proof -
  have "\<exists>r. PlanSelection one_file [0] ample_evidence (2 ^ 40) True = Inr r"
    by (simp add: PlanSelection_def budget_def planSelection_def budget_positive_def hasBlockedType_def checkedAdd_def one_file_def
        ample_evidence_def plan_bytes_def stageMargin_def overhead_def minimumStageMargin_def minimumSafetyMargin_def checkedSum_def
        hasArchive_def Let_def)
  then obtain m' p where run: "PlanSelection one_file [0] ample_evidence (2 ^ 40) True = Inr (m', p)" by fastforce
  moreover have "\<exists>b. budget ample_evidence (2 ^ 40) = Inr b" by (simp add: budget_def ample_evidence_def)
  moreover have "selected_sizes [0] (md_Files one_file) = 5" "\<not> hasArchive (md_Files one_file ! 0)"
    by (simp_all add: selected_sizes_def one_file_def hasArchive_def)
  ultimately show ?thesis
    using selection_plan_exact [where ev = ample_evidence and available = "2 ^ 40" and m = one_file and ?is = "[0]" and safe = True] by (auto simp: Let_def)
qed

section \<open>Two gaps\<close>

text \<open>
  \<^verbatim>\<open>windowsReservedName\<close> removes the extension as written from the lowered name, so that an extension with a capital
  letter stays and hides the reserved name.
\<close>

lemma reserved_name_gap:
  "windowsReservedName to_lower ''CON.txt''" "\<not> windowsReservedName to_lower ''CON.TXT''"
  by code_simp+

text \<open>A second selection keeps the marks of the first, though it counts only its own sizes.\<close>

lemma reselection_keeps_marks:
  assumes "planSelection m is b safe = Inr (m1, p1)" "planSelection m1 is' b' safe' = Inr (m2, p2)" "i \<in> set is" "i \<notin> set is'"
  shows "fi_Selected (md_Files m2 ! unat i)" "unat (sp_SelectedBytes p2) = selected_sizes is' (md_Files m)"
proof -
  have "selection_ok m is b safe" "selection_ok m1 is' b' safe'" using planSelection_Inr assms(1,2) by blast+
  then have i: "unat i < length (md_Files m)" "\<forall>j \<in> set is'. unat j < length (md_Files m1)"
    using assms(3) by (auto simp: selection_ok_def permitted_files_def)
  note r1 = planSelection_result [OF assms(1)] and r2 = planSelection_result [OF assms(2)]
  show "fi_Selected (md_Files m2 ! unat i)" using i(1) assms(3) by (simp add: r2(1) r1(1) mark_nth)
  have "selected_sizes is' (mark is (md_Files m)) = selected_sizes is' (md_Files m)"
    using i(2) unfolding selected_sizes_def by (intro arg_cong [where f = sum_list] map_cong) (auto simp: r1(1) mark_nth)
  then show "unat (sp_SelectedBytes p2) = selected_sizes is' (md_Files m)" using r2(2) by (simp add: r1(1))
qed

end
