(* ===== verification/Torrent_Controller.thy ===== *)
theory Torrent_Controller
  imports Torrent_Plan "HOL-Library.AList"
begin

text \<open>
  The download workflow, \<^verbatim>\<open>internal/torrent/controller.go\<close>: metadata with the payload paused, an explicit selection
  against fresh capacity, the transfer with its monitor, and sealing of the quarantine, over any client backend and
  quarantine.  Both are worlds the operations thread through; how a context ends is part of what a call returns.
  Every operation holds the controller's mutex, so that it is one step; \<^verbatim>\<open>Monitor\<close> releases the mutex between
  its polls and is given as its locked sections and their composition with whatever runs in between.
\<close>

section \<open>Data\<close>

datatype torrent_state = StateEmpty | StateMetadataFetching | StateSelectionRequired | StateCapacityVerified | StateDownloading
  | StatePaused | StateDownloadComplete | StateSealing | StateSealed

datatype ClientState = ClientMetadata | ClientPaused | ClientRunning | ClientComplete | ClientError

record ClientStatus =
  cs_State :: ClientState
  cs_CompletedBytes :: u64
  cs_TotalBytes :: u64

record FileDigest =
  fd_Path :: string
  fd_SizeBytes :: u64
  fd_SHA256 :: "u8 list"
  fd_SourceIndex :: u32

record TorrentProgress =
  tp_CompletedBytes :: u64
  tp_TotalBytes :: u64

record TorrentStatus =
  ts_SchemaVersion :: int
  ts_State :: torrent_state
  ts_Progress :: TorrentProgress
  ts_Code :: string
  ts_Remediation :: string

text \<open>A handle is the client's content identifier; the empty one is \<^verbatim>\<open>Handle{}\<close>.\<close>

definition handle_valid :: "string \<Rightarrow> bool" where
  "handle_valid value \<longleftrightarrow> (length value = 40 \<or> length value = 64) \<and> list_all is_lower_hex value"

record ('i, 'b) TorrentBackend =
  bk_AddPaused :: "'i \<Rightarrow> 'b \<Rightarrow> 'b \<times> (torrent_error + string)"
  bk_Metadata :: "string \<Rightarrow> 'b \<Rightarrow> 'b \<times> (torrent_error + RawMetadata)"
  bk_SetSelection :: "string \<Rightarrow> u32 list \<Rightarrow> u32 \<Rightarrow> 'b \<Rightarrow> 'b \<times> torrent_error option"
  bk_Start :: "string \<Rightarrow> 'b \<Rightarrow> 'b \<times> torrent_error option"
  bk_Pause :: "string \<Rightarrow> 'b \<Rightarrow> 'b \<times> torrent_error option"
  bk_Status :: "string \<Rightarrow> 'b \<Rightarrow> 'b \<times> (torrent_error + ClientStatus)"
  bk_VerifyCompleted :: "string \<Rightarrow> Metadata \<Rightarrow> 'b \<Rightarrow> 'b \<times> (torrent_error + FileDigest list)"
  bk_Shutdown :: "'b \<Rightarrow> 'b \<times> torrent_error option"

record 'q Quarantine =
  qu_CapacityBytes :: "'q \<Rightarrow> 'q \<times> (torrent_error + u64)"
  qu_SyncAndUnmount :: "'q \<Rightarrow> 'q \<times> torrent_error option"

text \<open>Durations are nanoseconds.\<close>

record TorrentConfig =
  tg_SafePolicy :: bool
  tg_MetadataTimeout :: int
  tg_PollInterval :: int
  tg_StallTimeout :: int

record ('b, 'q) TorrentController =
  tc_backend :: 'b
  tc_quarantine :: 'q
  tc_config :: TorrentConfig
  tc_state :: torrent_state
  tc_handle :: string
  tc_metadata :: Metadata
  tc_plan :: SelectionPlan
  tc_progress :: TorrentProgress
  tc_manifest :: "FileDigest list"
  tc_clientDown :: bool
  tc_closed :: bool

definition no_metadata :: Metadata where
  "no_metadata = \<lparr>md_DisplayName = [], md_Files = [], md_TotalSizeBytes = 0, md_SelectedSizeBytes = 0, md_PayloadPaused = False\<rparr>"

definition no_plan :: SelectionPlan where
  "no_plan = \<lparr>sp_SelectedBytes = 0, sp_QuarantineRequired = 0, sp_ScanRequired = 0, sp_ReconstructionNeed = 0,
     sp_DestinationRequired = 0, sp_SessionRequired = 0, sp_SafetyMargin = 0, sp_QuarantineMargin = 0, sp_ScanMargin = 0,
     sp_ReconstructionMargin = 0, sp_DestinationMargin = 0\<rparr>"

definition no_progress :: TorrentProgress where
  "no_progress = \<lparr>tp_CompletedBytes = 0, tp_TotalBytes = 0\<rparr>"

definition second :: int where "second = 1000000000"

definition default_to :: "int \<Rightarrow> int \<Rightarrow> int" where
  "default_to fallback value = (if value = 0 then fallback else value)"

definition newTorrentController :: "'b \<Rightarrow> 'q \<Rightarrow> TorrentConfig \<Rightarrow> torrent_error + ('b, 'q) TorrentController" where
  "newTorrentController backend quarantine config =
     (let config = config\<lparr>tg_MetadataTimeout := default_to (120 * second) (tg_MetadataTimeout config),
            tg_PollInterval := default_to second (tg_PollInterval config),
            tg_StallTimeout := default_to (300 * second) (tg_StallTimeout config)\<rparr> in
      if tg_MetadataTimeout config < second \<or> 600 * second < tg_MetadataTimeout config \<or> tg_PollInterval config \<le> 0 \<or>
         60 * second < tg_PollInterval config \<or> tg_StallTimeout config < second \<or> 600 * second < tg_StallTimeout config
      then Inl TInvalidRequest
      else Inr \<lparr>tc_backend = backend, tc_quarantine = quarantine, tc_config = config, tc_state = StateEmpty, tc_handle = [],
        tc_metadata = no_metadata, tc_plan = no_plan, tc_progress = no_progress, tc_manifest = [], tc_clientDown = False,
        tc_closed = False\<rparr>)"

definition metadataUnavailable :: "torrent_error \<Rightarrow> torrent_error" where
  "metadataUnavailable cause = (if cause = TCanceled then cause else TMetadataUnavailable)"

definition isTorrentContextError :: "torrent_error \<Rightarrow> bool" where
  "isTorrentContextError e \<longleftrightarrow> e = TCanceled \<or> e = TDeadlineExceeded"

section \<open>Metadata and selection\<close>

text \<open>One turn of the loop of \<^verbatim>\<open>Add\<close>; \<open>None\<close> when the metadata is not there yet.\<close>

definition metadata_poll :: "('i, 'b) TorrentBackend \<Rightarrow> (string \<Rightarrow> string) \<Rightarrow> (string \<Rightarrow> string) \<Rightarrow> ('b, 'q) TorrentController \<Rightarrow>
    ('b, 'q) TorrentController \<times> (torrent_error + Metadata option)" where
  "metadata_poll ops nfc lower c =
     (case bk_Pause ops (tc_handle c) (tc_backend c) of
        (b, Some e) \<Rightarrow> (c\<lparr>tc_backend := b\<rparr>, Inl (metadataUnavailable e))
      | (b, None) \<Rightarrow>
         (case bk_Metadata ops (tc_handle c) b of
            (b, Inl e) \<Rightarrow> (c\<lparr>tc_backend := b\<rparr>, Inl (metadataUnavailable e))
          | (b, Inr raw) \<Rightarrow>
              let c = c\<lparr>tc_backend := b\<rparr> in
              if rm_PayloadRead raw \<noteq> 0 then (c, Inl TUnsafeMetadata)
              else if \<not> rm_Available raw then (c, Inr None)
              else case validateMetadata nfc lower raw of Inl e \<Rightarrow> (c, Inl e)
               | Inr metadata \<Rightarrow>
                  (case bk_SetSelection ops (tc_handle c) [] (of_nat (length (md_Files metadata))) b of
                     (b, Some e) \<Rightarrow> (c\<lparr>tc_backend := b\<rparr>, Inl (metadataUnavailable e))
                   | (b, None) \<Rightarrow>
                       (c\<lparr>tc_backend := b, tc_metadata := metadata, tc_state := StateSelectionRequired\<rparr>, Inr (Some metadata)))))"

text \<open>
  \<open>waits\<close> are the outcomes of \<^verbatim>\<open>Wait\<close>, \<open>None\<close> for a timer that fired.  The operation's context is bounded, so that they are
  finitely many; after the last one its deadline has passed.
\<close>

fun metadata_loop :: "('i, 'b) TorrentBackend \<Rightarrow> (string \<Rightarrow> string) \<Rightarrow> (string \<Rightarrow> string) \<Rightarrow> torrent_error option list \<Rightarrow>
    ('b, 'q) TorrentController \<Rightarrow> ('b, 'q) TorrentController \<times> (torrent_error + Metadata)" where
  "metadata_loop ops nfc lower waits c =
     (case metadata_poll ops nfc lower c of
        (c, Inl e) \<Rightarrow> (c, Inl e)
      | (c, Inr (Some metadata)) \<Rightarrow> (c, Inr metadata)
      | (c, Inr None) \<Rightarrow>
         (case waits of [] \<Rightarrow> (c, Inl (metadataUnavailable TDeadlineExceeded))
          | Some e # _ \<Rightarrow> (c, Inl (metadataUnavailable e))
          | None # waits \<Rightarrow> metadata_loop ops nfc lower waits c))"

declare metadata_loop.simps [simp del]

definition torrent_Add :: "('i, 'b) TorrentBackend \<Rightarrow> (string \<Rightarrow> string) \<Rightarrow> (string \<Rightarrow> string) \<Rightarrow> torrent_error option list \<Rightarrow> 'i \<Rightarrow>
    ('b, 'q) TorrentController \<Rightarrow> ('b, 'q) TorrentController \<times> (torrent_error + Metadata)" where
  "torrent_Add ops nfc lower waits input c =
     (if tc_closed c \<or> tc_state c \<noteq> StateEmpty then (c, Inl TInvalidRequest)
      else case bk_AddPaused ops input (tc_backend c) of
         (b, Inl e) \<Rightarrow> (c\<lparr>tc_backend := b\<rparr>, Inl TInvalidInput)
       | (b, Inr handle) \<Rightarrow>
          if \<not> handle_valid handle then (c\<lparr>tc_backend := b\<rparr>, Inl TInvalidInput)
          else metadata_loop ops nfc lower waits (c\<lparr>tc_backend := b, tc_handle := handle, tc_state := StateMetadataFetching\<rparr>))"

definition torrent_Metadata :: "('b, 'q) TorrentController \<Rightarrow> torrent_error + Metadata" where
  "torrent_Metadata c =
     (if tc_closed c \<or> tc_state c = StateEmpty \<or> tc_state c = StateMetadataFetching then Inl TInvalidRequest else Inr (tc_metadata c))"

definition torrent_Select :: "('i, 'b) TorrentBackend \<Rightarrow> 'q Quarantine \<Rightarrow> u32 list \<Rightarrow> CapacityEvidence \<Rightarrow>
    ('b, 'q) TorrentController \<Rightarrow> ('b, 'q) TorrentController \<times> (torrent_error + Metadata \<times> SelectionPlan)" where
  "torrent_Select ops qops indexes evidence c =
     (if tc_closed c \<or> (tc_state c \<noteq> StateSelectionRequired \<and> tc_state c \<noteq> StateCapacityVerified) then (c, Inl TInvalidRequest)
      else case qu_CapacityBytes qops (tc_quarantine c) of
         (q, Inl e) \<Rightarrow> (c\<lparr>tc_quarantine := q\<rparr>, Inl (if isTorrentContextError e then e else TEvidenceUnavailable))
       | (q, Inr available) \<Rightarrow>
          let c = c\<lparr>tc_quarantine := q\<rparr> in
          (case PlanSelection (tc_metadata c) indexes evidence available (tg_SafePolicy (tc_config c)) of
             Inl e \<Rightarrow> (c, Inl e)
           | Inr (metadata, plan) \<Rightarrow>
              (case bk_SetSelection ops (tc_handle c) indexes (of_nat (length (md_Files metadata))) (tc_backend c) of
                 (b, Some e) \<Rightarrow> (c\<lparr>tc_backend := b\<rparr>, Inl TInvalidSelection)
               | (b, None) \<Rightarrow>
                  (c\<lparr>tc_backend := b, tc_metadata := metadata, tc_plan := plan,
                     tc_progress := \<lparr>tp_CompletedBytes = 0, tp_TotalBytes = sp_SelectedBytes plan\<rparr>, tc_state := StateCapacityVerified\<rparr>,
                   Inr (metadata, plan)))))"

section \<open>The transfer\<close>

definition torrent_Start :: "('i, 'b) TorrentBackend \<Rightarrow> ('b, 'q) TorrentController \<Rightarrow> ('b, 'q) TorrentController \<times> torrent_error option" where
  "torrent_Start ops c =
     (if tc_closed c \<or> (tc_state c \<noteq> StateCapacityVerified \<and> tc_state c \<noteq> StatePaused) \<or> sp_SelectedBytes (tc_plan c) = 0
      then (c, Some TNotApproved)
      else case bk_Start ops (tc_handle c) (tc_backend c) of
         (b, Some e) \<Rightarrow> (c\<lparr>tc_backend := b\<rparr>, Some TDownloadFailed)
       | (b, None) \<Rightarrow> (c\<lparr>tc_backend := b, tc_state := StateDownloading\<rparr>, None))"

definition torrent_Pause :: "('i, 'b) TorrentBackend \<Rightarrow> ('b, 'q) TorrentController \<Rightarrow> ('b, 'q) TorrentController \<times> torrent_error option" where
  "torrent_Pause ops c =
     (if tc_closed c \<or> (tc_state c \<noteq> StateDownloading \<and> tc_state c \<noteq> StatePaused) then (c, Some TInvalidRequest)
      else case bk_Pause ops (tc_handle c) (tc_backend c) of
         (b, Some e) \<Rightarrow> (c\<lparr>tc_backend := b\<rparr>, Some TDownloadFailed)
       | (b, None) \<Rightarrow> (c\<lparr>tc_backend := b, tc_state := StatePaused\<rparr>, None))"

definition pauseAfterFailureLocked :: "('i, 'b) TorrentBackend \<Rightarrow> ('b, 'q) TorrentController \<Rightarrow> ('b, 'q) TorrentController" where
  "pauseAfterFailureLocked ops c = c\<lparr>tc_backend := fst (bk_Pause ops (tc_handle c) (tc_backend c)), tc_state := StatePaused\<rparr>"

definition torrent_statusLocked :: "('b, 'q) TorrentController \<Rightarrow> u64 \<Rightarrow> u64 \<Rightarrow> TorrentStatus" where
  "torrent_statusLocked c completed totalBytes =
     (let (code, remediation) =
        (case tc_state c of
          StateEmpty \<Rightarrow> (''TORRENT_INPUT_REQUIRED'', ''Submit one bounded torrent source through the secure input path.'')
        | StateMetadataFetching \<Rightarrow> (''TORRENT_METADATA_FETCHING'', ''Wait for bounded metadata retrieval while payload remains paused.'')
        | StateSelectionRequired \<Rightarrow> (''TORRENT_SELECTION_REQUIRED'', ''Review hazards and explicitly select permitted files.'')
        | StateCapacityVerified \<Rightarrow> (''TORRENT_CAPACITY_VERIFIED'', ''Start payload transfer only while the VPN remains verified.'')
        | StateDownloading \<Rightarrow> (''TORRENT_DOWNLOADING'', ''Keep the VPN verified and continue bounded progress monitoring.'')
        | StatePaused \<Rightarrow> (''TORRENT_DOWNLOAD_PAUSED'', ''Re-verify VPN health before an explicit resume.'')
        | StateDownloadComplete \<Rightarrow> (''TORRENT_DOWNLOAD_COMPLETE'',
            ''Verify, sync, unmount, and seal quarantine before destroying the downloader.'')
        | StateSealing \<Rightarrow> (''QUARANTINE_SEALING'', ''Keep scanner attachment blocked until sealing and downloader cleanup complete.'')
        | StateSealed \<Rightarrow> (''QUARANTINE_SEALED'', ''Destroy and audit the downloader before scanner attachment.'')) in
      \<lparr>ts_SchemaVersion = 1, ts_State = tc_state c, ts_Progress = \<lparr>tp_CompletedBytes = completed, tp_TotalBytes = totalBytes\<rparr>,
       ts_Code = code, ts_Remediation = remediation\<rparr>)"

text \<open>The client's report is used only if it is about the approved bytes.\<close>

definition report_ok :: "('b, 'q) TorrentController \<Rightarrow> ClientStatus \<Rightarrow> bool" where
  "report_ok c status \<longleftrightarrow> cs_TotalBytes status = sp_SelectedBytes (tc_plan c) \<and> cs_CompletedBytes status \<le> cs_TotalBytes status"

definition torrent_Status :: "('i, 'b) TorrentBackend \<Rightarrow> ('b, 'q) TorrentController \<Rightarrow>
    ('b, 'q) TorrentController \<times> (torrent_error + TorrentStatus)" where
  "torrent_Status ops c =
     (if tc_closed c then (c, Inl TInvalidRequest)
      else if tc_state c \<noteq> StateDownloading
      then (c, Inr (torrent_statusLocked c (tp_CompletedBytes (tc_progress c)) (tp_TotalBytes (tc_progress c))))
      else case bk_Status ops (tc_handle c) (tc_backend c) of
         (b, Inl e) \<Rightarrow> (c\<lparr>tc_backend := b\<rparr>, Inl TDownloadFailed)
       | (b, Inr status) \<Rightarrow>
          let c = c\<lparr>tc_backend := b\<rparr> in
          if \<not> report_ok c status then (c, Inl TDownloadFailed)
          else let c = c\<lparr>tc_progress := \<lparr>tp_CompletedBytes = cs_CompletedBytes status, tp_TotalBytes = cs_TotalBytes status\<rparr>\<rparr> in
            (c, Inr (torrent_statusLocked c (cs_CompletedBytes status) (cs_TotalBytes status))))"

definition torrent_OnVPNLoss :: "('i, 'b) TorrentBackend \<Rightarrow> ('b, 'q) TorrentController \<Rightarrow> ('b, 'q) TorrentController \<times> torrent_error option" where
  "torrent_OnVPNLoss ops c =
     (if tc_state c \<noteq> StateDownloading then (c, None)
      else case bk_Pause ops (tc_handle c) (tc_backend c) of
         (b, Some e) \<Rightarrow> (c\<lparr>tc_backend := b\<rparr>, Some TDownloadFailed)
       | (b, None) \<Rightarrow> (c\<lparr>tc_backend := b, tc_state := StatePaused\<rparr>, None))"

subsection \<open>The monitor\<close>

text \<open>
  What one locked turn of the loop comes to: \<^verbatim>\<open>Monitor\<close> returns, it returns after emitting a last status, or it emits a
  status and goes on with the progress it has seen.
\<close>

datatype monitor_turn = MonitorReturn torrent_error | MonitorLast TorrentStatus | MonitorEmit TorrentStatus u64 int

definition monitor_poll :: "('i, 'b) TorrentBackend \<Rightarrow> int \<Rightarrow> u64 \<Rightarrow> int \<Rightarrow> ('b, 'q) TorrentController \<Rightarrow>
    ('b, 'q) TorrentController \<times> monitor_turn" where
  "monitor_poll ops now lastProgress lastChange c =
     (if tc_closed c then (c, MonitorReturn TInvalidRequest)
      else if tc_state c = StatePaused then (c, MonitorReturn TVPNLost)
      else if tc_state c \<noteq> StateDownloading then (c, MonitorReturn TNotApproved)
      else case bk_Status ops (tc_handle c) (tc_backend c) of
         (b, Inl e) \<Rightarrow>
           (pauseAfterFailureLocked ops (c\<lparr>tc_backend := b\<rparr>), MonitorReturn (if isTorrentContextError e then e else TDownloadFailed))
       | (b, Inr status) \<Rightarrow>
          let c = c\<lparr>tc_backend := b\<rparr> in
          if \<not> report_ok c status then (pauseAfterFailureLocked ops c, MonitorReturn TDownloadFailed)
          else
            let completed = cs_CompletedBytes status; totalBytes = cs_TotalBytes status;
                c = c\<lparr>tc_progress := \<lparr>tp_CompletedBytes = completed, tp_TotalBytes = totalBytes\<rparr>\<rparr>;
                (lastProgress, lastChange) = (if lastProgress < completed then (completed, now) else (lastProgress, lastChange)) in
            if cs_State status = ClientError then (pauseAfterFailureLocked ops c, MonitorReturn TDownloadFailed)
            else if cs_State status = ClientComplete \<and> completed = totalBytes
            then (case bk_Pause ops (tc_handle c) (tc_backend c) of
                (b, Some e) \<Rightarrow> (c\<lparr>tc_backend := b\<rparr>, MonitorReturn TDownloadFailed)
              | (b, None) \<Rightarrow>
                  let c = c\<lparr>tc_backend := b, tc_state := StateDownloadComplete\<rparr> in
                  (c, MonitorLast (torrent_statusLocked c completed totalBytes)))
            else (c, MonitorEmit (torrent_statusLocked c completed totalBytes) lastProgress lastChange))"

text \<open>
  The surroundings of one turn: what other goroutines do to the controller before the mutex is taken, the clock when
  progress is recorded, what the callback returns, the clock at the stall test, what \<^verbatim>\<open>Wait\<close> returns, and what other
  goroutines do before the mutex is taken again to pause after a failure.
\<close>

record 'c monitor_round =
  mr_before :: "'c \<Rightarrow> 'c"
  mr_now :: int
  mr_emit :: "TorrentStatus \<Rightarrow> torrent_error option"
  mr_later :: int
  mr_wait :: "torrent_error option"
  mr_between :: "'c \<Rightarrow> 'c"

text \<open>The loop over finitely many turns; a result \<open>None\<close> says that it has not returned after them.\<close>

fun torrent_monitor_loop :: "('i, 'b) TorrentBackend \<Rightarrow> ('b, 'q) TorrentController monitor_round list \<Rightarrow> u64 \<Rightarrow> int \<Rightarrow>
    ('b, 'q) TorrentController \<Rightarrow> ('b, 'q) TorrentController \<times> torrent_error option option" where
  "torrent_monitor_loop ops [] lastProgress lastChange c = (c, None)"
| "torrent_monitor_loop ops (r # rounds) lastProgress lastChange c =
     (case monitor_poll ops (mr_now r) lastProgress lastChange (mr_before r c) of
        (c, MonitorReturn e) \<Rightarrow> (c, Some (Some e))
      | (c, MonitorLast status) \<Rightarrow> (c, Some (mr_emit r status))
      | (c, MonitorEmit status lastProgress lastChange) \<Rightarrow>
          (case mr_emit r status of Some e \<Rightarrow> (pauseAfterFailureLocked ops (mr_between r c), Some (Some e))
           | None \<Rightarrow>
              if tg_StallTimeout (tc_config c) \<le> mr_later r - lastChange
              then (pauseAfterFailureLocked ops (mr_between r c), Some (Some TDownloadStalled))
              else (case mr_wait r of Some e \<Rightarrow> (pauseAfterFailureLocked ops (mr_between r c), Some (Some e))
                    | None \<Rightarrow> torrent_monitor_loop ops rounds lastProgress lastChange c)))"

definition torrent_Monitor :: "('i, 'b) TorrentBackend \<Rightarrow> int \<Rightarrow> ('b, 'q) TorrentController monitor_round list \<Rightarrow>
    ('b, 'q) TorrentController \<Rightarrow> ('b, 'q) TorrentController \<times> torrent_error option option" where
  "torrent_Monitor ops started rounds c =
     (if tc_closed c \<or> tc_state c \<noteq> StateDownloading then (c, Some (Some TNotApproved)) else torrent_monitor_loop ops rounds 0 started c)"

section \<open>Sealing\<close>

definition newManifest :: "(string \<Rightarrow> string) \<Rightarrow> FileDigest list \<Rightarrow> torrent_error + FileDigest list" where
  "newManifest lower files =
     (if files = [] \<or> MaximumFiles < length files \<or>
        list_ex (\<lambda>f. fd_SizeBytes f = 0 \<or> validateRelativePath lower (fd_Path f) \<noteq> None \<or> list_all (\<lambda>x. x = 0) (fd_SHA256 f)) files
      then Inl TSealFailed else Inr files)"

text \<open>The map of the selected files, by index, and the loop that strikes one out for each entry of the manifest.\<close>

fun selected_map :: "File list \<Rightarrow> (u32 \<times> File) list \<Rightarrow> (u32 \<times> File) list" where
  "selected_map [] selected = selected"
| "selected_map (file # files) selected =
     selected_map files (if fi_Selected file then AList.update (fi_Index file) file selected else selected)"

fun match_files :: "FileDigest list \<Rightarrow> (u32 \<times> File) list \<Rightarrow> (u32 \<times> File) list option" where
  "match_files [] selected = Some selected"
| "match_files (file # files) selected =
     (case map_of selected (fd_SourceIndex file) of None \<Rightarrow> None
      | Some expected \<Rightarrow>
         if fi_DisplayPath expected \<noteq> fd_Path file \<or> fi_SizeBytes expected \<noteq> fd_SizeBytes file then None
         else match_files files (AList.delete (fd_SourceIndex file) selected))"

definition verifyManifestMatchesSelection :: "FileDigest list \<Rightarrow> Metadata \<Rightarrow> torrent_error option" where
  "verifyManifestMatchesSelection manifest metadata =
     (let selected = selected_map (md_Files metadata) [] in
      if length selected \<noteq> length manifest then Some TSealFailed
      else case match_files manifest selected of None \<Rightarrow> Some TSealFailed
       | Some rest \<Rightarrow> if rest \<noteq> [] then Some TSealFailed else None)"

text \<open>The client's part of \<^verbatim>\<open>Seal\<close>: verify the files, check them against the selection, shut the client down.\<close>

definition seal_client :: "('i, 'b) TorrentBackend \<Rightarrow> (string \<Rightarrow> string) \<Rightarrow> ('b, 'q) TorrentController \<Rightarrow>
    ('b, 'q) TorrentController \<times> torrent_error option" where
  "seal_client ops lower c =
     (if tc_clientDown c then (c, None)
      else case bk_VerifyCompleted ops (tc_handle c) (tc_metadata c) (tc_backend c) of
         (b, Inl e) \<Rightarrow> (c\<lparr>tc_backend := b, tc_state := StateDownloadComplete\<rparr>, Some TSealFailed)
       | (b, Inr files) \<Rightarrow>
          let c = c\<lparr>tc_backend := b\<rparr> in
          (case newManifest lower files of Inl e \<Rightarrow> (c\<lparr>tc_state := StateDownloadComplete\<rparr>, Some e)
           | Inr manifest \<Rightarrow>
              (case verifyManifestMatchesSelection manifest (tc_metadata c) of
                 Some e \<Rightarrow> (c\<lparr>tc_state := StateDownloadComplete\<rparr>, Some e)
               | None \<Rightarrow>
                  (case bk_Shutdown ops b of
                     (b, Some e) \<Rightarrow> (c\<lparr>tc_backend := b, tc_state := StateDownloadComplete\<rparr>, Some TSealFailed)
                   | (b, None) \<Rightarrow> (c\<lparr>tc_backend := b, tc_manifest := manifest, tc_clientDown := True\<rparr>, None)))))"

definition torrent_Seal :: "('i, 'b) TorrentBackend \<Rightarrow> 'q Quarantine \<Rightarrow> (string \<Rightarrow> string) \<Rightarrow> ('b, 'q) TorrentController \<Rightarrow>
    ('b, 'q) TorrentController \<times> (torrent_error + FileDigest list)" where
  "torrent_Seal ops qops lower c =
     (if tc_closed c \<or> (tc_state c \<noteq> StateDownloadComplete \<and> \<not> (tc_state c = StateSealing \<and> tc_clientDown c \<and> tc_manifest c \<noteq> []))
      then (c, Inl TNotApproved)
      else case seal_client ops lower (c\<lparr>tc_state := StateSealing\<rparr>) of
         (c, Some e) \<Rightarrow> (c, Inl e)
       | (c, None) \<Rightarrow>
          (case qu_SyncAndUnmount qops (tc_quarantine c) of
             (q, Some e) \<Rightarrow> (c\<lparr>tc_quarantine := q\<rparr>, Inl TSealFailed)
           | (q, None) \<Rightarrow> (c\<lparr>tc_quarantine := q, tc_state := StateSealed\<rparr>, Inr (tc_manifest c))))"

definition sealedManifest :: "('b, 'q) TorrentController \<Rightarrow> torrent_error + FileDigest list" where
  "sealedManifest c =
     (if tc_closed c \<or> tc_state c \<noteq> StateSealed \<or> tc_manifest c = [] then Inl TInvalidRequest else Inr (tc_manifest c))"

text \<open>The two cleanup calls of \<^verbatim>\<open>Close\<close> with whether each of them failed.\<close>

definition close_pause :: "('i, 'b) TorrentBackend \<Rightarrow> ('b, 'q) TorrentController \<Rightarrow> ('b, 'q) TorrentController \<times> bool" where
  "close_pause ops c =
     (if handle_valid (tc_handle c) \<and> tc_state c \<noteq> StateSealed
      then (case bk_Pause ops (tc_handle c) (tc_backend c) of (b, r) \<Rightarrow> (c\<lparr>tc_backend := b\<rparr>, r \<noteq> None))
      else (c, False))"

definition close_client :: "('i, 'b) TorrentBackend \<Rightarrow> ('b, 'q) TorrentController \<Rightarrow> ('b, 'q) TorrentController \<times> bool" where
  "close_client ops c =
     (if handle_valid (tc_handle c) \<and> \<not> tc_clientDown c
      then (case bk_Shutdown ops (tc_backend c) of
          (b, Some e) \<Rightarrow> (c\<lparr>tc_backend := b\<rparr>, True)
        | (b, None) \<Rightarrow> (c\<lparr>tc_backend := b, tc_clientDown := True\<rparr>, False))
      else (if handle_valid (tc_handle c) then c else c\<lparr>tc_clientDown := True\<rparr>, False))"

definition torrent_Close :: "('i, 'b) TorrentBackend \<Rightarrow> ('b, 'q) TorrentController \<Rightarrow> ('b, 'q) TorrentController \<times> torrent_error option" where
  "torrent_Close ops c =
     (if tc_closed c then (c, None)
      else case close_pause ops c of (c, unpaused) \<Rightarrow>
        (case close_client ops c of (c, running) \<Rightarrow>
           if unpaused \<or> running then (c, Some TCleanupIncomplete)
           else (c\<lparr>tc_manifest := [], tc_metadata := no_metadata, tc_plan := no_plan, tc_progress := no_progress, tc_handle := [],
               tc_closed := True\<rparr>, None)))"

subsection \<open>The coordinator\<close>

record SealedReceipt =
  sr_manifest :: "FileDigest list"
  sr_ready :: bool

record ('b, 'q, 'd) Coordinator =
  co_Controller :: "('b, 'q) TorrentController"
  co_Destroyer :: 'd
  co_receipt :: "SealedReceipt option"

definition ScannerReady :: "SealedReceipt option \<Rightarrow> bool" where
  "ScannerReady receipt \<longleftrightarrow> (case receipt of None \<Rightarrow> False | Some r \<Rightarrow> sr_ready r)"

definition receipt_Destroy :: "SealedReceipt \<Rightarrow> SealedReceipt" where
  "receipt_Destroy receipt = receipt\<lparr>sr_manifest := [], sr_ready := False\<rparr>"

text \<open>\<open>destroy\<close> is \<^verbatim>\<open>DestroyAndAudit\<close>.\<close>

definition SealAndDestroy :: "('i, 'b) TorrentBackend \<Rightarrow> 'q Quarantine \<Rightarrow> (string \<Rightarrow> string) \<Rightarrow> ('d \<Rightarrow> 'd \<times> torrent_error option) \<Rightarrow>
    ('b, 'q, 'd) Coordinator \<Rightarrow> ('b, 'q, 'd) Coordinator \<times> (torrent_error + SealedReceipt)" where
  "SealAndDestroy ops qops lower destroy s =
     (if ScannerReady (co_receipt s) then (s, Inr (the (co_receipt s)))
      else case (case sealedManifest (co_Controller s) of Inr manifest \<Rightarrow> (co_Controller s, Inr manifest)
          | Inl e \<Rightarrow> torrent_Seal ops qops lower (co_Controller s)) of
         (c, Inl e) \<Rightarrow> (s\<lparr>co_Controller := c\<rparr>, Inl e)
       | (c, Inr manifest) \<Rightarrow>
          (case destroy (co_Destroyer s) of
             (d, Some e) \<Rightarrow> (s\<lparr>co_Controller := c, co_Destroyer := d\<rparr>, Inl TCleanupIncomplete)
           | (d, None) \<Rightarrow>
              let receipt = \<lparr>sr_manifest = manifest, sr_ready = True\<rparr> in
              (s\<lparr>co_Controller := c, co_Destroyer := d, co_receipt := Some receipt\<rparr>, Inr receipt)))"

section \<open>What a manifest is checked against\<close>

definition digest_key :: "FileDigest \<Rightarrow> u32 \<times> string \<times> u64" where
  "digest_key d = (fd_SourceIndex d, fd_Path d, fd_SizeBytes d)"

definition file_key :: "File \<Rightarrow> u32 \<times> string \<times> u64" where
  "file_key f = (fi_Index f, fi_DisplayPath f, fi_SizeBytes f)"

definition manifest_exact :: "FileDigest list \<Rightarrow> File list \<Rightarrow> bool" where
  "manifest_exact manifest files \<longleftrightarrow>
     distinct (map fd_SourceIndex manifest) \<and> set (map digest_key manifest) = set (map file_key (filter fi_Selected files))"

lemma update_absent: "k \<notin> fst ` set al \<Longrightarrow> AList.update k v al = al @ [(k, v)]"
  by (induction al) auto

lemma selected_map_append:
  "distinct (map fi_Index files) \<Longrightarrow> fst ` set acc \<inter> fi_Index ` set files = {} \<Longrightarrow>
   selected_map files acc = acc @ map (\<lambda>f. (fi_Index f, f)) (filter fi_Selected files)"
proof (induction files arbitrary: acc)
  case (Cons f files)
  then have "fi_Index f \<notin> fst ` set acc" by auto
  then show ?case using Cons.prems Cons.IH [of acc] Cons.IH [of "acc @ [(fi_Index f, f)]"] by (auto simp: update_absent)
qed simp

lemma set_delete_filter: "set (AList.delete k al) = {p \<in> set al. fst p \<noteq> k}"
  by (auto simp: AList.delete_eq)

lemma strike_one:
  assumes "y \<in> S" "fst y = k" "\<And>x. x \<in> S \<Longrightarrow> fst x = k \<Longrightarrow> x = y"
  shows "A = {x \<in> S. fst x \<noteq> k} \<longleftrightarrow> k \<notin> fst ` A \<and> insert y A = S"
  using assms by (cases "y \<in> A") blast+

lemma match_files_iff:
  assumes "distinct (map fst sel)" "\<forall>(k, f) \<in> set sel. k = fi_Index f"
  shows "match_files ds sel = Some [] \<longleftrightarrow> distinct (map fd_SourceIndex ds) \<and> digest_key ` set ds = (\<lambda>p. file_key (snd p)) ` set sel"
  using assms
proof (induction ds arbitrary: sel)
  case (Cons d ds)
  let ?k = "fd_SourceIndex d"
  let ?key = "\<lambda>p :: u32 \<times> File. file_key (snd p)"
  have keyed: "fst (?key p) = fst p" if "p \<in> set sel" for p using Cons.prems(2) that by (auto simp: file_key_def)
  have idx: "fst (digest_key x) = fd_SourceIndex x" for x by (simp add: digest_key_def)
  have rest: "?key ` set (AList.delete ?k sel) = {x \<in> ?key ` set sel. fst x \<noteq> ?k}" using keyed by (fastforce simp: set_delete_filter)
  have IH: "match_files ds (AList.delete ?k sel) = Some [] \<longleftrightarrow>
      distinct (map fd_SourceIndex ds) \<and> digest_key ` set ds = {x \<in> ?key ` set sel. fst x \<noteq> ?k}"
    using Cons.IH [of "AList.delete ?k sel"] Cons.prems rest by (auto simp: AList.distinct_delete set_delete_filter)
  have here: "(\<exists>f. map_of sel ?k = Some f \<and> fi_DisplayPath f = fd_Path d \<and> fi_SizeBytes f = fd_SizeBytes d) \<longleftrightarrow> digest_key d \<in> ?key ` set sel"
  proof
    assume "\<exists>f. map_of sel ?k = Some f \<and> fi_DisplayPath f = fd_Path d \<and> fi_SizeBytes f = fd_SizeBytes d"
    then obtain f where f: "(?k, f) \<in> set sel" "fi_DisplayPath f = fd_Path d" "fi_SizeBytes f = fd_SizeBytes d"
      by (auto dest: map_of_Some_in_set)
    then have "digest_key d = ?key (?k, f)" using Cons.prems(2) by (auto simp: digest_key_def file_key_def)
    then show "digest_key d \<in> ?key ` set sel" using f(1) by blast
  next
    assume "digest_key d \<in> ?key ` set sel"
    then obtain k f where f: "(k, f) \<in> set sel" "digest_key d = file_key f" by auto
    then have "k = ?k" using Cons.prems(2) by (auto simp: digest_key_def file_key_def)
    then show "\<exists>f. map_of sel ?k = Some f \<and> fi_DisplayPath f = fd_Path d \<and> fi_SizeBytes f = fd_SizeBytes d"
      using f Cons.prems(1) by (auto simp: digest_key_def file_key_def intro: map_of_is_SomeI)
  qed
  have step: "match_files (d # ds) sel = Some [] \<longleftrightarrow>
      (\<exists>f. map_of sel ?k = Some f \<and> fi_DisplayPath f = fd_Path d \<and> fi_SizeBytes f = fd_SizeBytes d) \<and> match_files ds (AList.delete ?k sel) = Some []"
    by (auto split: option.splits)
  have unique: "x = digest_key d" if "digest_key d \<in> ?key ` set sel" "x \<in> ?key ` set sel" "fst x = ?k" for x
  proof -
    obtain p q where "p \<in> set sel" "q \<in> set sel" "digest_key d = ?key p" "x = ?key q" using \<open>digest_key d \<in> _\<close> \<open>x \<in> _\<close> by blast
    then have "fst p = fst q" "p \<in> set sel" "q \<in> set sel" using keyed idx [of d] \<open>fst x = _\<close> by metis+
    then have "p = q" using Cons.prems(1) by (auto simp: distinct_map inj_on_def)
    then show ?thesis using \<open>digest_key d = ?key p\<close> \<open>x = ?key q\<close> by simp
  qed
  have "digest_key ` set ds = {x \<in> ?key ` set sel. fst x \<noteq> ?k} \<longleftrightarrow>
      ?k \<notin> fst ` digest_key ` set ds \<and> insert (digest_key d) (digest_key ` set ds) = ?key ` set sel" if "digest_key d \<in> ?key ` set sel"
    using strike_one [OF that idx unique [OF that]] .
  then show ?case unfolding step here IH by (auto simp: image_image idx)
qed simp

lemma verify_manifest_iff:
  assumes "distinct (map fi_Index (md_Files md))"
  shows "verifyManifestMatchesSelection manifest md = None \<longleftrightarrow> manifest_exact manifest (md_Files md)"
proof -
  let ?chosen = "filter fi_Selected (md_Files md)"
  let ?sel = "map (\<lambda>f. (fi_Index f, f)) ?chosen"
  have sel: "selected_map (md_Files md) [] = ?sel" using selected_map_append [OF assms, of "[]"] by simp
  have dist: "distinct (map fi_Index ?chosen)" using assms by (rule distinct_map_filter)
  have "match_files manifest ?sel = Some [] \<longleftrightarrow> manifest_exact manifest (md_Files md)"
    using match_files_iff [of ?sel manifest] dist by (simp add: manifest_exact_def image_image comp_def)
  moreover have "length manifest = length ?chosen" if "manifest_exact manifest (md_Files md)"
  proof -
    have "map fd_SourceIndex manifest = map fst (map digest_key manifest)" "map fi_Index ?chosen = map fst (map file_key ?chosen)"
      by (simp_all add: digest_key_def file_key_def)
    then have "set (map fd_SourceIndex manifest) = set (map fi_Index ?chosen)"
      using that unfolding manifest_exact_def by (metis list.set_map)
    then show ?thesis using that dist distinct_card unfolding manifest_exact_def by (metis length_map)
  qed
  ultimately show ?thesis
    unfolding verifyManifestMatchesSelection_def sel Let_def by (cases "match_files manifest ?sel") auto
qed

section \<open>Invariant\<close>

text \<open>Files carry their position as index, as \<^verbatim>\<open>validateMetadata\<close> requires of the client.\<close>

definition indexed :: "File list \<Rightarrow> bool" where
  "indexed files \<longleftrightarrow> length files \<le> MaximumFiles \<and> map fi_Index files = map of_nat [0..<length files]"

lemma indexed_distinct: "indexed files \<Longrightarrow> distinct (map fi_Index files)"
  by (auto simp: indexed_def distinct_map inj_on_def MaximumFiles_def word_unat_eq_iff unat_of_nat_small)

lemma collect_files_indexes:
  "collect_files nfc lower n raws seen folded acc = Inr (files, r) \<Longrightarrow>
   length files = length raws \<and> map fi_Index files = map of_nat [n..<n + length raws] \<and> (\<forall>f \<in> set files. \<not> fi_Selected f)"
proof (induction raws arbitrary: n seen folded acc files r)
  case (Cons raw raws)
  let ?path = "nfc (rf_Path raw)"
  let ?rest = "collect_files nfc lower (Suc n) raws (?path # seen) (lower ?path # folded) (acc + rf_Size raw)"
  have "rf_Index raw = of_nat n" "validateRelativePath lower (rf_Path raw) = None"
    using Cons.prems by (simp_all split: if_splits option.splits)
  with Cons.prems obtain files' f where "?rest = Inr (files', r)" "files = f # files'" "fi_Index f = of_nat n" "\<not> fi_Selected f"
    by (cases "classifyPath lower ?path"; cases ?rest) (auto simp: checkedAdd_def Let_def split: if_splits)
  moreover have "[n..<n + length (raw # raws)] = n # [Suc n..<Suc n + length raws]" by (subst upt_conv_Cons) simp_all
  ultimately show ?case using Cons.IH [of "Suc n"] by (simp del: upt_Suc)
qed simp

lemma validateMetadata_indexed:
  "validateMetadata nfc lower raw = Inr md \<Longrightarrow> indexed (md_Files md) \<and> (\<forall>f \<in> set (md_Files md). \<not> fi_Selected f)"
  using collect_files_indexes [of nfc lower 0 "rm_Files raw"]
  by (fastforce simp: validateMetadata_def indexed_def split: if_splits sum.splits)

text \<open>The metadata and the plan are those of an accepted selection.\<close>

definition plan_approved :: "('b, 'q) TorrentController \<Rightarrow> bool" where
  "plan_approved c \<longleftrightarrow>
     (\<exists>m is b. planSelection m is b (tg_SafePolicy (tc_config c)) = Inr (tc_metadata c, tc_plan c))"

definition before_plan :: "torrent_state \<Rightarrow> bool" where
  "before_plan s \<longleftrightarrow> s = StateEmpty \<or> s = StateMetadataFetching \<or> s = StateSelectionRequired"

definition after_start :: "torrent_state \<Rightarrow> bool" where
  "after_start s \<longleftrightarrow> s = StateDownloading \<or> s = StateDownloadComplete \<or> s = StateSealing \<or> s = StateSealed"

definition no_blocked :: "bool \<Rightarrow> File list \<Rightarrow> bool" where
  "no_blocked safe files \<longleftrightarrow> (\<forall>f \<in> set files. safe \<and> fi_Selected f \<longrightarrow> \<not> hasBlockedType f)"

definition tc_ok :: "('b, 'q) TorrentController \<Rightarrow> bool" where
  "tc_ok c \<longleftrightarrow>
     indexed (md_Files (tc_metadata c)) \<and> no_blocked (tg_SafePolicy (tc_config c)) (md_Files (tc_metadata c)) \<and>
     (before_plan (tc_state c) \<longrightarrow> sp_SelectedBytes (tc_plan c) = 0) \<and>
     (sp_SelectedBytes (tc_plan c) \<noteq> 0 \<longrightarrow> plan_approved c) \<and>
     (after_start (tc_state c) \<longrightarrow> tc_closed c \<or> sp_SelectedBytes (tc_plan c) \<noteq> 0) \<and>
     (tc_manifest c \<noteq> [] \<longrightarrow>
        manifest_exact (tc_manifest c) (md_Files (tc_metadata c)) \<and> tc_clientDown c \<and>
        \<not> before_plan (tc_state c) \<and> tc_state c \<noteq> StateCapacityVerified)"

lemma tc_ok_frame [simp]:
  "tc_ok (c\<lparr>tc_backend := b\<rparr>) = tc_ok c" "tc_ok (c\<lparr>tc_quarantine := q\<rparr>) = tc_ok c" "tc_ok (c\<lparr>tc_progress := p\<rparr>) = tc_ok c"
  by (simp_all add: tc_ok_def plan_approved_def)

lemma tc_ok_down: "tc_ok c \<Longrightarrow> tc_ok (c\<lparr>tc_clientDown := True\<rparr>)"
  by (simp add: tc_ok_def plan_approved_def)

lemma tc_ok_state:
  assumes "tc_ok c" "\<not> before_plan s" "s \<noteq> StateCapacityVerified" "after_start s \<longrightarrow> tc_closed c \<or> sp_SelectedBytes (tc_plan c) \<noteq> 0"
  shows "tc_ok (c\<lparr>tc_state := s\<rparr>)"
  using assms by (simp add: tc_ok_def plan_approved_def)

lemma tc_ok_paused: "tc_ok c \<Longrightarrow> tc_ok (c\<lparr>tc_state := StatePaused\<rparr>)"
  by (rule tc_ok_state) (simp_all add: before_plan_def after_start_def)

lemma tc_ok_running:
  "tc_ok c \<Longrightarrow> after_start s \<Longrightarrow> sp_SelectedBytes (tc_plan c) \<noteq> 0 \<Longrightarrow> tc_ok (c\<lparr>tc_state := s\<rparr>)"
  by (rule tc_ok_state) (auto simp: before_plan_def after_start_def)

lemma tc_ok_started: "tc_ok c \<Longrightarrow> \<not> tc_closed c \<Longrightarrow> after_start (tc_state c) \<Longrightarrow> sp_SelectedBytes (tc_plan c) \<noteq> 0"
  by (simp add: tc_ok_def)

lemma newTorrentController_ok: "newTorrentController b q config = Inr c \<Longrightarrow> tc_ok c"
  by (auto simp: newTorrentController_def Let_def tc_ok_def indexed_def no_blocked_def no_metadata_def no_plan_def after_start_def split: if_splits)

lemma metadata_poll_ok:
  assumes "tc_ok c" "tc_state c = StateMetadataFetching" "metadata_poll ops nfc lower c = (c', r)"
  shows "tc_ok c'" "(\<nexists>m. r = Inr (Some m)) \<Longrightarrow> tc_state c' = StateMetadataFetching"
proof -
  have new: "tc_ok (c\<lparr>tc_backend := b, tc_metadata := md, tc_state := StateSelectionRequired\<rparr>)" if "validateMetadata nfc lower raw = Inr md" for b raw md
    using assms(1,2) validateMetadata_indexed [OF that] by (auto simp: tc_ok_def before_plan_def after_start_def no_blocked_def)
  show "tc_ok c'" using assms new by (auto simp: metadata_poll_def Let_def split: prod.splits option.splits sum.splits if_splits)
  show "(\<nexists>m. r = Inr (Some m)) \<Longrightarrow> tc_state c' = StateMetadataFetching"
    using assms(2,3) by (auto simp: metadata_poll_def Let_def split: prod.splits option.splits sum.splits if_splits)
qed

lemma metadata_loop_ok:
  "tc_ok c \<Longrightarrow> tc_state c = StateMetadataFetching \<Longrightarrow> metadata_loop ops nfc lower waits c = (c', r) \<Longrightarrow> tc_ok c'"
proof (induction waits arbitrary: c)
  case Nil
  then show ?case using metadata_poll_ok(1) [OF Nil(1,2)] by (auto simp: metadata_loop.simps [of _ _ _ "[]"] split: prod.splits sum.splits option.splits)
next
  case (Cons w waits)
  obtain c1 r1 where poll: "metadata_poll ops nfc lower c = (c1, r1)" by (cases "metadata_poll ops nfc lower c")
  note ok = metadata_poll_ok [OF Cons.prems(1,2) poll]
  show ?case
    using Cons.prems(3) ok Cons.IH [OF ok(1)] by (auto simp: metadata_loop.simps [of _ _ _ "w # waits"] poll split: sum.splits option.splits)
qed

lemma torrent_Add_ok: "tc_ok c \<Longrightarrow> torrent_Add ops nfc lower waits input c = (c', r) \<Longrightarrow> tc_ok c'"
proof -
  assume ok: "tc_ok c" and run: "torrent_Add ops nfc lower waits input c = (c', r)"
  have "tc_ok (c\<lparr>tc_backend := b, tc_handle := h, tc_state := StateMetadataFetching\<rparr>)" if "tc_state c = StateEmpty" for b h
    using ok that by (auto simp: tc_ok_def before_plan_def after_start_def plan_approved_def)
  then show "tc_ok c'" using ok run metadata_loop_ok [of "c\<lparr>tc_backend := _, tc_handle := _, tc_state := StateMetadataFetching\<rparr>"]
    by (auto simp: torrent_Add_def split: if_splits prod.splits sum.splits)
qed

lemma mark_indexed: "indexed (mark is files) = indexed files"
proof -
  have "map fi_Index (mark is files) = map fi_Index files" by (rule nth_equalityI) (simp_all add: mark_nth)
  then show ?thesis by (simp add: indexed_def)
qed

lemma mark_no_blocked:
  assumes "permitted_files m is safe" "no_blocked safe (md_Files m)"
  shows "no_blocked safe (mark is (md_Files m))"
  unfolding no_blocked_def
proof (intro ballI impI)
  fix f assume "f \<in> set (mark is (md_Files m))" and f: "safe \<and> fi_Selected f"
  then obtain j where j: "j < length (md_Files m)" "f = mark is (md_Files m) ! j" by (auto simp: in_set_conv_nth)
  then have "fi_Selected (md_Files m ! j) \<or> j \<in> unat ` set is" "hasBlockedType f = hasBlockedType (md_Files m ! j)"
    using f by (auto simp: mark_nth unselected_file)
  then show "\<not> hasBlockedType f" using assms f j by (auto simp: permitted_files_def no_blocked_def)
qed

lemma select_result_ok:
  assumes ok: "tc_ok c" and early: "tc_state c = StateSelectionRequired \<or> tc_state c = StateCapacityVerified"
    and run: "planSelection (tc_metadata c) is b (tg_SafePolicy (tc_config c)) = Inr (m, p)"
  shows "tc_ok (c\<lparr>tc_backend := bk, tc_metadata := m, tc_plan := p, tc_progress := pr, tc_state := StateCapacityVerified\<rparr>)"
proof -
  have sel: "selection_ok (tc_metadata c) is b (tg_SafePolicy (tc_config c))" using planSelection_Inr run by blast
  note m = planSelection_result(1,2) [OF run]
  have "tc_manifest c = []" using ok early by (auto simp: tc_ok_def before_plan_def)
  moreover have "indexed (md_Files m)" using ok by (simp add: m(1) mark_indexed tc_ok_def)
  moreover have "no_blocked (tg_SafePolicy (tc_config c)) (md_Files m)"
    using ok sel mark_no_blocked [of "tc_metadata c" "is"] by (simp add: m(1) tc_ok_def selection_ok_def)
  ultimately show ?thesis using run by (auto simp: tc_ok_def plan_approved_def before_plan_def after_start_def)
qed

lemma torrent_Select_ok: "tc_ok c \<Longrightarrow> torrent_Select ops qops indexes ev c = (c', r) \<Longrightarrow> tc_ok c'"
proof -
  assume ok: "tc_ok c" and run: "torrent_Select ops qops indexes ev c = (c', r)"
  have "tc_ok (c\<lparr>tc_quarantine := q, tc_backend := bk, tc_metadata := m, tc_plan := p, tc_progress := pr, tc_state := StateCapacityVerified\<rparr>)"
    if "tc_state c = StateSelectionRequired \<or> tc_state c = StateCapacityVerified"
      "PlanSelection (tc_metadata c) indexes ev n (tg_SafePolicy (tc_config c)) = Inr (m, p)" for q bk m p pr n
    using that select_result_ok [of "c\<lparr>tc_quarantine := q\<rparr>"] ok by (auto simp: PlanSelection_def split: sum.splits)
  then show "tc_ok c'" using ok run by (auto simp: torrent_Select_def Let_def split: if_splits prod.splits sum.splits option.splits)
qed

lemma torrent_Start_ok: "tc_ok c \<Longrightarrow> torrent_Start ops c = (c', r) \<Longrightarrow> tc_ok c'"
  by (auto simp: torrent_Start_def after_start_def intro!: tc_ok_running split: if_splits prod.splits option.splits)

lemma torrent_Pause_ok: "tc_ok c \<Longrightarrow> torrent_Pause ops c = (c', r) \<Longrightarrow> tc_ok c'"
  by (auto simp: torrent_Pause_def intro!: tc_ok_paused split: if_splits prod.splits option.splits)

lemma torrent_OnVPNLoss_ok: "tc_ok c \<Longrightarrow> torrent_OnVPNLoss ops c = (c', r) \<Longrightarrow> tc_ok c'"
  by (auto simp: torrent_OnVPNLoss_def intro!: tc_ok_paused split: if_splits prod.splits option.splits)

lemma pauseAfterFailure_ok: "tc_ok c \<Longrightarrow> tc_ok (pauseAfterFailureLocked ops c)"
  by (auto simp: pauseAfterFailureLocked_def intro!: tc_ok_paused)

lemma torrent_Status_ok: "tc_ok c \<Longrightarrow> torrent_Status ops c = (c', r) \<Longrightarrow> tc_ok c'"
  by (auto simp: torrent_Status_def Let_def split: if_splits prod.splits sum.splits)

lemma monitor_poll_ok: "tc_ok c \<Longrightarrow> monitor_poll ops now p t c = (c', turn) \<Longrightarrow> tc_ok c'"
  using tc_ok_started [of c]
  by (auto simp: monitor_poll_def Let_def after_start_def intro!: pauseAfterFailure_ok tc_ok_running
      split: if_splits prod.splits sum.splits option.splits)

text \<open>The loop keeps whatever its locked sections and the other goroutines keep.\<close>

lemma torrent_monitor_loop_keeps:
  assumes "\<And>c now p t c' turn. P c \<Longrightarrow> monitor_poll ops now p t c = (c', turn) \<Longrightarrow> P c'" "\<And>c. P c \<Longrightarrow> P (pauseAfterFailureLocked ops c)"
    "\<And>r c. r \<in> set rounds \<Longrightarrow> P c \<Longrightarrow> P (mr_before r c) \<and> P (mr_between r c)" "P c" "torrent_monitor_loop ops rounds p t c = (c', result)"
  shows "P c'"
  using assms(3-5)
proof (induction rounds arbitrary: p t c)
  case (Cons r rounds)
  obtain c1 turn where poll: "monitor_poll ops (mr_now r) p t (mr_before r c) = (c1, turn)" by (cases "monitor_poll ops (mr_now r) p t (mr_before r c)")
  have ok: "P c1" "P (pauseAfterFailureLocked ops (mr_between r c1))" using assms(1,2) Cons.prems(1,2) poll by (metis list.set_intros(1))+
  show ?case
    using Cons.prems(1,3) ok Cons.IH [OF _ ok(1)] by (auto simp: poll split: monitor_turn.splits option.splits if_splits)
qed simp

lemma seal_client_ok:
  assumes ok: "tc_ok c" and state: "tc_state c = StateSealing" "\<not> tc_closed c" and run: "seal_client ops lower c = (c', r)"
  shows "tc_ok c'" "r = None \<Longrightarrow> tc_clientDown c' \<and> tc_state c' = StateSealing \<and> \<not> tc_closed c' \<and> tc_metadata c' = tc_metadata c \<and> tc_config c' = tc_config c"
proof -
  have plan: "sp_SelectedBytes (tc_plan c) \<noteq> 0" using tc_ok_started [OF ok state(2)] state(1) by (simp add: after_start_def)
  have "tc_ok (c\<lparr>tc_backend := b, tc_manifest := manifest, tc_clientDown := True\<rparr>)"
    if "verifyManifestMatchesSelection manifest (tc_metadata c) = None" for b manifest
    using that ok state verify_manifest_iff [OF indexed_distinct, of "tc_metadata c"]
    by (simp add: tc_ok_def plan_approved_def before_plan_def)
  then show "tc_ok c'" using run ok plan
    by (auto simp: seal_client_def Let_def after_start_def intro!: tc_ok_running split: if_splits prod.splits sum.splits option.splits)
  show "r = None \<Longrightarrow> tc_clientDown c' \<and> tc_state c' = StateSealing \<and> \<not> tc_closed c' \<and> tc_metadata c' = tc_metadata c \<and> tc_config c' = tc_config c"
    using run state by (auto simp: seal_client_def Let_def split: if_splits prod.splits sum.splits option.splits)
qed

definition seal_allowed :: "('b, 'q) TorrentController \<Rightarrow> bool" where
  "seal_allowed c \<longleftrightarrow> \<not> tc_closed c \<and>
     (tc_state c = StateDownloadComplete \<or> tc_state c = StateSealing \<and> tc_clientDown c \<and> tc_manifest c \<noteq> [])"

lemma torrent_Seal_cases:
  assumes "torrent_Seal ops qops lower c = (c', r)"
  obtains "c' = c" "r = Inl TNotApproved"
  | e where "seal_allowed c" "seal_client ops lower (c\<lparr>tc_state := StateSealing\<rparr>) = (c', Some e)" "r = Inl e"
  | c1 q e where "seal_allowed c" "seal_client ops lower (c\<lparr>tc_state := StateSealing\<rparr>) = (c1, None)" "c' = c1\<lparr>tc_quarantine := q\<rparr>" "r = Inl TSealFailed"
  | c1 q where "seal_allowed c" "seal_client ops lower (c\<lparr>tc_state := StateSealing\<rparr>) = (c1, None)"
      "c' = c1\<lparr>tc_quarantine := q, tc_state := StateSealed\<rparr>" "r = Inr (tc_manifest c1)"
proof (cases "seal_allowed c")
  case True
  then have run: "(case seal_client ops lower (c\<lparr>tc_state := StateSealing\<rparr>) of (c, Some e) \<Rightarrow> (c, Inl e)
     | (c, None) \<Rightarrow> (case qu_SyncAndUnmount qops (tc_quarantine c) of (q, Some e) \<Rightarrow> (c\<lparr>tc_quarantine := q\<rparr>, Inl TSealFailed)
         | (q, None) \<Rightarrow> (c\<lparr>tc_quarantine := q, tc_state := StateSealed\<rparr>, Inr (tc_manifest c)))) = (c', r)"
    using assms by (auto simp: torrent_Seal_def seal_allowed_def)
  obtain c1 r1 where client: "seal_client ops lower (c\<lparr>tc_state := StateSealing\<rparr>) = (c1, r1)" by fastforce
  obtain q r2 where sync: "qu_SyncAndUnmount qops (tc_quarantine c1) = (q, r2)" by fastforce
  show thesis using run client sync True that(2-4) by (cases r1; cases r2) auto
qed (use assms that(1) in \<open>auto simp: torrent_Seal_def seal_allowed_def\<close>)

lemma seal_allowed_ok:
  assumes "tc_ok c" "seal_allowed c"
  shows "tc_ok (c\<lparr>tc_state := StateSealing\<rparr>)"
  using assms tc_ok_started [of c] by (intro tc_ok_running) (auto simp: seal_allowed_def after_start_def)

lemma torrent_Seal_ok:
  assumes ok: "tc_ok c" and run: "torrent_Seal ops qops lower c = (c', r)"
  shows "tc_ok c'"
    "r = Inr files \<Longrightarrow> tc_state c' = StateSealed \<and> tc_clientDown c' \<and> tc_manifest c' = files \<and> plan_approved c' \<and>
       tc_metadata c' = tc_metadata c \<and> tc_config c' = tc_config c"
proof -
  let ?c = "c\<lparr>tc_state := StateSealing\<rparr>"
  have client: "tc_ok c1" "r1 = None \<Longrightarrow> tc_clientDown c1 \<and> sp_SelectedBytes (tc_plan c1) \<noteq> 0 \<and> tc_metadata c1 = tc_metadata c \<and> tc_config c1 = tc_config c"
    if "seal_allowed c" "seal_client ops lower ?c = (c1, r1)" for c1 r1
  proof -
    note sealed = seal_client_ok [OF seal_allowed_ok [OF ok that(1)] _ _ that(2)]
    have "\<not> tc_closed c" using that(1) by (simp add: seal_allowed_def)
    then show "tc_ok c1" using sealed(1) by simp
    then show "r1 = None \<Longrightarrow> tc_clientDown c1 \<and> sp_SelectedBytes (tc_plan c1) \<noteq> 0 \<and> tc_metadata c1 = tc_metadata c \<and> tc_config c1 = tc_config c"
      using sealed(2) \<open>\<not> tc_closed c\<close> tc_ok_started [of c1] by (simp add: after_start_def)
  qed
  have fin: "tc_ok (c1\<lparr>tc_quarantine := q, tc_state := StateSealed\<rparr>)" "plan_approved (c1\<lparr>tc_quarantine := q, tc_state := StateSealed\<rparr>)"
    if "tc_ok c1" "sp_SelectedBytes (tc_plan c1) \<noteq> 0" for c1 q
    using that tc_ok_running [of "c1\<lparr>tc_quarantine := q\<rparr>" StateSealed] by (simp_all add: after_start_def) (simp add: tc_ok_def plan_approved_def)
  show "tc_ok c'" by (rule torrent_Seal_cases [OF run]) (simp_all add: ok client fin)
  show "tc_state c' = StateSealed \<and> tc_clientDown c' \<and> tc_manifest c' = files \<and> plan_approved c' \<and>
       tc_metadata c' = tc_metadata c \<and> tc_config c' = tc_config c" if "r = Inr files"
    by (rule torrent_Seal_cases [OF run]) (use that in \<open>simp_all add: client fin\<close>)
qed

lemma torrent_Close_ok: "tc_ok c \<Longrightarrow> torrent_Close ops c = (c', r) \<Longrightarrow> tc_ok c'"
proof -
  assume ok: "tc_ok c" and run: "torrent_Close ops c = (c', r)"
  obtain c1 u where pause: "close_pause ops c = (c1, u)" by (cases "close_pause ops c")
  obtain c2 v where client: "close_client ops c1 = (c2, v)" by (cases "close_client ops c1")
  have "tc_ok c1" using ok pause by (auto simp: close_pause_def split: if_splits prod.splits)
  then have ok2: "tc_ok c2" using client
    by (auto simp: close_client_def intro!: tc_ok_down split: if_splits prod.splits option.splits)
  have "tc_ok (c2\<lparr>tc_manifest := [], tc_metadata := no_metadata, tc_plan := no_plan, tc_progress := no_progress, tc_handle := [], tc_closed := True\<rparr>)"
    by (simp add: tc_ok_def indexed_def no_blocked_def no_metadata_def no_plan_def)
  then show "tc_ok c'" using run ok ok2 by (auto simp: torrent_Close_def pause client split: if_splits)
qed

section \<open>Runs\<close>

text \<open>Each operation, and each locked section of a monitor, is one step; any number of monitors may be running.\<close>

inductive torrent_step :: "('i, 'b) TorrentBackend \<Rightarrow> 'q Quarantine \<Rightarrow> (string \<Rightarrow> string) \<Rightarrow> (string \<Rightarrow> string) \<Rightarrow>
    ('b, 'q) TorrentController \<Rightarrow> ('b, 'q) TorrentController \<Rightarrow> bool"
  for ops qops nfc lower
where
  step_add: "torrent_Add ops nfc lower waits input c = (c', r) \<Longrightarrow> torrent_step ops qops nfc lower c c'"
| step_select: "torrent_Select ops qops indexes ev c = (c', r') \<Longrightarrow> torrent_step ops qops nfc lower c c'"
| step_start: "torrent_Start ops c = (c', e) \<Longrightarrow> torrent_step ops qops nfc lower c c'"
| step_pause: "torrent_Pause ops c = (c', e) \<Longrightarrow> torrent_step ops qops nfc lower c c'"
| step_poll: "monitor_poll ops now p t c = (c', turn) \<Longrightarrow> torrent_step ops qops nfc lower c c'"
| step_abort: "torrent_step ops qops nfc lower c (pauseAfterFailureLocked ops c)"
| step_status: "torrent_Status ops c = (c', st) \<Longrightarrow> torrent_step ops qops nfc lower c c'"
| step_loss: "torrent_OnVPNLoss ops c = (c', e) \<Longrightarrow> torrent_step ops qops nfc lower c c'"
| step_seal: "torrent_Seal ops qops lower c = (c', files) \<Longrightarrow> torrent_step ops qops nfc lower c c'"
| step_close: "torrent_Close ops c = (c', e) \<Longrightarrow> torrent_step ops qops nfc lower c c'"

inductive torrent_reachable :: "('i, 'b) TorrentBackend \<Rightarrow> 'q Quarantine \<Rightarrow> (string \<Rightarrow> string) \<Rightarrow> (string \<Rightarrow> string) \<Rightarrow>
    ('b, 'q) TorrentController \<Rightarrow> bool"
  for ops qops nfc lower
where
  reach_new: "newTorrentController b q config = Inr c \<Longrightarrow> torrent_reachable ops qops nfc lower c"
| reach_step: "torrent_reachable ops qops nfc lower c \<Longrightarrow> torrent_step ops qops nfc lower c c' \<Longrightarrow> torrent_reachable ops qops nfc lower c'"

lemmas torrent_ops_ok = torrent_Add_ok torrent_Select_ok torrent_Start_ok torrent_Pause_ok monitor_poll_ok pauseAfterFailure_ok
  torrent_Status_ok torrent_OnVPNLoss_ok torrent_Seal_ok(1) torrent_Close_ok

lemma torrent_step_ok: "torrent_step ops qops nfc lower c c' \<Longrightarrow> tc_ok c \<Longrightarrow> tc_ok c'"
  by (induction rule: torrent_step.induct) (blast intro: torrent_ops_ok)+

lemma torrent_reachable_ok: "torrent_reachable ops qops nfc lower c \<Longrightarrow> tc_ok c"
  by (induction rule: torrent_reachable.induct) (blast intro: newTorrentController_ok torrent_step_ok)+

lemma torrent_Monitor_ok:
  assumes "tc_ok c" "torrent_Monitor ops started rounds c = (c', r)"
    "\<And>m c. m \<in> set rounds \<Longrightarrow> tc_ok c \<Longrightarrow> tc_ok (mr_before m c) \<and> tc_ok (mr_between m c)"
  shows "tc_ok c'"
proof (cases "tc_closed c \<or> tc_state c \<noteq> StateDownloading")
  case False
  then have "torrent_monitor_loop ops rounds 0 started c = (c', r)" using assms(2) by (auto simp: torrent_Monitor_def)
  then show ?thesis using monitor_poll_ok pauseAfterFailure_ok assms(1,3) by (rule_tac torrent_monitor_loop_keeps)
qed (use assms(1,2) in \<open>auto simp: torrent_Monitor_def\<close>)

text \<open>Payload bytes are asked for only under a plan that an accepted selection gave.\<close>

lemma start_needs_approval:
  assumes "torrent_reachable ops qops nfc lower c" "torrent_Start ops c = (c', None)"
  shows "plan_approved c"
  using torrent_reachable_ok [OF assms(1)] assms(2) by (auto simp: torrent_Start_def tc_ok_def split: if_splits prod.splits option.splits)

subsection \<open>A run\<close>

definition demo_raw :: RawMetadata where
  "demo_raw = \<lparr>rm_Available = True, rm_PayloadRead = 0, rm_DisplayName = ''a'', rm_Files = [\<lparr>rf_Index = 0, rf_Path = ''a.txt'', rf_Size = 5\<rparr>]\<rparr>"

definition demo_digest :: FileDigest where
  "demo_digest = \<lparr>fd_Path = ''a.txt'', fd_SizeBytes = 5, fd_SHA256 = replicate 32 1, fd_SourceIndex = 0\<rparr>"

definition demo_backend :: "(unit, unit) TorrentBackend" where
  "demo_backend = \<lparr>bk_AddPaused = \<lambda>_ b. (b, Inr (replicate 40 (CHR ''a''))), bk_Metadata = \<lambda>_ b. (b, Inr demo_raw),
     bk_SetSelection = \<lambda>_ _ _ b. (b, None), bk_Start = \<lambda>_ b. (b, None), bk_Pause = \<lambda>_ b. (b, None),
     bk_Status = \<lambda>_ b. (b, Inr \<lparr>cs_State = ClientComplete, cs_CompletedBytes = 5, cs_TotalBytes = 5\<rparr>),
     bk_VerifyCompleted = \<lambda>_ _ b. (b, Inr [demo_digest]), bk_Shutdown = \<lambda>b. (b, None)\<rparr>"

definition demo_quarantine :: "unit Quarantine" where
  "demo_quarantine = \<lparr>qu_CapacityBytes = \<lambda>q. (q, Inr (2 ^ 40)), qu_SyncAndUnmount = \<lambda>q. (q, None)\<rparr>"

definition demo_config :: TorrentConfig where
  "demo_config = \<lparr>tg_SafePolicy = True, tg_MetadataTimeout = second, tg_PollInterval = second, tg_StallTimeout = second\<rparr>"

definition demo_controller :: "torrent_state \<Rightarrow> string \<Rightarrow> Metadata \<Rightarrow> SelectionPlan \<Rightarrow> TorrentProgress \<Rightarrow> (unit, unit) TorrentController" where
  "demo_controller state handle metadata plan progress = \<lparr>tc_backend = (), tc_quarantine = (), tc_config = demo_config, tc_state = state,
     tc_handle = handle, tc_metadata = metadata, tc_plan = plan, tc_progress = progress, tc_manifest = [], tc_clientDown = False, tc_closed = False\<rparr>"

lemmas demo_defs = demo_backend_def demo_quarantine_def demo_config_def demo_controller_def demo_raw_def demo_digest_def

lemma demo_new: "newTorrentController () () demo_config = Inr (demo_controller StateEmpty [] no_metadata no_plan no_progress)"
  by (simp add: newTorrentController_def default_to_def second_def demo_defs)

lemma demo_metadata: "validateMetadata (\<lambda>s. s) (\<lambda>s. s) demo_raw = Inr one_file"
  by (simp add: validateMetadata_def demo_defs one_file_def validateRelativePath_def MaximumDisplayName_def MaximumPathBytes_def MaximumFiles_def
      has_prefix_def clean_rel_def windowsReservedName_def path_ext_def trim_suffix_def has_suffix_def classifyPath_def checkedAdd_def Let_def byte_in_def)

lemma demo_handle: "handle_valid (replicate 40 (CHR ''a''))"
  by code_simp

lemma demo_add:
  "torrent_Add demo_backend (\<lambda>s. s) (\<lambda>s. s) [] () (demo_controller StateEmpty [] no_metadata no_plan no_progress) =
     (demo_controller StateSelectionRequired (replicate 40 (CHR ''a'')) one_file no_plan no_progress, Inr one_file)"
proof -
  have "rm_PayloadRead demo_raw = 0" "rm_Available demo_raw" by (simp_all add: demo_raw_def)
  then show ?thesis
    using demo_handle demo_metadata
    by (simp add: torrent_Add_def metadata_loop.simps metadata_poll_def demo_backend_def demo_controller_def Let_def)
qed

lemma demo_plan:
  "\<exists>m p. PlanSelection one_file [0] ample_evidence (2 ^ 40) True = Inr (m, p) \<and> md_Files m = mark [0] (md_Files one_file) \<and> sp_SelectedBytes p = 5"
  by (simp add: PlanSelection_def budget_def planSelection_def budget_positive_def hasBlockedType_def checkedAdd_def one_file_def mark_def
      ample_evidence_def plan_bytes_def stageMargin_def overhead_def minimumStageMargin_def minimumSafetyMargin_def checkedSum_def
      hasArchive_def Let_def)

lemma demo_seal:
  assumes "md_Files m = mark [0] (md_Files one_file)"
  shows "\<exists>c'. torrent_Seal demo_backend demo_quarantine (\<lambda>s. s) (demo_controller StateDownloadComplete h m p pr) = (c', Inr [demo_digest])"
proof -
  have "verifyManifestMatchesSelection [demo_digest] m = None"
    by (simp add: verifyManifestMatchesSelection_def assms mark_def one_file_def demo_digest_def Let_def)
  moreover have "newManifest (\<lambda>s. s) [demo_digest] = Inr [demo_digest]"
    by (simp add: newManifest_def demo_defs validateRelativePath_def MaximumPathBytes_def MaximumFiles_def has_prefix_def clean_rel_def
        windowsReservedName_def path_ext_def trim_suffix_def has_suffix_def Let_def byte_in_def list_all_iff)
  ultimately show ?thesis by (simp add: torrent_Seal_def seal_client_def demo_backend_def demo_quarantine_def demo_controller_def Let_def)
qed

lemma demo_run:
  "\<exists>c c'. torrent_reachable demo_backend demo_quarantine (\<lambda>s. s) (\<lambda>s. s) c \<and>
     torrent_Seal demo_backend demo_quarantine (\<lambda>s. s) c = (c', Inr [demo_digest])"
proof -
  let ?reach = "torrent_reachable demo_backend demo_quarantine (\<lambda>s. s) (\<lambda>s. s)" and ?h = "replicate 40 (CHR ''a'')"
  obtain m p where p: "PlanSelection one_file [0] ample_evidence (2 ^ 40) True = Inr (m, p)" "md_Files m = mark [0] (md_Files one_file)"
    "sp_SelectedBytes p = 5" using demo_plan by blast
  let ?p0 = "\<lparr>tp_CompletedBytes = 0, tp_TotalBytes = 5\<rparr>" and ?p5 = "\<lparr>tp_CompletedBytes = 5, tp_TotalBytes = 5\<rparr>"
  have "?reach (demo_controller StateEmpty [] no_metadata no_plan no_progress)" using demo_new by (rule reach_new)
  then have "?reach (demo_controller StateSelectionRequired ?h one_file no_plan no_progress)" by (rule reach_step) (rule step_add, rule demo_add)
  moreover have "torrent_Select demo_backend demo_quarantine [0] ample_evidence (demo_controller StateSelectionRequired ?h one_file no_plan no_progress) =
      (demo_controller StateCapacityVerified ?h m p ?p0, Inr (m, p))"
    using p by (simp add: torrent_Select_def demo_backend_def demo_quarantine_def demo_config_def demo_controller_def)
  ultimately have "?reach (demo_controller StateCapacityVerified ?h m p ?p0)" by (blast intro: reach_step step_select)
  moreover have "torrent_Start demo_backend (demo_controller StateCapacityVerified ?h m p ?p0) = (demo_controller StateDownloading ?h m p ?p0, None)"
    using p by (simp add: torrent_Start_def demo_backend_def demo_controller_def)
  ultimately have "?reach (demo_controller StateDownloading ?h m p ?p0)" by (blast intro: reach_step step_start)
  moreover have "\<exists>turn. monitor_poll demo_backend 0 0 0 (demo_controller StateDownloading ?h m p ?p0) = (demo_controller StateDownloadComplete ?h m p ?p5, turn)"
    using p by (simp add: monitor_poll_def report_ok_def demo_backend_def demo_controller_def Let_def)
  ultimately have "?reach (demo_controller StateDownloadComplete ?h m p ?p5)" by (blast intro: reach_step step_poll)
  then show ?thesis using demo_seal [OF p(2)] by blast
qed

section \<open>Sealing is exact\<close>



section \<open>Three gaps\<close>

text \<open>A pause that fails is recorded as done, and a later loss of the VPN then asks the client for nothing.\<close>

lemma failed_pause_hides_loss:
  "torrent_OnVPNLoss ops (pauseAfterFailureLocked ops c) = (pauseAfterFailureLocked ops c, None)"
  by (simp add: torrent_OnVPNLoss_def pauseAfterFailureLocked_def)

text \<open>
  Once the client is down, \<^verbatim>\<open>Close\<close> still asks it to pause unless the quarantine is sealed; a client that no longer
  answers makes every \<^verbatim>\<open>Close\<close> report an incomplete cleanup.
\<close>

definition gone :: "('i, 'b) TorrentBackend \<Rightarrow> ('b, 'q) TorrentController \<Rightarrow> bool" where
  "gone ops c \<longleftrightarrow> tc_clientDown c \<and> \<not> tc_closed c \<and> handle_valid (tc_handle c) \<and> tc_state c \<noteq> StateSealed"

lemma shut_client_never_closes:
  assumes down: "\<And>h b. down b \<Longrightarrow> \<exists>b' e. bk_Pause ops h b = (b', Some e) \<and> down b'" and start: "gone ops c" "down (tc_backend (c :: ('b, 'q) TorrentController))"
  shows "snd (torrent_Close ops (((\<lambda>c. fst (torrent_Close ops c)) ^^ n) c)) = Some TCleanupIncomplete"
proof -
  have step: "gone ops (fst (torrent_Close ops c)) \<and> down (tc_backend (fst (torrent_Close ops c))) \<and> snd (torrent_Close ops c) = Some TCleanupIncomplete"
    if g: "gone ops c" and d: "down (tc_backend c)" for c :: "('b, 'q) TorrentController"
  proof -
    obtain b e where "bk_Pause ops (tc_handle c) (tc_backend c) = (b, Some e)" "down b" using down [OF d] by blast
    then show ?thesis using g by (simp add: torrent_Close_def close_pause_def close_client_def gone_def)
  qed
  have "gone ops (((\<lambda>c. fst (torrent_Close ops c)) ^^ n) c) \<and> down (tc_backend (((\<lambda>c. fst (torrent_Close ops c)) ^^ n) c))"
    by (induction n) (use start step in simp_all)
  then show ?thesis using step by blast
qed

text \<open>
  A \<^verbatim>\<open>Close\<close> that could not pause the client but shut it down leaves a completed download with the client marked down;
  \<^verbatim>\<open>Seal\<close> then skips the verification and returns a manifest that lists nothing.
\<close>

lemma failed_close_seals_unverified:
  assumes "tc_state c = StateDownloadComplete" "\<not> tc_closed c" "\<not> tc_clientDown c" "handle_valid (tc_handle c)" "tc_manifest c = []"
    "bk_Pause ops (tc_handle c) (tc_backend c) = (b1, Some e)" "bk_Shutdown ops b1 = (b2, None)" "qu_SyncAndUnmount qops (tc_quarantine c) = (q, None)"
  shows "\<exists>c1 c2. torrent_Close ops c = (c1, Some TCleanupIncomplete) \<and> torrent_Seal ops qops lower c1 = (c2, Inr []) \<and> tc_state c2 = StateSealed"
  using assms by (simp add: torrent_Close_def close_pause_def close_client_def torrent_Seal_def seal_client_def)

section \<open>The coordinator's gate\<close>

lemma SealAndDestroy_ready:
  assumes "SealAndDestroy ops qops lower destroy s = (s', Inr receipt)" "\<not> ScannerReady (co_receipt s)"
  shows "sr_ready receipt \<and> co_receipt s' = Some receipt \<and> tc_state (co_Controller s') = StateSealed \<and>
    sr_manifest receipt = tc_manifest (co_Controller s') \<and> snd (destroy (co_Destroyer s)) = None"
proof -
  let ?seal = "case sealedManifest (co_Controller s) of Inr manifest \<Rightarrow> (co_Controller s, Inr manifest)
    | Inl e \<Rightarrow> torrent_Seal ops qops lower (co_Controller s)"
  obtain c r where seal: "?seal = (c, r)" by fastforce
  have sealed: "tc_state c = StateSealed \<and> tc_manifest c = manifest" if "r = Inr manifest" for manifest
  proof (cases "sealedManifest (co_Controller s)")
    case (Inl e)
    then have "torrent_Seal ops qops lower (co_Controller s) = (c, Inr manifest)" using seal that by simp
    then show ?thesis by (elim torrent_Seal_cases) simp_all
  qed (use seal that in \<open>auto simp: sealedManifest_def split: if_splits\<close>)
  obtain d e where dest: "destroy (co_Destroyer s) = (d, e)" by fastforce
  show ?thesis using assms seal sealed dest by (cases r; cases e) (auto simp: SealAndDestroy_def Let_def)
qed

end
