(* ===== verification/Torrent_Input.thy ===== *)
theory Torrent_Input
  imports Torrent_Controller
begin

text \<open>
  The protected torrent source, \<^verbatim>\<open>internal/torrent/input.go\<close>, and the guest's torrent service,
  \<^verbatim>\<open>internal/guest/downloader_torrent.go\<close>: the stream that carries a source into the guest, and the calls that
  hand their requests to the controller.
\<close>

section \<open>Inputs\<close>

datatype InputKind = InputMagnet | InputMetainfo | InputOther

definition MaximumMagnetBytes :: nat where "MaximumMagnetBytes = 8 * 1024"
definition MaximumMetainfoBytes :: nat where "MaximumMetainfoBytes = 16 * 1024 * 1024"
definition MaximumInputFrames :: nat where "MaximumInputFrames = 1024"

text \<open>A destroyed input has no value.\<close>

record TorrentInput =
  ti_kind :: InputKind
  ti_value :: "string option"

definition inputMaximum :: "InputKind \<Rightarrow> nat" where
  "inputMaximum kind = (case kind of InputMagnet \<Rightarrow> MaximumMagnetBytes | InputMetainfo \<Rightarrow> MaximumMetainfoBytes | InputOther \<Rightarrow> 0)"

definition validBTIH :: "string \<Rightarrow> bool" where
  "validBTIH value \<longleftrightarrow>
     length value = 40 \<and> list_all (\<lambda>c. is_digit c \<or> char_between (CHR ''a'') (CHR ''f'') c \<or> char_between (CHR ''A'') (CHR ''F'') c) value \<or>
     length value = 32 \<and> list_all (\<lambda>c. is_upper c \<or> char_between (CHR ''2'') (CHR ''7'') c) value"

text \<open>The fields the loop of \<^verbatim>\<open>validateMagnet\<close> visits: a final separator ends the query.\<close>

function magnet_fields :: "string \<Rightarrow> string list" where
  "magnet_fields query =
     (if query = [] then []
      else if CHR ''&'' \<in> set query
      then takeWhile (\<lambda>c. c \<noteq> CHR ''&'') query # magnet_fields (tl (dropWhile (\<lambda>c. c \<noteq> CHR ''&'') query))
      else [query])"
  by pat_completeness auto
termination
proof (relation "measure length")
  fix query :: string
  assume "query \<noteq> []"
  then show "(tl (dropWhile (\<lambda>c. c \<noteq> CHR ''&'') query), query) \<in> measure length"
    using length_dropWhile_le [of "\<lambda>c. c \<noteq> CHR ''&''" query] by (cases query) (auto simp: le_imp_less_Suc less_Suc_eq_le split: if_splits)
qed simp

declare magnet_fields.simps [simp del]

definition field_key :: "string \<Rightarrow> string" where
  "field_key field = takeWhile (\<lambda>c. c \<noteq> CHR ''='') field"

definition field_value :: "string \<Rightarrow> string" where
  "field_value field = drop (Suc (length (field_key field))) field"

definition btih_prefix :: string where "btih_prefix = ''urn:btih:''"

fun check_fields :: "string list \<Rightarrow> nat \<Rightarrow> torrent_error option" where
  "check_fields [] xtCount = (if xtCount \<noteq> 1 then Some TInvalidInput else None)"
| "check_fields (field # parts) xtCount =
     (if CHR ''='' \<notin> set field \<or> field_key field = [] \<or> field_value field = [] then Some TInvalidInput
      else if field_key field = ''xt''
      then (if \<not> has_prefix btih_prefix (field_value field) \<or> \<not> validBTIH (drop (length btih_prefix) (field_value field))
            then Some TInvalidInput else check_fields parts (Suc xtCount))
      else check_fields parts xtCount)"

definition validateMagnet :: "string \<Rightarrow> torrent_error option" where
  "validateMagnet raw =
     (if MaximumMagnetBytes < length raw then Some TInputTooLarge
      else if \<not> has_prefix ''magnet:?'' raw \<or>
        list_ex (\<lambda>c. c \<in> set [CHR 0x00, CHR 0x0D, CHR 0x0A, CHR 0x09, CHR '' '', CHR ''#'']) raw then Some TInvalidInput
      else let query = drop 8 raw in if query = [] then Some TInvalidInput else check_fields (magnet_fields query) 0)"

definition looksLikeMetainfo :: "string \<Rightarrow> bool" where
  "looksLikeMetainfo raw \<longleftrightarrow> 2 \<le> length raw \<and> hd raw = CHR ''d'' \<and> last raw = CHR ''e'' \<and> CHR 0x00 \<notin> set raw"

text \<open>\<open>sealed\<close> is the outcome of placing the bytes in protected memory.\<close>

definition NewInput :: "bool \<Rightarrow> InputKind \<Rightarrow> string \<Rightarrow> torrent_error + TorrentInput" where
  "NewInput sealed kind raw =
     (if raw = [] then Inl TInvalidInput
      else if inputMaximum kind = 0 then Inl TInvalidRequest
      else if inputMaximum kind < length raw then Inl TInputTooLarge
      else case (if kind = InputMagnet then validateMagnet raw else if looksLikeMetainfo raw then None else Some TInvalidInput) of
         Some e \<Rightarrow> Inl e
       | None \<Rightarrow> if \<not> sealed then Inl TInvalidInput else Inr \<lparr>ti_kind = kind, ti_value = Some raw\<rparr>)"

definition input_Destroy :: "TorrentInput \<Rightarrow> TorrentInput" where
  "input_Destroy input = input\<lparr>ti_kind := InputOther, ti_value := None\<rparr>"

text \<open>What a callback of \<^verbatim>\<open>WithReader\<close> can read; \<open>ended\<close> is the context's error.\<close>

definition input_reader :: "torrent_error option \<Rightarrow> TorrentInput \<Rightarrow> torrent_error + string" where
  "input_reader ended input =
     (case ti_value input of None \<Rightarrow> Inl TInvalidRequest
      | Some value \<Rightarrow> (case ended of Some e \<Rightarrow> Inl e | None \<Rightarrow> Inr value))"

subsection \<open>Accepted magnets\<close>

definition xt_field :: "string \<Rightarrow> bool" where
  "xt_field field \<longleftrightarrow> (\<exists>hash. field = ''xt='' @ btih_prefix @ hash \<and> validBTIH hash)"

lemma field_parts: "CHR ''='' \<in> set field \<Longrightarrow> field = field_key field @ CHR ''='' # field_value field"
proof -
  assume "CHR ''='' \<in> set field"
  then obtain ys zs where "field = ys @ CHR ''='' # zs" "CHR ''='' \<notin> set ys" by (meson split_list_first)
  then show ?thesis by (simp add: field_key_def field_value_def takeWhile_until)
qed

lemma check_fields_accepts:
  "check_fields parts n = None \<Longrightarrow>
     n + length (filter (\<lambda>f. field_key f = ''xt'') parts) = 1 \<and>
     (\<forall>f \<in> set parts. \<exists>k v. f = k @ CHR ''='' # v \<and> k \<noteq> [] \<and> v \<noteq> []) \<and> (\<forall>f \<in> set parts. field_key f = ''xt'' \<longrightarrow> xt_field f)"
proof (induction parts arbitrary: n)
  case (Cons f parts)
  have f: "CHR ''='' \<in> set f" "field_key f \<noteq> []" "field_value f \<noteq> []" using Cons.prems by (auto split: if_splits)
  have split: "\<exists>k v. f = k @ CHR ''='' # v \<and> k \<noteq> [] \<and> v \<noteq> []" using f field_parts by blast
  show ?case
  proof (cases "field_key f = ''xt''")
    case True
    then have v: "has_prefix btih_prefix (field_value f)" "validBTIH (drop (length btih_prefix) (field_value f))" "check_fields parts (Suc n) = None"
      using Cons.prems f by (auto split: if_splits)
    then obtain h where h: "field_value f = btih_prefix @ h" by (auto simp: has_prefix_iff)
    have "xt_field f" using field_parts [OF f(1)] True v(2) h by (auto simp: xt_field_def)
    then show ?thesis using Cons.IH [OF v(3)] True split by auto
  next
    case False
    then show ?thesis using Cons.prems Cons.IH [of n] f split by (auto split: if_splits)
  qed
qed (auto split: if_splits)

text \<open>An accepted magnet carries exactly one content hash, in one of the two encodings.\<close>

lemma accepted_magnet:
  assumes "validateMagnet raw = None"
  shows "\<exists>query. raw = ''magnet:?'' @ query \<and> length (filter (\<lambda>f. field_key f = ''xt'') (magnet_fields query)) = 1 \<and>
    (\<forall>f \<in> set (magnet_fields query). field_key f = ''xt'' \<longrightarrow> xt_field f)"
proof -
  have "has_prefix ''magnet:?'' raw" "check_fields (magnet_fields (drop 8 raw)) 0 = None"
    using assms by (auto simp: validateMagnet_def Let_def split: if_splits)
  then show ?thesis using check_fields_accepts [of "magnet_fields (drop 8 raw)" 0] by (auto simp: has_prefix_iff)
qed

lemma NewInput_bounded:
  "NewInput sealed kind raw = Inr input \<Longrightarrow> ti_kind input = kind \<and> ti_value input = Some raw \<and> 0 < length raw \<and> length raw \<le> inputMaximum kind"
  by (auto simp: NewInput_def split: if_splits option.splits)

section \<open>The stream of a source\<close>

definition maximumTorrentChunkBytes :: nat where "maximumTorrentChunkBytes = 16 * 1024"

record TorrentInputFrame =
  tf_chunk :: "(InputKind \<times> string) option"
  tf_final :: bool

text \<open>
  The frames the client sends and what ends the stream, \<open>None\<close> for \<^verbatim>\<open>io.EOF\<close>.  \<open>n\<close> counts the frames, \<open>kind\<close> is the
  one seen so far.
\<close>

fun receive_frames :: "TorrentInputFrame list \<Rightarrow> torrent_error option \<Rightarrow> nat \<Rightarrow> InputKind option \<Rightarrow> bool \<Rightarrow> string \<Rightarrow>
    torrent_error + InputKind \<times> string" where
  "receive_frames [] ended n kind finalSeen raw =
     (case ended of Some e \<Rightarrow> Inl e
      | None \<Rightarrow> if \<not> finalSeen \<or> raw = [] then Inl TInvalidInput else Inr (case kind of None \<Rightarrow> InputOther | Some k \<Rightarrow> k, raw))"
| "receive_frames (frame # frames) ended n kind finalSeen raw =
     (if MaximumInputFrames < Suc n \<or> finalSeen then Inl TInvalidInput
      else case tf_chunk frame of None \<Rightarrow> Inl TInvalidInput
       | Some (currentKind, chunk) \<Rightarrow>
          if chunk = [] \<or> maximumTorrentChunkBytes < length chunk \<or> (kind \<noteq> None \<and> kind \<noteq> Some currentKind) then Inl TInvalidInput
          else let maximum = (if currentKind = InputMagnet then MaximumMagnetBytes else MaximumMetainfoBytes) in
            if int maximum - int (length chunk) < int (length raw) then Inl TInputTooLarge
            else receive_frames frames ended (Suc n) (Some currentKind) (tf_final frame) (raw @ chunk))"

definition frame_bytes :: "TorrentInputFrame \<Rightarrow> string" where
  "frame_bytes frame = (case tf_chunk frame of None \<Rightarrow> [] | Some (k, chunk) \<Rightarrow> chunk)"

text \<open>A source arrives whole: the accepted bytes are the concatenation of the chunks, within the bound of their kind.\<close>

lemma receive_frames_whole:
  "receive_frames frames ended n kind final raw = Inr (k, bytes) \<Longrightarrow>
   (kind \<noteq> None \<longrightarrow> length raw \<le> (if kind = Some InputMagnet then MaximumMagnetBytes else MaximumMetainfoBytes)) \<Longrightarrow> (kind = None \<longrightarrow> raw = []) \<Longrightarrow>
   bytes = raw @ concat (map frame_bytes frames) \<and> length bytes \<le> (if k = InputMagnet then MaximumMagnetBytes else MaximumMetainfoBytes) \<and>
   n + length frames \<le> max n MaximumInputFrames"
proof (induction frames arbitrary: n kind final raw)
  case (Cons frame frames)
  obtain ck chunk where f: "tf_chunk frame = Some (ck, chunk)" using Cons.prems(1) by (auto split: if_splits option.splits)
  let ?max = "if ck = InputMagnet then MaximumMagnetBytes else MaximumMetainfoBytes"
  have g: "Suc n \<le> MaximumInputFrames" "length (raw @ chunk) \<le> ?max"
    "receive_frames frames ended (Suc n) (Some ck) (tf_final frame) (raw @ chunk) = Inr (k, bytes)"
    using Cons.prems(1) f by (auto simp: Let_def split: if_splits)
  show ?case using Cons.IH [OF g(3)] g(1,2) f by (auto simp: frame_bytes_def split: if_splits)
qed (auto split: if_splits option.splits)

section \<open>The service\<close>

definition AddTorrent :: "(TorrentInput, 'b) TorrentBackend \<Rightarrow> (string \<Rightarrow> string) \<Rightarrow> (string \<Rightarrow> string) \<Rightarrow> torrent_error option list \<Rightarrow> bool \<Rightarrow>
    TorrentInputFrame list \<Rightarrow> torrent_error option \<Rightarrow> ('b, 'q) TorrentController \<Rightarrow> ('b, 'q) TorrentController \<times> (torrent_error + Metadata)" where
  "AddTorrent ops nfc lower waits sealed frames ended c =
     (case receive_frames frames ended 0 None False [] of Inl e \<Rightarrow> (c, Inl e)
      | Inr (kind, raw) \<Rightarrow>
         (case NewInput sealed kind raw of Inl e \<Rightarrow> (c, Inl e)
          | Inr input \<Rightarrow> torrent_Add ops nfc lower waits input c))"

datatype TorrentDestination = TORRENT_DESTINATION_UNSPECIFIED | TORRENT_DESTINATION_WORKSTATION | TORRENT_DESTINATION_USB

record TorrentCapacityReceipt =
  cr_SchemaVersion :: u32
  cr_Destination :: TorrentDestination
  cr_ScanAvailableBytes :: u64
  cr_ReconstructionAvailableBytes :: u64
  cr_DestinationAvailableBytes :: u64
  cr_RootOverlayBudgetBytes :: u64
  cr_ArchiveExpansionBytes :: u64
  cr_ReconstructionBytes :: u64
  cr_MaximumOutputBytes :: u64
  cr_MaximumSelectedBytes :: u64

definition torrentCapacityEvidence :: "TorrentCapacityReceipt option \<Rightarrow> torrent_error + CapacityEvidence" where
  "torrentCapacityEvidence receipt =
     (case receipt of None \<Rightarrow> Inl TEvidenceUnavailable
      | Some r \<Rightarrow>
         if cr_SchemaVersion r \<noteq> 1 \<or> cr_Destination r = TORRENT_DESTINATION_UNSPECIFIED then Inl TEvidenceUnavailable
         else Inr \<lparr>ce_Destination = (if cr_Destination r = TORRENT_DESTINATION_WORKSTATION then DestinationWorkstation else DestinationUSB),
           ce_ScanAvailableBytes = cr_ScanAvailableBytes r, ce_ReconstructionAvailable = cr_ReconstructionAvailableBytes r,
           ce_DestinationAvailable = cr_DestinationAvailableBytes r, ce_RootOverlayBudgetBytes = cr_RootOverlayBudgetBytes r,
           ce_ArchiveExpansionBytes = cr_ArchiveExpansionBytes r, ce_ReconstructionBytes = cr_ReconstructionBytes r,
           ce_MaximumOutputBytes = cr_MaximumOutputBytes r, ce_MaximumSelectedBytes = cr_MaximumSelectedBytes r\<rparr>)"

definition SelectTorrentFiles :: "('i, 'b) TorrentBackend \<Rightarrow> 'q Quarantine \<Rightarrow> u32 list \<Rightarrow> TorrentCapacityReceipt option \<Rightarrow>
    ('b, 'q) TorrentController \<Rightarrow> ('b, 'q) TorrentController \<times> (torrent_error + Metadata)" where
  "SelectTorrentFiles ops qops indexes receipt c =
     (if indexes = [] then (c, Inl TInvalidSelection)
      else case torrentCapacityEvidence receipt of Inl e \<Rightarrow> (c, Inl e)
       | Inr evidence \<Rightarrow>
          (case torrent_Select ops qops indexes evidence c of (c, Inl e) \<Rightarrow> (c, Inl e) | (c, Inr (metadata, plan)) \<Rightarrow> (c, Inr metadata)))"

definition StartDownload :: "('i, 'b) TorrentBackend \<Rightarrow> int \<Rightarrow> ('b, 'q) TorrentController monitor_round list \<Rightarrow>
    ('b, 'q) TorrentController \<Rightarrow> ('b, 'q) TorrentController \<times> torrent_error option option" where
  "StartDownload ops started rounds c =
     (case torrent_Start ops c of (c, Some e) \<Rightarrow> (c, Some (Some e)) | (c, None) \<Rightarrow> torrent_Monitor ops started rounds c)"

definition PauseDownload :: "('i, 'b) TorrentBackend \<Rightarrow> ('b, 'q) TorrentController \<Rightarrow> ('b, 'q) TorrentController \<times> (torrent_error + TorrentStatus)" where
  "PauseDownload ops c = (case torrent_Pause ops c of (c, Some e) \<Rightarrow> (c, Inl e) | (c, None) \<Rightarrow> torrent_Status ops c)"

definition SealQuarantine :: "('i, 'b) TorrentBackend \<Rightarrow> 'q Quarantine \<Rightarrow> (string \<Rightarrow> string) \<Rightarrow> ('b, 'q) TorrentController \<Rightarrow>
    ('b, 'q) TorrentController \<times> torrent_error option" where
  "SealQuarantine ops qops lower c =
     (case torrent_Seal ops qops lower c of (c, Inl e) \<Rightarrow> (c, Some e) | (c, Inr manifest) \<Rightarrow> (c, None))"

definition safeTypeCode :: "string \<Rightarrow> string" where
  "safeTypeCode value =
     map (\<lambda>c. let c = (if is_lower c then char_of (of_char c - 32 :: nat) else c) in if is_upper c \<or> c = CHR ''_'' then c else CHR ''_'') value"

record TorrentFileMessage =
  tm_Index :: u32
  tm_DisplayPath :: string
  tm_SizeBytes :: u64
  tm_Selected :: bool
  tm_HazardCodes :: "string list"

record TorrentMetadataMessage =
  tmm_DisplayName :: string
  tmm_SelectedSizeBytes :: u64
  tmm_PayloadPaused :: bool
  tmm_Files :: "TorrentFileMessage list"

definition torrentMetadataToProto :: "Metadata \<Rightarrow> TorrentMetadataMessage" where
  "torrentMetadataToProto metadata =
     \<lparr>tmm_DisplayName = md_DisplayName metadata, tmm_SelectedSizeBytes = md_SelectedSizeBytes metadata,
      tmm_PayloadPaused = md_PayloadPaused metadata,
      tmm_Files = map (\<lambda>f. \<lparr>tm_Index = fi_Index f, tm_DisplayPath = fi_DisplayPath f, tm_SizeBytes = fi_SizeBytes f, tm_Selected = fi_Selected f,
        tm_HazardCodes = fi_HazardCodes f @ (if fi_SuspectedType f \<noteq> [] then [''SUSPECTED_'' @ safeTypeCode (fi_SuspectedType f)] else [])\<rparr>)
        (md_Files metadata)\<rparr>"

text \<open>Every call of the service keeps the controller's invariant; the status codes of the replies are not represented.\<close>

lemma service_calls_ok:
  assumes "tc_ok c"
  shows "AddTorrent bops nfc lower waits sealed frames ended c = (c', r1) \<Longrightarrow> tc_ok c'"
    "SelectTorrentFiles ops qops indexes receipt c = (c', r2) \<Longrightarrow> tc_ok c'"
    "PauseDownload ops c = (c', r3) \<Longrightarrow> tc_ok c'"
    "SealQuarantine ops qops lower c = (c', r4) \<Longrightarrow> tc_ok c'"
  using assms
  by (auto simp: AddTorrent_def SelectTorrentFiles_def PauseDownload_def SealQuarantine_def
      split: sum.splits prod.splits if_splits option.splits intro: torrent_ops_ok)

text \<open>The selection a client sends is judged on exactly the figures of its receipt.\<close>

lemma receipt_evidence:
  "torrentCapacityEvidence (Some r) = Inr ev \<Longrightarrow> budget ev available = Inr b \<Longrightarrow>
     cb_ScanAvailableBytes b = cr_ScanAvailableBytes r \<and> cb_ReconstructionAvailable b = cr_ReconstructionAvailableBytes r \<and>
     cb_DestinationAvailable b = cr_DestinationAvailableBytes r \<and> cb_MaximumSelectedBytes b = cr_MaximumSelectedBytes r \<and>
     cb_QuarantineAvailableBytes b = available"
  by (auto simp: torrentCapacityEvidence_def budget_def split: if_splits)

end
