(* ===== verification/Torrent_QBit.thy ===== *)
theory Torrent_QBit
  imports Torrent_Input "HOL-Library.Multiset"
begin

text \<open>
  The client behind the controller: the Web API adapter of \<^verbatim>\<open>internal/torrent/qbittorrent.go\<close> and the verifier of the
  downloaded files, \<^verbatim>\<open>verifier_linux.go\<close>.  The transport and the program behind it are \<open>doer\<close>, on a world of its own; a
  response carries the length of its body and what the body decodes to.  SHA-256 is a parameter.
\<close>

section \<open>The Web API\<close>

definition QuarantineDownloadDir :: string where "QuarantineDownloadDir = ''/mnt/quarantine/payload''"
definition maximumQBitResponse :: nat where "maximumQBitResponse = 2 * 1024 * 1024"

datatype qbit_body = NoBody | Form "(string \<times> string) list" | Multipart string

record qbit_request =
  qr_method :: string
  qr_endpoint :: string
  qr_body :: qbit_body

record qbitInfo =
  qi_Hash :: string
  qi_Name :: string
  qi_State :: string
  qi_SavePath :: string
  qi_Downloaded :: int
  qi_Size :: int

record qbitFile =
  qf_Index :: u32
  qf_Name :: string
  qf_Size :: int

record qbit_response =
  qp_status :: int
  qp_length :: nat
  qp_info :: "qbitInfo list option"
  qp_files :: "qbitFile list option"

datatype qbit_outcome = QbitResponse qbit_response | QbitFailed | QbitEnded torrent_error

type_synonym 'd doer = "qbit_request \<Rightarrow> 'd \<Rightarrow> 'd \<times> qbit_outcome"

definition qbit_send :: "'d doer \<Rightarrow> string \<Rightarrow> string \<Rightarrow> qbit_body \<Rightarrow> nat \<Rightarrow> 'd \<Rightarrow> 'd \<times> (torrent_error + qbit_response)" where
  "qbit_send doer method endpoint body limit d =
     (if \<not> has_prefix ''/api/v2/'' endpoint \<or> limit = 0 \<or> maximumQBitResponse < limit then (d, Inl TInvalidRequest)
      else case doer \<lparr>qr_method = method, qr_endpoint = endpoint, qr_body = body\<rparr> d of
         (d, QbitEnded e) \<Rightarrow> (d, Inl e)
       | (d, QbitFailed) \<Rightarrow> (d, Inl TOther)
       | (d, QbitResponse r) \<Rightarrow> (d, if qp_status r \<noteq> 200 \<or> limit < qp_length r then Inl TOther else Inr r))"

definition qbit_form :: "'d doer \<Rightarrow> string \<Rightarrow> (string \<times> string) list \<Rightarrow> 'd \<Rightarrow> 'd \<times> torrent_error option" where
  "qbit_form doer endpoint values d =
     (case qbit_send doer ''POST'' endpoint (Form values) 16 d of (d, Inl e) \<Rightarrow> (d, Some e) | (d, Inr _) \<Rightarrow> (d, None))"

definition qbit_handleForm :: "'d doer \<Rightarrow> string \<Rightarrow> string \<Rightarrow> 'd \<Rightarrow> 'd \<times> torrent_error option" where
  "qbit_handleForm doer endpoint handle d =
     (if \<not> handle_valid handle then (d, Some TInvalidRequest) else qbit_form doer endpoint [(''hashes'', handle)] d)"

definition qbit_list :: "'d doer \<Rightarrow> 'd \<Rightarrow> 'd \<times> (torrent_error + qbitInfo list)" where
  "qbit_list doer d =
     (case qbit_send doer ''GET'' ''/api/v2/torrents/info'' NoBody maximumQBitResponse d of
        (d, Inl e) \<Rightarrow> (d, Inl e)
      | (d, Inr r) \<Rightarrow>
         (d, case qp_info r of None \<Rightarrow> Inl TOther
           | Some items \<Rightarrow>
              if 1 < length items \<or> list_ex (\<lambda>i. qi_SavePath i \<noteq> [] \<and> qi_SavePath i \<noteq> QuarantineDownloadDir) items then Inl TOther
              else Inr items))"

definition qbit_Start :: "'d doer \<Rightarrow> string \<Rightarrow> 'd \<Rightarrow> 'd \<times> torrent_error option" where
  "qbit_Start doer handle = qbit_handleForm doer ''/api/v2/torrents/start'' handle"

definition qbit_Pause :: "'d doer \<Rightarrow> string \<Rightarrow> 'd \<Rightarrow> 'd \<times> torrent_error option" where
  "qbit_Pause doer handle = qbit_handleForm doer ''/api/v2/torrents/stop'' handle"

definition qbit_Shutdown :: "'d doer \<Rightarrow> 'd \<Rightarrow> 'd \<times> torrent_error option" where
  "qbit_Shutdown doer d =
     (case qbit_send doer ''POST'' ''/api/v2/app/shutdown'' (Form []) 16 d of (d, Inl e) \<Rightarrow> (d, Some e) | (d, Inr _) \<Rightarrow> (d, None))"

subsection \<open>Adding a source\<close>

text \<open>The text \<^verbatim>\<open>multipart.Writer\<close> produces: each part with its headers, then the closing boundary.\<close>

definition crlf :: string where "crlf = [CHR 0x0D, CHR 0x0A]"

definition part_text :: "string \<Rightarrow> string list \<times> string \<Rightarrow> string" where
  "part_text boundary part = ''--'' @ boundary @ crlf @ concat (map (\<lambda>h. h @ crlf) (fst part)) @ crlf @ snd part"

definition multipart_text :: "string \<Rightarrow> (string list \<times> string) list \<Rightarrow> string" where
  "multipart_text boundary parts = join_with crlf (map (part_text boundary) parts) @ crlf @ ''--'' @ boundary @ ''--'' @ crlf"

definition form_header :: "string \<Rightarrow> string" where
  "form_header name = ''Content-Disposition: form-data; name='' @ [CHR 0x22] @ name @ [CHR 0x22]"

definition source_part :: "InputKind \<Rightarrow> string \<Rightarrow> string list \<times> string" where
  "source_part kind value =
     (case kind of InputMagnet \<Rightarrow> ([form_header ''urls''], take (Suc MaximumMagnetBytes) value)
      | _ \<Rightarrow> ([form_header ''torrents'' @ ''; filename='' @ [CHR 0x22] @ ''input.torrent'' @ [CHR 0x22], ''Content-Type: application/octet-stream''],
              take (Suc MaximumMetainfoBytes) value))"

definition add_fields :: "(string \<times> string) list" where
  "add_fields = [(''savepath'', QuarantineDownloadDir), (''stopped'', ''true''), (''autoTMM'', ''false''), (''sequentialDownload'', ''false''),
     (''firstLastPiecePrio'', ''false''), (''ratioLimit'', ''0''), (''seedingTimeLimit'', ''0'')]"

text \<open>The random boundary and the order in which the range over the map of fields yields them.\<close>

record multipart_choice =
  mc_boundary :: string
  mc_order :: "(string \<times> string) list \<Rightarrow> (string \<times> string) list"

definition add_body :: "multipart_choice \<Rightarrow> InputKind \<Rightarrow> string \<Rightarrow> string" where
  "add_body choice kind value =
     multipart_text (mc_boundary choice) (source_part kind value # map (\<lambda>(name, v). ([form_header name], v)) (mc_order choice add_fields))"

text \<open>After the source has been posted: the one torrent listed becomes the handle, paused once more.\<close>

definition adopt_added :: "'d doer \<Rightarrow> 'd \<Rightarrow> 'd \<times> (torrent_error + string)" where
  "adopt_added doer d =
     (case qbit_list doer d of
        (d, Inr [item]) \<Rightarrow>
          if \<not> handle_valid (qi_Hash item) then (d, Inl TInvalidInput)
          else (case qbit_Pause doer (qi_Hash item) d of (d, Some e) \<Rightarrow> (d, Inl e) | (d, None) \<Rightarrow> (d, Inr (qi_Hash item)))
      | (d, _) \<Rightarrow> (d, Inl TInvalidInput))"

definition qbit_AddPaused :: "'d doer \<Rightarrow> multipart_choice \<Rightarrow> torrent_error option \<Rightarrow> TorrentInput \<Rightarrow> 'd \<Rightarrow> 'd \<times> (torrent_error + string)" where
  "qbit_AddPaused doer choice ended input d =
     (case qbit_list doer d of
        (d, Inr []) \<Rightarrow>
          (case input_reader ended input of Inl e \<Rightarrow> (d, Inl TInvalidInput)
           | Inr value \<Rightarrow>
              if ti_kind input = InputOther \<or> MaximumMetainfoBytes + 64 * 1024 < length (add_body choice (ti_kind input) value) then (d, Inl TInvalidInput)
              else (case qbit_send doer ''POST'' ''/api/v2/torrents/add'' (Multipart (add_body choice (ti_kind input) value)) 16 d of
                  (d, Inl e) \<Rightarrow> (d, Inl TInvalidInput)
                | (d, Inr _) \<Rightarrow> adopt_added doer d))
      | (d, _) \<Rightarrow> (d, Inl TInvalidRequest))"

subsection \<open>Metadata, selection, status\<close>

definition raw_files :: "qbitFile list \<Rightarrow> RawFile list option" where
  "raw_files files =
     (if list_all (\<lambda>(i, f). qf_Index f = of_nat i \<and> 0 < qf_Size f) (enumerate 0 files)
      then Some (map (\<lambda>f. \<lparr>rf_Index = qf_Index f, rf_Path = qf_Name f, rf_Size = of_int (qf_Size f)\<rparr>) files) else None)"

definition no_raw :: "u64 \<Rightarrow> RawMetadata" where
  "no_raw payload = \<lparr>rm_Available = False, rm_PayloadRead = payload, rm_DisplayName = [], rm_Files = []\<rparr>"

definition qbit_Metadata :: "'d doer \<Rightarrow> string \<Rightarrow> 'd \<Rightarrow> 'd \<times> (torrent_error + RawMetadata)" where
  "qbit_Metadata doer handle d =
     (if \<not> handle_valid handle then (d, Inl TInvalidRequest)
      else case qbit_list doer d of
         (d, Inr [item]) \<Rightarrow>
           if qi_Hash item \<noteq> handle \<or> qi_Downloaded item < 0 then (d, Inl TOther)
           else if qi_State item = ''metaDL'' \<or> qi_State item = ''checkingDL'' \<or> qi_Name item = [] then (d, Inr (no_raw (of_int (qi_Downloaded item))))
           else (case qbit_send doer ''GET'' (''/api/v2/torrents/files?hash='' @ handle) NoBody maximumQBitResponse d of
               (d, Inl e) \<Rightarrow> (d, Inl e)
             | (d, Inr r) \<Rightarrow>
                (d, case qp_files r of None \<Rightarrow> Inl TOther
                  | Some files \<Rightarrow>
                     if files = [] \<or> MaximumFiles < length files then Inl TOther
                     else (case raw_files files of None \<Rightarrow> Inl TOther
                       | Some raws \<Rightarrow> Inr \<lparr>rm_Available = True, rm_PayloadRead = of_int (qi_Downloaded item), rm_DisplayName = qi_Name item,
                           rm_Files = raws\<rparr>)))
       | (d, _) \<Rightarrow> (d, Inl TOther))"

definition bar_list :: "u32 list \<Rightarrow> string" where
  "bar_list indexes = join_with ''|'' (map (\<lambda>i. show_base 10 (unat i)) indexes)"

definition priority_form :: "string \<Rightarrow> u32 list \<Rightarrow> string \<Rightarrow> (string \<times> string) list" where
  "priority_form handle indexes priority = [(''hash'', handle), (''id'', bar_list indexes), (''priority'', priority)]"

definition qbit_SetSelection :: "'d doer \<Rightarrow> string \<Rightarrow> u32 list \<Rightarrow> u32 \<Rightarrow> 'd \<Rightarrow> 'd \<times> torrent_error option" where
  "qbit_SetSelection doer handle selected fileCount d =
     (if \<not> handle_valid handle \<or> fileCount = 0 \<or> MaximumFiles < unat fileCount \<or> unat fileCount < length selected then (d, Some TInvalidRequest)
      else case qbit_form doer ''/api/v2/torrents/filePrio'' (priority_form handle (map of_nat [0..<unat fileCount]) ''0'') d of
         (d, Some e) \<Rightarrow> (d, Some e)
       | (d, None) \<Rightarrow>
          if selected = [] then (d, None)
          else if list_ex (\<lambda>i. fileCount \<le> i) selected \<or> \<not> distinct selected then (d, Some TInvalidRequest)
          else qbit_form doer ''/api/v2/torrents/filePrio'' (priority_form handle selected ''1'') d)"

definition client_state :: "string \<Rightarrow> ClientState" where
  "client_state state =
     (if state \<in> set [''stoppedDL'', ''pausedDL'', ''stalledDL''] then ClientPaused
      else if state \<in> set [''stoppedUP'', ''pausedUP'', ''uploading'', ''stalledUP''] then ClientComplete
      else if state \<in> set [''error'', ''missingFiles'', ''unknown''] then ClientError
      else if state = ''metaDL'' then ClientMetadata else ClientRunning)"

definition qbit_Status :: "'d doer \<Rightarrow> string \<Rightarrow> 'd \<Rightarrow> 'd \<times> (torrent_error + ClientStatus)" where
  "qbit_Status doer handle d =
     (case qbit_list doer d of
        (d, Inr [item]) \<Rightarrow>
          (d, if \<not> handle_valid handle \<or> qi_Hash item \<noteq> handle \<or> qi_Downloaded item < 0 \<or> qi_Size item < 0 then Inl TOther
              else Inr \<lparr>cs_State = client_state (qi_State item), cs_CompletedBytes = of_int (qi_Downloaded item), cs_TotalBytes = of_int (qi_Size item)\<rparr>)
      | (d, _) \<Rightarrow> (d, Inl TOther))"

section \<open>The verifier\<close>

text \<open>What one \<^verbatim>\<open>Read\<close> of a descriptor returns: bytes, bytes with the end, bytes with an error.\<close>

datatype file_read = ReadBytes "u8 list" | ReadLast "u8 list" | ReadBroken "u8 list"

record quarantine_file =
  ff_regular :: bool
  ff_links :: nat
  ff_size :: int
  ff_reads :: "file_read list"
  ff_closes :: bool

text \<open>\<open>ended k\<close> is the context's error before the \<open>k\<close>-th read; a descriptor whose reads are used up returns no bytes.\<close>

fun hash_reads :: "(nat \<Rightarrow> torrent_error option) \<Rightarrow> nat \<Rightarrow> u64 \<Rightarrow> u8 list \<Rightarrow> file_read list \<Rightarrow> torrent_error + u8 list" where
  "hash_reads ended k expected acc reads =
     (case ended k of Some e \<Rightarrow> Inl e
      | None \<Rightarrow>
         (case reads of [] \<Rightarrow> Inl TOther
          | ReadBytes bytes # rest \<Rightarrow>
              if bytes = [] then Inl TOther
              else if unat expected < length (acc @ bytes) then Inl TOther else hash_reads ended (Suc k) expected (acc @ bytes) rest
          | ReadLast bytes # rest \<Rightarrow> if unat expected < length (acc @ bytes) then Inl TOther else Inr (acc @ bytes)
          | ReadBroken bytes # rest \<Rightarrow> Inl TOther))"

declare hash_reads.simps [simp del]

definition hashRegularFile :: "(u8 list \<Rightarrow> u8 list) \<Rightarrow> (nat \<Rightarrow> torrent_error option) \<Rightarrow> quarantine_file \<Rightarrow> File \<Rightarrow> torrent_error + FileDigest" where
  "hashRegularFile sha256 ended file expected =
     (if \<not> ff_regular file \<or> ff_links file \<noteq> 1 \<or> ff_size file < 0 \<or> of_int (ff_size file) \<noteq> fi_SizeBytes expected then Inl TOther
      else case hash_reads ended 0 (fi_SizeBytes expected) [] (ff_reads file) of Inl e \<Rightarrow> Inl e
       | Inr content \<Rightarrow>
          if length content \<noteq> unat (fi_SizeBytes expected) then Inl TOther
          else Inr \<lparr>fd_Path = fi_DisplayPath expected, fd_SizeBytes = fi_SizeBytes expected, fd_SHA256 = sha256 content,
            fd_SourceIndex = fi_Index expected\<rparr>)"

definition contains_text :: "string \<Rightarrow> string \<Rightarrow> bool" where
  "contains_text sub s \<longleftrightarrow> list_ex (\<lambda>i. take (length sub) (drop i s) = sub) [0..<Suc (length s)]"

text \<open>The loop over the selected files; \<open>open_file\<close> is \<^verbatim>\<open>Openat2\<close> below the payload directory without links.\<close>

fun verify_files :: "(u8 list \<Rightarrow> u8 list) \<Rightarrow> (string \<Rightarrow> string) \<Rightarrow> (nat \<Rightarrow> nat \<Rightarrow> torrent_error option) \<Rightarrow> (string \<Rightarrow> quarantine_file option) \<Rightarrow>
    nat \<Rightarrow> File list \<Rightarrow> torrent_error + FileDigest list" where
  "verify_files sha256 lower ended open_file n [] = Inr []"
| "verify_files sha256 lower ended open_file n (file # files) =
     (if \<not> fi_Selected file then verify_files sha256 lower ended open_file (Suc n) files
      else case ended n 0 of Some e \<Rightarrow> Inl e
       | None \<Rightarrow>
          if validateRelativePath lower (fi_DisplayPath file) \<noteq> None \<or> contains_text ''/.'' (fi_DisplayPath file) then Inl TSealFailed
          else case open_file (fi_DisplayPath file) of None \<Rightarrow> Inl TSealFailed
           | Some f \<Rightarrow>
              (case hashRegularFile sha256 (\<lambda>k. ended n (Suc k)) f file of
                 Inl e \<Rightarrow> Inl (if isTorrentContextError e then e else TSealFailed)
               | Inr entry \<Rightarrow>
                  if \<not> ff_closes f then Inl TSealFailed
                  else (case verify_files sha256 lower ended open_file (Suc n) files of Inl e \<Rightarrow> Inl e | Inr entries \<Rightarrow> Inr (entry # entries))))"

definition filesystem_Verify :: "(u8 list \<Rightarrow> u8 list) \<Rightarrow> (string \<Rightarrow> string) \<Rightarrow> (nat \<Rightarrow> nat \<Rightarrow> torrent_error option) \<Rightarrow> (string \<Rightarrow> quarantine_file option) option \<Rightarrow>
    Metadata \<Rightarrow> torrent_error + FileDigest list" where
  "filesystem_Verify sha256 lower ended root metadata =
     (if md_SelectedSizeBytes metadata = 0 then Inl TSealFailed
      else case root of None \<Rightarrow> Inl TSealFailed
       | Some open_file \<Rightarrow>
          (case verify_files sha256 lower ended open_file 0 (md_Files metadata) of Inl e \<Rightarrow> Inl e
           | Inr result \<Rightarrow> if result = [] then Inl TSealFailed else Inr result))"

definition qbit_VerifyCompleted :: "'d doer \<Rightarrow> ('d \<Rightarrow> Metadata \<Rightarrow> torrent_error + FileDigest list) \<Rightarrow> string \<Rightarrow> Metadata \<Rightarrow> 'd \<Rightarrow>
    'd \<times> (torrent_error + FileDigest list)" where
  "qbit_VerifyCompleted doer verifier handle metadata d =
     (case qbit_Status doer handle d of
        (d, Inl e) \<Rightarrow> (d, Inl TSealFailed)
      | (d, Inr status) \<Rightarrow>
         (d, if cs_State status \<noteq> ClientComplete \<or> cs_CompletedBytes status \<noteq> md_SelectedSizeBytes metadata \<or>
               cs_TotalBytes status \<noteq> md_SelectedSizeBytes metadata then Inl TSealFailed
             else verifier d metadata))"

definition qbit_backend :: "'d doer \<Rightarrow> multipart_choice \<Rightarrow> torrent_error option \<Rightarrow> ('d \<Rightarrow> Metadata \<Rightarrow> torrent_error + FileDigest list) \<Rightarrow>
    (TorrentInput, 'd) TorrentBackend" where
  "qbit_backend doer choice ended verifier =
     \<lparr>bk_AddPaused = qbit_AddPaused doer choice ended, bk_Metadata = qbit_Metadata doer, bk_SetSelection = qbit_SetSelection doer,
      bk_Start = qbit_Start doer, bk_Pause = qbit_Pause doer, bk_Status = qbit_Status doer,
      bk_VerifyCompleted = qbit_VerifyCompleted doer verifier, bk_Shutdown = qbit_Shutdown doer\<rparr>"

section \<open>What the verifier has read\<close>

definition content_of :: "file_read list \<Rightarrow> u8 list \<Rightarrow> bool" where
  "content_of reads content \<longleftrightarrow>
     (\<exists>pre last post. reads = map ReadBytes pre @ ReadLast last # post \<and> content = concat pre @ last)"

lemma hash_reads_content:
  "hash_reads ended k expected acc reads = Inr content \<Longrightarrow> \<exists>read. content = acc @ read \<and> content_of reads read"
proof (induction reads arbitrary: k acc)
  case (Cons r reads)
  show ?case
  proof (cases r)
    case (ReadBytes bytes)
    then have "hash_reads ended (Suc k) expected (acc @ bytes) reads = Inr content"
      using Cons.prems by (subst (asm) hash_reads.simps) (auto split: option.splits if_splits)
    then obtain read pre last post where "content = acc @ bytes @ read" "reads = map ReadBytes pre @ ReadLast last # post" "read = concat pre @ last"
      using Cons.IH unfolding content_of_def by fastforce
    then have "content = acc @ (bytes @ read) \<and> content_of (r # reads) (bytes @ read)"
      unfolding content_of_def using ReadBytes by (auto intro!: exI [of _ "bytes # pre"])
    then show ?thesis by blast
  next
    case (ReadLast bytes)
    then have "content = acc @ bytes" using Cons.prems by (subst (asm) hash_reads.simps) (auto split: option.splits if_splits)
    moreover have "content_of (r # reads) bytes" unfolding content_of_def using ReadLast by (intro exI [of _ "[]"] exI [of _ bytes] exI [of _ reads]) simp
    ultimately show ?thesis by blast
  next
    case (ReadBroken bytes)
    then show ?thesis using Cons.prems by (subst (asm) hash_reads.simps) (auto split: option.splits)
  qed
qed (subst (asm) hash_reads.simps, auto split: option.splits)

text \<open>An entry describes one regular file with no second name, read to its end, of the size of the metadata.\<close>

definition digest_of :: "(u8 list \<Rightarrow> u8 list) \<Rightarrow> (string \<Rightarrow> quarantine_file option) \<Rightarrow> File \<Rightarrow> FileDigest \<Rightarrow> bool" where
  "digest_of sha256 open_file file entry \<longleftrightarrow>
     (\<exists>f content. open_file (fi_DisplayPath file) = Some f \<and> ff_regular f \<and> ff_links f = 1 \<and> content_of (ff_reads f) content \<and>
        length content = unat (fi_SizeBytes file) \<and> fd_SHA256 entry = sha256 content \<and> digest_key entry = file_key file)"

lemma verify_files_digests:
  "verify_files sha256 lower ended open_file n files = Inr entries \<Longrightarrow>
   list_all2 (digest_of sha256 open_file) (filter fi_Selected files) entries"
proof (induction files arbitrary: n entries)
  case (Cons x files)
  show ?case
  proof (cases "fi_Selected x")
    case True
    then obtain f entry rest where run: "open_file (fi_DisplayPath x) = Some f" "hashRegularFile sha256 (\<lambda>k. ended n (Suc k)) f x = Inr entry"
      "verify_files sha256 lower ended open_file (Suc n) files = Inr rest" "entries = entry # rest"
      using Cons.prems by (auto split: option.splits if_splits sum.splits)
    then have "digest_of sha256 open_file x entry"
      using hash_reads_content [of "\<lambda>k. ended n (Suc k)" 0 "fi_SizeBytes x" "[]" "ff_reads f"]
      by (fastforce simp: hashRegularFile_def digest_of_def digest_key_def file_key_def split: if_splits sum.splits)
    then show ?thesis using True run Cons.IH by simp
  qed (use Cons in simp)
qed simp

text \<open>A selected file below a hidden directory, or hidden in a directory, passes the metadata check and can never be sealed.\<close>

lemma hidden_file_never_verified:
  "hidden \<in> set files \<Longrightarrow> fi_Selected hidden \<Longrightarrow> contains_text ''/.'' (fi_DisplayPath hidden) \<Longrightarrow>
   \<exists>e. verify_files sha256 lower ended open_file n files = Inl e"
proof (induction files arbitrary: n)
  case (Cons x files)
  show ?case
  proof (cases "hidden = x")
    case True
    then show ?thesis using Cons.prems by (cases "ended n 0") auto
  next
    case False
    then obtain e where "verify_files sha256 lower ended open_file (Suc n) files = Inl e" using Cons by auto
    then show ?thesis by (simp split: option.splits sum.splits)
  qed
qed simp

lemma hidden_path_allowed: "validateRelativePath to_lower ''a/.b'' = None" "contains_text ''/.'' ''a/.b''"
  by (simp_all add: validateRelativePath_def MaximumPathBytes_def has_prefix_def clean_rel_def windowsReservedName_def path_ext_def trim_suffix_def
      has_suffix_def contains_text_def upt_rec byte_in_def Let_def)

section \<open>The adapter and the controller agree\<close>

text \<open>A selection the plan accepted passes the adapter's own checks: only the transport can still refuse it.\<close>

lemma accepted_selection_sent:
  assumes "permitted_files m is safe" "is \<noteq> []" "indexed (md_Files m)" "handle_valid handle"
  shows "qbit_SetSelection doer handle is (of_nat (length (md_Files m))) d =
    (case qbit_form doer ''/api/v2/torrents/filePrio'' (priority_form handle (map of_nat [0..<length (md_Files m)]) ''0'') d of
       (d, Some e) \<Rightarrow> (d, Some e)
     | (d, None) \<Rightarrow> qbit_form doer ''/api/v2/torrents/filePrio'' (priority_form handle is ''1'') d)"
proof -
  let ?n = "length (md_Files m)"
  have small: "?n \<le> MaximumFiles" using assms(3) by (simp add: indexed_def)
  have count: "unat (of_nat ?n :: u32) = ?n" using small by (intro unat_of_nat_small) (simp add: MaximumFiles_def)
  have inside: "\<forall>i \<in> set is. \<not> of_nat ?n \<le> i" "distinct is" using assms(1) count by (auto simp: permitted_files_def word_le_nat_alt)
  have "?n \<noteq> 0" using assms(1,2) by (cases "is") (auto simp: permitted_files_def)
  then have "(of_nat ?n :: u32) \<noteq> 0" using count by (metis unat_0)
  moreover have "\<not> list_ex (\<lambda>i. of_nat ?n \<le> i) is" using inside(1) by (auto simp: list_ex_iff)
  ultimately show ?thesis
    using assms(2,4) small count inside(2) permitted_room [OF assms(1)] by (simp add: qbit_SetSelection_def not_less split: prod.splits option.splits)
qed

text \<open>The body of a valid source is within its bound whatever the order of the fields.\<close>

lemma join_length: "length (join_with sep ps) \<le> length (concat ps) + length sep * length ps"
  by (induction sep ps rule: join_with.induct) auto

lemma part_length: "length (part_text boundary part) = 6 + length boundary + sum_list (map (\<lambda>h. length h + 2) (fst part)) + length (snd part)"
  by (simp add: part_text_def crlf_def length_concat comp_def)

lemma add_body_fits:
  assumes "NewInput sealed kind value = Inr input" "length (mc_boundary choice) = 60" "mset (mc_order choice add_fields) = mset add_fields"
  shows "length (add_body choice kind value) \<le> MaximumMetainfoBytes + 64 * 1024"
proof -
  let ?parts = "source_part kind value # map (\<lambda>(name, v). ([form_header name], v)) (mc_order choice add_fields)"
  let ?texts = "map (part_text (mc_boundary choice)) ?parts"
  let ?w = "\<lambda>p :: string \<times> string. length (part_text (mc_boundary choice) (case p of (name, v) \<Rightarrow> ([form_header name], v)))"
  have size: "length value \<le> MaximumMetainfoBytes" using NewInput_bounded [OF assms(1)]
    by (auto simp: inputMaximum_def MaximumMagnetBytes_def MaximumMetainfoBytes_def split: InputKind.splits)
  have source: "length (part_text (mc_boundary choice) (source_part kind value)) \<le> 400 + length value"
    by (auto simp: part_length assms(2) source_part_def form_header_def split: InputKind.splits)
  have "sum_list (map ?w (mc_order choice add_fields)) = sum_mset (image_mset ?w (mset (mc_order choice add_fields)))" by (simp add: sum_mset_sum_list [symmetric])
  also have "\<dots> = sum_list (map ?w add_fields)" unfolding assms(3) by (simp add: sum_mset_sum_list [symmetric])
  also have "\<dots> \<le> 2000" by (simp add: part_length assms(2) add_fields_def form_header_def QuarantineDownloadDir_def)
  finally have rest: "sum_list (map ?w (mc_order choice add_fields)) \<le> 2000" .
  have "length (mc_order choice add_fields) = 7" using mset_eq_length [OF assms(3)] by (simp add: add_fields_def)
  then have "length ?texts = 8" by simp
  have "length (concat ?texts) \<le> 2400 + length value"
    using source rest by (simp add: length_concat comp_def)
  then have "length (join_with crlf ?texts) \<le> 2400 + length value + 2 * 8"
    using join_length [of crlf ?texts] \<open>length ?texts = 8\<close> by (simp add: crlf_def)
  then show ?thesis using size assms(2) by (simp add: add_body_def multipart_text_def crlf_def)
qed

text \<open>
  Sealing records what is on disk: the entries of a manifest that \<^verbatim>\<open>Seal\<close> has just stored are the digests of the selected
  files, in their order, as the verifier read them.
\<close>

lemma sealed_digests:
  assumes "seal_client (qbit_backend doer choice stop (\<lambda>d. filesystem_Verify sha256 lower ended (root d))) lower c = (c', None)" "\<not> tc_clientDown c"
  shows "\<exists>d open_file. root d = Some open_file \<and> list_all2 (digest_of sha256 open_file) (filter fi_Selected (md_Files (tc_metadata c))) (tc_manifest c')"
proof -
  obtain b files where verified: "qbit_VerifyCompleted doer (\<lambda>d. filesystem_Verify sha256 lower ended (root d)) (tc_handle c) (tc_metadata c) (tc_backend c) = (b, Inr files)"
    and "tc_manifest c' = files"
    using assms by (auto simp: seal_client_def qbit_backend_def newManifest_def Let_def split: prod.splits sum.splits option.splits if_splits)
  moreover have "filesystem_Verify sha256 lower ended (root b) (tc_metadata c) = Inr files"
    using verified by (auto simp: qbit_VerifyCompleted_def split: prod.splits sum.splits if_splits)
  then obtain open_file where "root b = Some open_file" "verify_files sha256 lower ended open_file 0 (md_Files (tc_metadata c)) = Inr files"
    by (auto simp: filesystem_Verify_def split: if_splits option.splits sum.splits)
  ultimately show ?thesis using verify_files_digests by blast
qed

text \<open>A program that has exited answers nothing, so that a controller whose client is down and not sealed stays open.\<close>

lemma exited_client_never_closes:
  assumes "\<And>r d. down d \<Longrightarrow> \<exists>d'. doer r d = (d', QbitFailed) \<and> down d'" "gone (qbit_backend doer choice ended verifier) c" "down (tc_backend c)"
  shows "snd (torrent_Close (qbit_backend doer choice ended verifier)
    (((\<lambda>c. fst (torrent_Close (qbit_backend doer choice ended verifier) c)) ^^ n) c)) = Some TCleanupIncomplete"
proof (rule shut_client_never_closes [where down = down, OF _ assms(2,3)])
  fix h d assume "down d"
  then obtain d' where "doer \<lparr>qr_method = ''POST'', qr_endpoint = ''/api/v2/torrents/stop'', qr_body = Form [(''hashes'', h)]\<rparr> d = (d', QbitFailed)" "down d'"
    using assms(1) by blast
  then show "\<exists>b' e. bk_Pause (qbit_backend doer choice ended verifier) h d = (b', Some e) \<and> down b'"
    using \<open>down d\<close> by (auto simp: qbit_backend_def qbit_Pause_def qbit_handleForm_def qbit_form_def qbit_send_def has_prefix_def maximumQBitResponse_def)
qed

section \<open>When the client is told to start\<close>

text \<open>
  A client of which only \<^verbatim>\<open>Start\<close> asks for payload: \<open>started\<close> counts what the world has been asked to start, and every
  other call leaves it alone.
\<close>

locale torrent_client =
  fixes ops :: "('i, 'b) TorrentBackend" and started :: "'b \<Rightarrow> nat"
  assumes quiet_add: "\<And>i b b' r. bk_AddPaused ops i b = (b', r) \<Longrightarrow> started b' = started b"
    and quiet_metadata: "\<And>h b b' r. bk_Metadata ops h b = (b', r) \<Longrightarrow> started b' = started b"
    and quiet_selection: "\<And>h is n b b' r. bk_SetSelection ops h is n b = (b', r) \<Longrightarrow> started b' = started b"
    and quiet_pause: "\<And>h b b' r. bk_Pause ops h b = (b', r) \<Longrightarrow> started b' = started b"
    and quiet_status: "\<And>h b b' r. bk_Status ops h b = (b', r) \<Longrightarrow> started b' = started b"
    and quiet_verify: "\<And>h m b b' r. bk_VerifyCompleted ops h m b = (b', r) \<Longrightarrow> started b' = started b"
    and quiet_shutdown: "\<And>b b' r. bk_Shutdown ops b = (b', r) \<Longrightarrow> started b' = started b"
begin

lemmas quiet = quiet_add quiet_metadata quiet_selection quiet_pause quiet_status quiet_verify quiet_shutdown

lemma metadata_poll_quiet: "metadata_poll ops nfc lower c = (c', r) \<Longrightarrow> started (tc_backend c') = started (tc_backend c)"
  by (auto simp: metadata_poll_def Let_def split: prod.splits option.splits sum.splits if_splits dest!: quiet)

lemma metadata_loop_quiet: "metadata_loop ops nfc lower waits c = (c', r) \<Longrightarrow> started (tc_backend c') = started (tc_backend c)"
proof (induction waits arbitrary: c)
  case Nil
  then show ?case by (auto simp: metadata_loop.simps [of _ _ _ "[]"] split: prod.splits sum.splits option.splits dest: metadata_poll_quiet)
next
  case (Cons w waits)
  obtain c1 r1 where poll: "metadata_poll ops nfc lower c = (c1, r1)" by fastforce
  show ?case using Cons.prems Cons.IH [of c1] metadata_poll_quiet [OF poll]
    by (auto simp: metadata_loop.simps [of _ _ _ "w # waits"] poll split: sum.splits option.splits)
qed

lemma torrent_Add_quiet: "torrent_Add ops nfc lower waits input c = (c', r) \<Longrightarrow> started (tc_backend c') = started (tc_backend c)"
  by (auto simp: torrent_Add_def split: if_splits prod.splits sum.splits dest!: quiet_add metadata_loop_quiet)

lemma torrent_Select_quiet: "torrent_Select ops qops indexes ev c = (c', r) \<Longrightarrow> started (tc_backend c') = started (tc_backend c)"
  by (auto simp: torrent_Select_def Let_def split: if_splits prod.splits sum.splits option.splits dest!: quiet_selection)

lemma torrent_pauses_quiet:
  "torrent_Pause ops c = (c', e) \<Longrightarrow> started (tc_backend c') = started (tc_backend c)"
  "torrent_OnVPNLoss ops c = (c', e) \<Longrightarrow> started (tc_backend c') = started (tc_backend c)"
  "started (tc_backend (pauseAfterFailureLocked ops c)) = started (tc_backend c)"
proof -
  show "started (tc_backend (pauseAfterFailureLocked ops c)) = started (tc_backend c)"
    using quiet_pause [OF surjective_pairing] by (simp add: pauseAfterFailureLocked_def)
qed (auto simp: torrent_Pause_def torrent_OnVPNLoss_def split: if_splits prod.splits option.splits dest!: quiet_pause)

lemma torrent_Status_quiet: "torrent_Status ops c = (c', r) \<Longrightarrow> started (tc_backend c') = started (tc_backend c)"
  by (auto simp: torrent_Status_def Let_def split: if_splits prod.splits sum.splits dest!: quiet_status)

lemma monitor_poll_quiet: "monitor_poll ops now p t c = (c', turn) \<Longrightarrow> started (tc_backend c') = started (tc_backend c)"
  by (auto simp: monitor_poll_def Let_def torrent_pauses_quiet(3) split: if_splits prod.splits sum.splits option.splits dest!: quiet_status quiet_pause)

lemma torrent_Seal_quiet: "torrent_Seal ops qops lower c = (c', r) \<Longrightarrow> started (tc_backend c') = started (tc_backend c)"
proof -
  assume run: "torrent_Seal ops qops lower c = (c', r)"
  have "started (tc_backend c1) = started (tc_backend c)" if "seal_client ops lower (c\<lparr>tc_state := StateSealing\<rparr>) = (c1, r1)" for c1 r1
    using that by (auto simp: seal_client_def Let_def split: if_splits prod.splits sum.splits option.splits dest!: quiet_verify quiet_shutdown)
  then show ?thesis using run by (elim torrent_Seal_cases) auto
qed

lemma torrent_Close_quiet: "torrent_Close ops c = (c', e) \<Longrightarrow> started (tc_backend c') = started (tc_backend c)"
proof -
  assume run: "torrent_Close ops c = (c', e)"
  obtain c1 u where pause: "close_pause ops c = (c1, u)" by fastforce
  obtain c2 v where client: "close_client ops c1 = (c2, v)" by fastforce
  have "started (tc_backend c1) = started (tc_backend c)" using pause by (auto simp: close_pause_def split: if_splits prod.splits dest!: quiet_pause)
  moreover have "started (tc_backend c2) = started (tc_backend c1)"
    using client by (auto simp: close_client_def split: if_splits prod.splits option.splits dest!: quiet_shutdown)
  ultimately show ?thesis using run by (auto simp: torrent_Close_def pause client split: if_splits)
qed

lemma step_starts:
  assumes "torrent_step ops qops nfc lower c c'" "started (tc_backend c') \<noteq> started (tc_backend c)"
  shows "\<exists>e. torrent_Start ops c = (c', e)"
  using assms
  by (cases rule: torrent_step.cases)
    (auto simp: torrent_pauses_quiet(3) dest: torrent_Add_quiet torrent_Select_quiet torrent_pauses_quiet(1,2) monitor_poll_quiet
      torrent_Status_quiet torrent_Seal_quiet torrent_Close_quiet)

lemma start_approved:
  assumes "torrent_reachable ops qops nfc lower c" "torrent_step ops qops nfc lower c c'" "started (tc_backend c') \<noteq> started (tc_backend c)"
  shows "plan_approved c \<and> \<not> tc_closed c \<and> (tc_state c = StateCapacityVerified \<or> tc_state c = StatePaused)"
  using step_starts [OF assms(2,3)] assms(3) torrent_reachable_ok [OF assms(1)]
  by (auto simp: torrent_Start_def tc_ok_def split: if_splits)

end

text \<open>The adapter over a transport that keeps a log of the requests.\<close>

definition logged :: "'d doer \<Rightarrow> (qbit_request list \<times> 'd) doer" where
  "logged doer request s = (case doer request (snd s) of (d, outcome) \<Rightarrow> ((fst s @ [request], d), outcome))"

definition starts :: "qbit_request list \<Rightarrow> nat" where
  "starts log = length (filter (\<lambda>r. qr_endpoint r = ''/api/v2/torrents/start'') log)"

lemma qbit_send_quiet:
  "qbit_send (logged doer) method endpoint body limit s = (s', r) \<Longrightarrow> endpoint \<noteq> ''/api/v2/torrents/start'' \<Longrightarrow> starts (fst s') = starts (fst s)"
  by (auto simp: qbit_send_def logged_def starts_def split: if_splits prod.splits qbit_outcome.splits)

lemma qbit_parts_quiet:
  "qbit_list (logged doer) s = (s', r) \<Longrightarrow> starts (fst s') = starts (fst s)"
  "qbit_form (logged doer) endpoint values s = (s', e) \<Longrightarrow> endpoint \<noteq> ''/api/v2/torrents/start'' \<Longrightarrow> starts (fst s') = starts (fst s)"
  "qbit_Pause (logged doer) h s = (s', e) \<Longrightarrow> starts (fst s') = starts (fst s)"
  by (auto simp: qbit_list_def qbit_form_def qbit_Pause_def qbit_handleForm_def split: if_splits prod.splits sum.splits option.splits dest!: qbit_send_quiet)

lemma qbit_calls_quiet:
  "adopt_added (logged doer) s = (s', r1) \<Longrightarrow> starts (fst s') = starts (fst s)"
  "qbit_Metadata (logged doer) h s = (s', r2) \<Longrightarrow> starts (fst s') = starts (fst s)"
  "qbit_SetSelection (logged doer) h is n s = (s', e) \<Longrightarrow> starts (fst s') = starts (fst s)"
  "qbit_Status (logged doer) h s = (s', r3) \<Longrightarrow> starts (fst s') = starts (fst s)"
  "qbit_Shutdown (logged doer) s = (s', e) \<Longrightarrow> starts (fst s') = starts (fst s)"
proof -
  show "adopt_added (logged doer) s = (s', r1) \<Longrightarrow> starts (fst s') = starts (fst s)"
    by (auto simp: adopt_added_def split: if_splits prod.splits sum.splits option.splits list.splits dest!: qbit_parts_quiet)
  show "qbit_Metadata (logged doer) h s = (s', r2) \<Longrightarrow> starts (fst s') = starts (fst s)"
    by (auto simp: qbit_Metadata_def split: if_splits prod.splits sum.splits list.splits dest!: qbit_parts_quiet(1) qbit_send_quiet)
  show "qbit_SetSelection (logged doer) h is n s = (s', e) \<Longrightarrow> starts (fst s') = starts (fst s)"
    by (auto simp: qbit_SetSelection_def split: if_splits prod.splits option.splits dest!: qbit_parts_quiet(2))
  show "qbit_Status (logged doer) h s = (s', r3) \<Longrightarrow> starts (fst s') = starts (fst s)"
    by (auto simp: qbit_Status_def split: prod.splits sum.splits list.splits dest!: qbit_parts_quiet(1))
  show "qbit_Shutdown (logged doer) s = (s', e) \<Longrightarrow> starts (fst s') = starts (fst s)"
    by (auto simp: qbit_Shutdown_def split: prod.splits sum.splits dest!: qbit_send_quiet)
qed

lemma qbit_add_quiet: "qbit_AddPaused (logged doer) choice ended input s = (s', r) \<Longrightarrow> starts (fst s') = starts (fst s)"
  by (auto simp: qbit_AddPaused_def split: if_splits prod.splits sum.splits list.splits dest!: qbit_parts_quiet(1) qbit_send_quiet qbit_calls_quiet(1))

lemma qbit_verify_quiet: "qbit_VerifyCompleted (logged doer) verifier h m s = (s', r) \<Longrightarrow> starts (fst s') = starts (fst s)"
  by (auto simp: qbit_VerifyCompleted_def split: prod.splits sum.splits dest!: qbit_calls_quiet(4))

interpretation qbit: torrent_client "qbit_backend (logged doer) choice ended verifier" "\<lambda>s. starts (fst s)" for doer choice ended verifier
  by unfold_locales (auto simp: qbit_backend_def dest: qbit_add_quiet qbit_calls_quiet qbit_parts_quiet(3) qbit_verify_quiet)

subsection \<open>A run\<close>

definition demo_choice :: multipart_choice where
  "demo_choice = \<lparr>mc_boundary = replicate 60 (CHR ''b''), mc_order = \<lambda>parts. parts\<rparr>"

definition demo_input :: TorrentInput where
  "demo_input = \<lparr>ti_kind = InputMetainfo, ti_value = Some ''de''\<rparr>"

definition demo_item :: qbitInfo where
  "demo_item = \<lparr>qi_Hash = replicate 40 (CHR ''a''), qi_Name = ''a'', qi_State = ''stoppedDL'', qi_SavePath = [], qi_Downloaded = 0, qi_Size = 5\<rparr>"

text \<open>A program whose world is whether a torrent has been added.\<close>

definition demo_doer :: "bool doer" where
  "demo_doer request added =
     (added \<or> qr_endpoint request = ''/api/v2/torrents/add'',
      QbitResponse \<lparr>qp_status = 200, qp_length = 2, qp_info = Some (if added then [demo_item] else []),
        qp_files = Some [\<lparr>qf_Index = 0, qf_Name = ''a.txt'', qf_Size = 5\<rparr>]\<rparr>)"

abbreviation "demo_qbit \<equiv> qbit_backend (logged demo_doer) demo_choice None (\<lambda>_ _. Inl TOther)"

definition qbit_controller :: "torrent_state \<Rightarrow> string \<Rightarrow> Metadata \<Rightarrow> SelectionPlan \<Rightarrow> TorrentProgress \<Rightarrow> qbit_request list \<times> bool \<Rightarrow>
    (qbit_request list \<times> bool, unit) TorrentController" where
  "qbit_controller state handle metadata plan progress world = \<lparr>tc_backend = world, tc_quarantine = (), tc_config = demo_config, tc_state = state,
     tc_handle = handle, tc_metadata = metadata, tc_plan = plan, tc_progress = progress, tc_manifest = [], tc_clientDown = False, tc_closed = False\<rparr>"

lemma demo_send:
  assumes "has_prefix ''/api/v2/'' endpoint" "2 \<le> limit" "limit \<le> maximumQBitResponse"
  shows "qbit_send (logged demo_doer) method endpoint body limit (log, added) =
    ((log @ [\<lparr>qr_method = method, qr_endpoint = endpoint, qr_body = body\<rparr>], added \<or> endpoint = ''/api/v2/torrents/add''),
     Inr \<lparr>qp_status = 200, qp_length = 2, qp_info = Some (if added then [demo_item] else []),
        qp_files = Some [\<lparr>qf_Index = 0, qf_Name = ''a.txt'', qf_Size = 5\<rparr>]\<rparr>)"
  using assms by (simp add: qbit_send_def logged_def demo_doer_def)

lemma demo_list: "\<exists>log'. qbit_list (logged demo_doer) (log, added) = ((log', added), Inr (if added then [demo_item] else []))"
  by (simp add: qbit_list_def demo_send has_prefix_def maximumQBitResponse_def demo_item_def)

lemma demo_form:
  "has_prefix ''/api/v2/'' endpoint \<Longrightarrow> endpoint \<noteq> ''/api/v2/torrents/add'' \<Longrightarrow>
   qbit_form (logged demo_doer) endpoint values (log, added) = ((log @ [\<lparr>qr_method = ''POST'', qr_endpoint = endpoint, qr_body = Form values\<rparr>], added), None)"
  by (simp add: qbit_form_def demo_send maximumQBitResponse_def)

lemma demo_Pause: "handle_valid h \<Longrightarrow> \<exists>log'. qbit_Pause (logged demo_doer) h (log, added) = ((log', added), None)"
  by (simp add: qbit_Pause_def qbit_handleForm_def demo_form has_prefix_def)

lemma demo_AddPaused: "\<exists>log'. qbit_AddPaused (logged demo_doer) demo_choice None demo_input (log, False) = ((log', True), Inr (replicate 40 (CHR ''a'')))"
proof -
  let ?body = "add_body demo_choice InputMetainfo ''de''"
  have body: "\<not> MaximumMetainfoBytes + 64 * 1024 < length ?body"
    by (simp add: add_body_def multipart_text_def part_text_def source_part_def add_fields_def demo_choice_def form_header_def crlf_def
        MaximumMetainfoBytes_def QuarantineDownloadDir_def)
  obtain l1 where l1: "qbit_list (logged demo_doer) (log, False) = ((l1, False), Inr [])" using demo_list [of log False] by auto
  let ?l2 = "l1 @ [\<lparr>qr_method = ''POST'', qr_endpoint = ''/api/v2/torrents/add'', qr_body = Multipart ?body\<rparr>]"
  obtain l3 where l3: "qbit_list (logged demo_doer) (?l2, True) = ((l3, True), Inr [demo_item])" using demo_list [of ?l2 True] by auto
  obtain l4 where l4: "qbit_Pause (logged demo_doer) (replicate 40 (CHR ''a'')) (l3, True) = ((l4, True), None)" using demo_Pause [OF demo_handle] by blast
  have "adopt_added (logged demo_doer) (?l2, True) = ((l4, True), Inr (replicate 40 (CHR ''a'')))"
    using l4 demo_handle by (simp add: adopt_added_def l3) (simp add: demo_item_def)
  then show ?thesis
    using l1 body by (simp add: qbit_AddPaused_def demo_input_def input_reader_def demo_send has_prefix_def maximumQBitResponse_def)
qed

lemma demo_Metadata: "\<exists>log'. qbit_Metadata (logged demo_doer) (replicate 40 (CHR ''a'')) (log, True) = ((log', True), Inr demo_raw)"
proof -
  obtain l1 where "qbit_list (logged demo_doer) (log, True) = ((l1, True), Inr [demo_item])" using demo_list [of log True] by auto
  moreover have "raw_files [\<lparr>qf_Index = 0, qf_Name = ''a.txt'', qf_Size = 5\<rparr>] = Some (rm_Files demo_raw)" by (simp add: raw_files_def demo_raw_def)
  moreover have "qi_Hash demo_item = replicate 40 (CHR ''a'')" "qi_Downloaded demo_item = 0" "qi_State demo_item = ''stoppedDL''" "qi_Name demo_item = ''a''"
    by (simp_all add: demo_item_def)
  ultimately show ?thesis
    using demo_handle by (simp add: qbit_Metadata_def demo_send has_prefix_def maximumQBitResponse_def MaximumFiles_def) (simp add: demo_raw_def)
qed

lemma demo_SetSelection:
  "length is \<le> 1 \<Longrightarrow> set is \<subseteq> {0} \<Longrightarrow> \<exists>log'. qbit_SetSelection (logged demo_doer) (replicate 40 (CHR ''a'')) is 1 (log, True) = ((log', True), None)"
  using demo_handle by (cases "is") (auto simp: qbit_SetSelection_def MaximumFiles_def demo_form has_prefix_def)

lemma demo_qbit_add:
  "\<exists>log. torrent_Add demo_qbit (\<lambda>s. s) (\<lambda>s. s) [] demo_input (qbit_controller StateEmpty [] no_metadata no_plan no_progress ([], False)) =
     (qbit_controller StateSelectionRequired (replicate 40 (CHR ''a'')) one_file no_plan no_progress (log, True), Inr one_file)"
proof -
  let ?h = "replicate 40 (CHR ''a'')"
  obtain l1 where l1: "qbit_AddPaused (logged demo_doer) demo_choice None demo_input ([], False) = ((l1, True), Inr ?h)" using demo_AddPaused by blast
  obtain l2 where l2: "qbit_Pause (logged demo_doer) ?h (l1, True) = ((l2, True), None)" using demo_Pause [OF demo_handle] by blast
  obtain l3 where l3: "qbit_Metadata (logged demo_doer) ?h (l2, True) = ((l3, True), Inr demo_raw)" using demo_Metadata by blast
  obtain l4 where l4: "qbit_SetSelection (logged demo_doer) ?h [] 1 (l3, True) = ((l4, True), None)" using demo_SetSelection [of "[]"] by auto
  have "rm_PayloadRead demo_raw = 0" "rm_Available demo_raw" "length (md_Files one_file) = 1" by (simp_all add: demo_raw_def one_file_def)
  then show ?thesis
    using demo_handle demo_metadata l1 l2 l3 l4
    by (simp add: torrent_Add_def metadata_loop.simps metadata_poll_def qbit_backend_def qbit_controller_def Let_def)
qed

lemma demo_qbit_run:
  "\<exists>c c'. torrent_reachable demo_qbit demo_quarantine (\<lambda>s. s) (\<lambda>s. s) c \<and> torrent_step demo_qbit demo_quarantine (\<lambda>s. s) (\<lambda>s. s) c c' \<and>
     starts (fst (tc_backend c)) < starts (fst (tc_backend c')) \<and> tc_config c = demo_config"
proof -
  let ?reach = "torrent_reachable demo_qbit demo_quarantine (\<lambda>s. s) (\<lambda>s. s)" and ?h = "replicate 40 (CHR ''a'')"
  obtain m p where p: "PlanSelection one_file [0] ample_evidence (2 ^ 40) True = Inr (m, p)" "md_Files m = mark [0] (md_Files one_file)"
    "sp_SelectedBytes p = 5" using demo_plan by blast
  let ?p0 = "\<lparr>tp_CompletedBytes = 0, tp_TotalBytes = 5\<rparr>"
  have "newTorrentController ([], False) () demo_config = Inr (qbit_controller StateEmpty [] no_metadata no_plan no_progress ([], False))"
    by (simp add: newTorrentController_def default_to_def second_def demo_config_def qbit_controller_def)
  then have "?reach (qbit_controller StateEmpty [] no_metadata no_plan no_progress ([], False))" by (rule reach_new)
  moreover obtain l1 where l1: "torrent_Add demo_qbit (\<lambda>s. s) (\<lambda>s. s) [] demo_input (qbit_controller StateEmpty [] no_metadata no_plan no_progress ([], False)) =
     (qbit_controller StateSelectionRequired ?h one_file no_plan no_progress (l1, True), Inr one_file)" using demo_qbit_add by blast
  ultimately have "?reach (qbit_controller StateSelectionRequired ?h one_file no_plan no_progress (l1, True))" by (blast intro: reach_step step_add)
  moreover obtain l2 where l2: "qbit_SetSelection (logged demo_doer) ?h [0] 1 (l1, True) = ((l2, True), None)" using demo_SetSelection [of "[0]"] by auto
  have "length (md_Files m) = 1" using p(2) by (simp add: one_file_def)
  then have "torrent_Select demo_qbit demo_quarantine [0] ample_evidence (qbit_controller StateSelectionRequired ?h one_file no_plan no_progress (l1, True)) =
      (qbit_controller StateCapacityVerified ?h m p ?p0 (l2, True), Inr (m, p))"
    using p l2 by (simp add: torrent_Select_def qbit_backend_def demo_quarantine_def demo_config_def qbit_controller_def)
  ultimately have reach: "?reach (qbit_controller StateCapacityVerified ?h m p ?p0 (l2, True))" by (blast intro: reach_step step_select)
  let ?c = "qbit_controller StateCapacityVerified ?h m p ?p0 (l2, True)"
  let ?c' = "qbit_controller StateDownloading ?h m p ?p0
    (l2 @ [\<lparr>qr_method = ''POST'', qr_endpoint = ''/api/v2/torrents/start'', qr_body = Form [(''hashes'', ?h)]\<rparr>], True)"
  have "torrent_Start demo_qbit ?c = (?c', None)"
    using p(3) demo_handle by (simp add: torrent_Start_def qbit_backend_def qbit_Start_def qbit_handleForm_def demo_form has_prefix_def qbit_controller_def)
  moreover have "starts (fst (tc_backend ?c)) < starts (fst (tc_backend ?c'))" "tc_config ?c = demo_config" by (simp_all add: starts_def qbit_controller_def)
  ultimately show ?thesis using reach step_start by blast
qed

text \<open>C16: payload is asked for only under an approved plan.  Over any transport and any client program behind it, in every
  run of the controller with the Web API adapter: a step in which a start request goes out is made with the
  controller open, in the verified or the paused state, and its metadata and plan are those of a selection that
  \<^verbatim>\<open>planSelection\<close> accepted, so that it fits every stage and holds no blocked type under the safe policy.
\<close>

theorem payload_start_approved:
  assumes "torrent_reachable (qbit_backend (logged doer) choice ended verifier) qops nfc lower c"
    and "torrent_step (qbit_backend (logged doer) choice ended verifier) qops nfc lower c c'"
    and "starts (fst (tc_backend c)) < starts (fst (tc_backend c'))"
  shows "\<not> tc_closed c \<and> (tc_state c = StateCapacityVerified \<or> tc_state c = StatePaused) \<and>
    (\<exists>m is b. planSelection m is b (tg_SafePolicy (tc_config c)) = Inr (tc_metadata c, tc_plan c) \<and>
       selection_ok m is b (tg_SafePolicy (tc_config c)))"
proof -
  have "plan_approved c" "\<not> tc_closed c" "tc_state c = StateCapacityVerified \<or> tc_state c = StatePaused"
    using qbit.start_approved [OF assms(1,2)] assms(3) by simp_all
  then show ?thesis unfolding plan_approved_def using planSelection_Inr by blast
qed

theorem payload_start_approved_witness:
  "\<exists>c c'. torrent_reachable demo_qbit demo_quarantine (\<lambda>s. s) (\<lambda>s. s) c \<and> torrent_step demo_qbit demo_quarantine (\<lambda>s. s) (\<lambda>s. s) c c' \<and>
     starts (fst (tc_backend c)) < starts (fst (tc_backend c')) \<and> \<not> tc_closed c \<and> (\<exists>m is b. selection_ok m is b True)"
proof -
  obtain c c' where run: "torrent_reachable demo_qbit demo_quarantine (\<lambda>s. s) (\<lambda>s. s) c"
    "torrent_step demo_qbit demo_quarantine (\<lambda>s. s) (\<lambda>s. s) c c'" "starts (fst (tc_backend c)) < starts (fst (tc_backend c'))" "tc_config c = demo_config"
    using demo_qbit_run by blast
  then show ?thesis using payload_start_approved [OF run(1-3)] by (fastforce simp: demo_config_def)
qed

end
