(* ===== verification/Torrent_Quarantine.thy ===== *)
theory Torrent_Quarantine
  imports Torrent_Input
begin

text \<open>
  The guest's owner of the quarantine filesystem, \<^verbatim>\<open>internal/torrent/quarantine.go\<close>, and its Linux backend,
  \<^verbatim>\<open>quarantine_linux.go\<close>, over a kernel whose calls are a parameter: what mount inventory, device bytes and
  sysfs attributes it shows and what its calls return and change.
\<close>

section \<open>The owner\<close>

record 'k quarantineBackend =
  qb_Mounted :: "'k \<Rightarrow> 'k \<times> (torrent_error + bool)"
  qb_PrepareFilesystem :: "'k \<Rightarrow> 'k \<times> torrent_error option"
  qb_Mount :: "'k \<Rightarrow> 'k \<times> torrent_error option"
  qb_PrepareDirectories :: "'k \<Rightarrow> 'k \<times> torrent_error option"
  qb_Sync :: "'k \<Rightarrow> 'k \<times> torrent_error option"
  qb_Unmount :: "'k \<Rightarrow> 'k \<times> torrent_error option"
  qb_AuditAbsent :: "'k \<Rightarrow> 'k \<times> torrent_error option"
  qb_CapacityBytes :: "'k \<Rightarrow> 'k \<times> (torrent_error + u64)"
  qb_Close :: "'k \<Rightarrow> 'k \<times> torrent_error option"

record 'k QuarantineOwner =
  qo_backend :: 'k
  qo_mounted :: bool
  qo_closed :: bool

text \<open>\<open>ended k\<close> is the context's error at the call's \<open>k\<close>-th look at it.\<close>

definition owner_CapacityBytes :: "'k quarantineBackend \<Rightarrow> (nat \<Rightarrow> torrent_error option) \<Rightarrow> 'k QuarantineOwner \<Rightarrow>
    'k QuarantineOwner \<times> (torrent_error + u64)" where
  "owner_CapacityBytes ops ended owner =
     (case ended 0 of Some e \<Rightarrow> (owner, Inl e)
      | None \<Rightarrow>
         if qo_closed owner \<or> \<not> qo_mounted owner then (owner, Inl TInvalidRequest)
         else case qb_CapacityBytes ops (qo_backend owner) of
            (k, Inl e) \<Rightarrow> (owner\<lparr>qo_backend := k\<rparr>, Inl e)
          | (k, Inr capacity) \<Rightarrow> (owner\<lparr>qo_backend := k\<rparr>, case ended 1 of Some e \<Rightarrow> Inl e | None \<Rightarrow> Inr capacity))"

text \<open>The second half of \<^verbatim>\<open>Prepare\<close>, with the filesystem mounted.\<close>

definition prepare_mounted :: "'k quarantineBackend \<Rightarrow> (nat \<Rightarrow> torrent_error option) \<Rightarrow> 'k QuarantineOwner \<Rightarrow> 'k QuarantineOwner \<times> torrent_error option" where
  "prepare_mounted ops ended owner =
     (case qb_PrepareDirectories ops (qo_backend owner) of (k, prepared) \<Rightarrow>
        if prepared = None \<and> ended 0 = None then (owner\<lparr>qo_backend := k\<rparr>, None)
        else case qb_Unmount ops k of (k, unmounted) \<Rightarrow>
          (case qb_AuditAbsent ops k of (k, absent) \<Rightarrow>
             if unmounted \<noteq> None \<or> absent \<noteq> None then (owner\<lparr>qo_backend := k, qo_mounted := True\<rparr>, Some TOther)
             else (owner\<lparr>qo_backend := k, qo_mounted := False\<rparr>, Some (case ended 1 of Some e \<Rightarrow> e | None \<Rightarrow> TOther))))"

definition owner_Prepare :: "'k quarantineBackend \<Rightarrow> (nat \<Rightarrow> torrent_error option) \<Rightarrow> 'k QuarantineOwner \<Rightarrow> 'k QuarantineOwner \<times> torrent_error option" where
  "owner_Prepare ops ended owner =
     (if qo_closed owner then (owner, Some TInvalidRequest)
      else if qo_mounted owner then (owner, None)
      else case qb_Mounted ops (qo_backend owner) of
         (k, Inl e) \<Rightarrow> (owner\<lparr>qo_backend := k\<rparr>, Some TOther)
       | (k, Inr True) \<Rightarrow> prepare_mounted ops ended (owner\<lparr>qo_backend := k, qo_mounted := True\<rparr>)
       | (k, Inr False) \<Rightarrow>
          (case qb_PrepareFilesystem ops k of
             (k, Some e) \<Rightarrow> (owner\<lparr>qo_backend := k\<rparr>, Some TOther)
           | (k, None) \<Rightarrow>
              (case qb_Mount ops k of
                 (k, Some e) \<Rightarrow> (owner\<lparr>qo_backend := k\<rparr>, Some e)
               | (k, None) \<Rightarrow> prepare_mounted ops ended (owner\<lparr>qo_backend := k, qo_mounted := True\<rparr>))))"

definition owner_SyncAndUnmount :: "'k quarantineBackend \<Rightarrow> 'k QuarantineOwner \<Rightarrow> 'k QuarantineOwner \<times> torrent_error option" where
  "owner_SyncAndUnmount ops owner =
     (if \<not> qo_mounted owner
      then (case qb_AuditAbsent ops (qo_backend owner) of (k, r) \<Rightarrow> (owner\<lparr>qo_backend := k\<rparr>, r))
      else case qb_Sync ops (qo_backend owner) of
         (k, Some e) \<Rightarrow> (owner\<lparr>qo_backend := k\<rparr>, Some TOther)
       | (k, None) \<Rightarrow>
          (case qb_Unmount ops k of
             (k, Some e) \<Rightarrow> (owner\<lparr>qo_backend := k\<rparr>, Some TOther)
           | (k, None) \<Rightarrow>
              (case qb_AuditAbsent ops k of
                 (k, Some e) \<Rightarrow> (owner\<lparr>qo_backend := k\<rparr>, Some TOther)
               | (k, None) \<Rightarrow> (owner\<lparr>qo_backend := k, qo_mounted := False\<rparr>, None))))"

definition owner_Close :: "'k quarantineBackend \<Rightarrow> 'k QuarantineOwner \<Rightarrow> 'k QuarantineOwner \<times> torrent_error option" where
  "owner_Close ops owner =
     (case owner_SyncAndUnmount ops owner of
        (owner, Some e) \<Rightarrow> (owner, Some e)
      | (owner, None) \<Rightarrow>
         if qo_closed owner then (owner, None)
         else (case qb_Close ops (qo_backend owner) of
             (k, Some e) \<Rightarrow> (owner\<lparr>qo_backend := k\<rparr>, Some TOther)
           | (k, None) \<Rightarrow> (owner\<lparr>qo_backend := k, qo_closed := True\<rparr>, None)))"

definition owner_quarantine :: "'k quarantineBackend \<Rightarrow> (nat \<Rightarrow> torrent_error option) \<Rightarrow> 'k QuarantineOwner Quarantine" where
  "owner_quarantine ops ended = \<lparr>qu_CapacityBytes = owner_CapacityBytes ops ended, qu_SyncAndUnmount = owner_SyncAndUnmount ops\<rparr>"

section \<open>What the kernel shows\<close>

definition mount_options_ok :: "string \<Rightarrow> bool" where
  "mount_options_ok options \<longleftrightarrow> list_all (\<lambda>x. x \<in> set (split_at (CHR '','') options)) [''rw'', ''nosuid'', ''nodev'', ''noexec'']"

text \<open>
  One line of the inventory.  An option is present between two commas exactly when it is an element of the list the
  commas separate.  \<open>None\<close>: the line says nothing and the scan goes on.
\<close>

definition mount_line :: "string \<Rightarrow> string \<Rightarrow> string list \<Rightarrow> (torrent_error + bool) option" where
  "mount_line device mountPath cols =
     (if length cols < 10 then None
      else
        let deviceMatches = (cols ! 2 = device); targetMatches = (cols ! 4 = mountPath) in
        if targetMatches \<and> \<not> deviceMatches
        then (if cols ! 3 = mountPath \<and> ''rw'' \<in> set (split_at (CHR '','') (cols ! 5)) then None else Some (Inl TOther))
        else if deviceMatches \<and> \<not> targetMatches then Some (Inl TOther)
        else if \<not> deviceMatches then None
        else
          let separator = length (takeWhile (\<lambda>c. c \<noteq> ''-'') cols) in
          if separator = length cols \<or> separator < 6 \<or> length cols \<le> separator + 3 \<or> cols ! (separator + 1) \<noteq> ''ext4'' then Some (Inl TOther)
          else if \<not> mount_options_ok (cols ! 5) then Some (Inl TOther)
          else Some (Inr True))"

fun scan_mounts :: "string \<Rightarrow> string \<Rightarrow> string list \<Rightarrow> torrent_error + bool" where
  "scan_mounts device mountPath [] = Inr False"
| "scan_mounts device mountPath (line # rest) =
     (case mount_line device mountPath (text_fields line) of Some r \<Rightarrow> r | None \<Rightarrow> scan_mounts device mountPath rest)"

definition device_text :: "u32 \<Rightarrow> u32 \<Rightarrow> string" where
  "device_text major minor = show_base 10 (unat major) @ '':'' @ show_base 10 (unat minor)"

definition parseQuarantineMountEvidence :: "string \<Rightarrow> u32 \<Rightarrow> u32 \<Rightarrow> string \<Rightarrow> torrent_error + bool" where
  "parseQuarantineMountEvidence raw major minor mountPath = scan_mounts (device_text major minor) mountPath (split_at line_break raw)"

datatype quarantineFormatState = quarantineBlank | quarantineExt4

text \<open>The first bytes of the device, at most 4096 of them; the rest of the buffer is zero.\<close>

definition inspectQuarantineFormat :: "u8 list option \<Rightarrow> torrent_error + quarantineFormatState" where
  "inspectQuarantineFormat block =
     (case block of None \<Rightarrow> Inl TOther
      | Some bytes \<Rightarrow>
         if length bytes < 2048 then Inl TOther
         else if bytes ! 1080 = 0x53 \<and> bytes ! 1081 = 0xef then Inr quarantineExt4
         else if list_ex (\<lambda>b. b \<noteq> 0) bytes then Inl TOther
         else Inr quarantineBlank)"

definition quarantineSysfsAttributePaths :: "u32 \<Rightarrow> u32 \<Rightarrow> string \<times> string \<times> string" where
  "quarantineSysfsAttributePaths major minor =
     (let root = ''/sys/dev/block/'' @ device_text major minor in (root @ ''/serial'', root @ ''/ro'', root @ ''/size''))"

text \<open>\<open>file path\<close> is what reading a file to its end gives; \<^verbatim>\<open>readSmallFile\<close> bounds it.\<close>

definition readSmallFile :: "(string \<Rightarrow> string option) \<Rightarrow> string \<Rightarrow> nat \<Rightarrow> string option" where
  "readSmallFile content path maximum =
     (case content path of None \<Rightarrow> None | Some value \<Rightarrow> if maximum < length value then None else Some value)"

definition verifySysfsIdentity :: "(string \<Rightarrow> string option) \<Rightarrow> u32 \<Rightarrow> u32 \<Rightarrow> torrent_error option" where
  "verifySysfsIdentity content major minor =
     (case quarantineSysfsAttributePaths major minor of (serialPath, readOnlyPath, capacityPath) \<Rightarrow>
        if map_option TrimSpace (readSmallFile content serialPath 64) \<noteq> Some ''quarantine'' then Some TOther
        else if map_option TrimSpace (readSmallFile content readOnlyPath 8) \<noteq> Some ''0'' then Some TOther
        else case readSmallFile content capacityPath 32 of None \<Rightarrow> Some TOther
         | Some sectors \<Rightarrow> (case ParseUint 64 (TrimSpace sectors) of None \<Rightarrow> Some TOther
            | Some count \<Rightarrow> if count < 16384 then Some TOther else None))"

section \<open>The Linux backend\<close>

text \<open>The calls into the kernel; a boolean result says whether the call succeeded.\<close>

record 'k quarantine_kernel =
  kn_mountinfo :: "'k \<Rightarrow> string option"
  kn_block :: "'k \<Rightarrow> u8 list option"
  kn_mkfs :: "'k \<Rightarrow> 'k \<times> bool"
  kn_target :: "'k \<Rightarrow> bool"
  kn_mount :: "'k \<Rightarrow> 'k \<times> bool"
  kn_unmount :: "'k \<Rightarrow> 'k \<times> bool"
  kn_directories :: "'k \<Rightarrow> 'k \<times> torrent_error option"
  kn_syncfs :: "'k \<Rightarrow> 'k \<times> bool"
  kn_statfs :: "'k \<Rightarrow> (int \<times> u64) option"
  kn_close :: "'k \<Rightarrow> 'k \<times> bool"

record linuxQuarantineBackend =
  lq_major :: u32
  lq_minor :: u32
  lq_mountPath :: string

definition maximumMountInfo :: nat where "maximumMountInfo = 256 * 1024"

definition mountEvidence :: "'k quarantine_kernel \<Rightarrow> linuxQuarantineBackend \<Rightarrow> 'k \<Rightarrow> torrent_error + bool" where
  "mountEvidence kn b k =
     (case readSmallFile (\<lambda>_. kn_mountinfo kn k) ''/proc/self/mountinfo'' maximumMountInfo of None \<Rightarrow> Inl TOther
      | Some raw \<Rightarrow> parseQuarantineMountEvidence raw (lq_major b) (lq_minor b) (lq_mountPath b))"

definition linux_PrepareFilesystem :: "'k quarantine_kernel \<Rightarrow> (nat \<Rightarrow> torrent_error option) \<Rightarrow> 'k \<Rightarrow> 'k \<times> torrent_error option" where
  "linux_PrepareFilesystem kn ended k =
     (case ended 0 of Some e \<Rightarrow> (k, Some e)
      | None \<Rightarrow>
         (case inspectQuarantineFormat (kn_block kn k) of Inl e \<Rightarrow> (k, Some e)
          | Inr quarantineExt4 \<Rightarrow> (k, None)
          | Inr quarantineBlank \<Rightarrow>
             (case kn_mkfs kn k of
                (k, False) \<Rightarrow> (k, Some (case ended 1 of Some e \<Rightarrow> e | None \<Rightarrow> TOther))
              | (k, True) \<Rightarrow> (k, if inspectQuarantineFormat (kn_block kn k) = Inr quarantineExt4 then None else Some TOther))))"

definition linux_Mount :: "'k quarantine_kernel \<Rightarrow> (nat \<Rightarrow> torrent_error option) \<Rightarrow> linuxQuarantineBackend \<Rightarrow> 'k \<Rightarrow> 'k \<times> torrent_error option" where
  "linux_Mount kn ended b k =
     (case ended 0 of Some e \<Rightarrow> (k, Some e)
      | None \<Rightarrow>
         if \<not> kn_target kn k then (k, Some TOther)
         else (case kn_mount kn k of
             (k, False) \<Rightarrow> (k, Some TOther)
           | (k, True) \<Rightarrow> if mountEvidence kn b k = Inr True then (k, None) else (fst (kn_unmount kn k), Some TOther)))"

definition linux_Sync :: "'k quarantine_kernel \<Rightarrow> (nat \<Rightarrow> torrent_error option) \<Rightarrow> 'k \<Rightarrow> 'k \<times> torrent_error option" where
  "linux_Sync kn ended k =
     (case ended 0 of Some e \<Rightarrow> (k, Some e)
      | None \<Rightarrow> (case kn_syncfs kn k of (k, r) \<Rightarrow> (k, if r then None else Some TOther)))"

definition linux_Unmount :: "'k quarantine_kernel \<Rightarrow> (nat \<Rightarrow> torrent_error option) \<Rightarrow> linuxQuarantineBackend \<Rightarrow> 'k \<Rightarrow> 'k \<times> torrent_error option" where
  "linux_Unmount kn ended b k =
     (case ended 0 of Some e \<Rightarrow> (k, Some e)
      | None \<Rightarrow>
         (case mountEvidence kn b k of Inl e \<Rightarrow> (k, Some e) | Inr False \<Rightarrow> (k, None)
          | Inr True \<Rightarrow> (case kn_unmount kn k of (k, r) \<Rightarrow> (k, if r then None else Some TOther))))"

definition linux_AuditAbsent :: "'k quarantine_kernel \<Rightarrow> linuxQuarantineBackend \<Rightarrow> 'k \<Rightarrow> 'k \<times> torrent_error option" where
  "linux_AuditAbsent kn b k = (k, case mountEvidence kn b k of Inl e \<Rightarrow> Some e | Inr mounted \<Rightarrow> if mounted then Some TOther else None)"

definition linux_CapacityBytes :: "'k quarantine_kernel \<Rightarrow> 'k \<Rightarrow> 'k \<times> (torrent_error + u64)" where
  "linux_CapacityBytes kn k =
     (k, case kn_statfs kn k of None \<Rightarrow> Inl TOther
       | Some (bsize, bavail) \<Rightarrow>
          if bsize \<le> 0 then Inl TOther
          else let blockSize = of_int bsize in if (- 1) div blockSize < bavail then Inl TOther else Inr (bavail * blockSize))"

definition linux_quarantine :: "'k quarantine_kernel \<Rightarrow> (nat \<Rightarrow> torrent_error option) \<Rightarrow> linuxQuarantineBackend \<Rightarrow> 'k quarantineBackend" where
  "linux_quarantine kn ended b =
     \<lparr>qb_Mounted = \<lambda>k. (k, mountEvidence kn b k), qb_PrepareFilesystem = linux_PrepareFilesystem kn ended, qb_Mount = linux_Mount kn ended b,
      qb_PrepareDirectories = \<lambda>k. (case ended 0 of Some e \<Rightarrow> (k, Some e) | None \<Rightarrow> kn_directories kn k),
      qb_Sync = linux_Sync kn ended, qb_Unmount = linux_Unmount kn ended b, qb_AuditAbsent = linux_AuditAbsent kn b,
      qb_CapacityBytes = linux_CapacityBytes kn,
      qb_Close = \<lambda>k. (case kn_close kn k of (k, r) \<Rightarrow> (k, if r then None else Some TOther))\<rparr>"

section \<open>Unmounting is audited\<close>

text \<open>A device whose audit succeeds only when the mount is gone.\<close>

locale quarantine_device =
  fixes ops :: "'k quarantineBackend" and live :: "'k \<Rightarrow> bool"
  assumes audit_absent: "\<And>k k'. qb_AuditAbsent ops k = (k', None) \<Longrightarrow> \<not> live k'"
    and mounted_evidence: "\<And>k k'. qb_Mounted ops k = (k', Inr True) \<Longrightarrow> live k'"
    and mount_live: "\<And>k k'. qb_Mount ops k = (k', None) \<Longrightarrow> live k'"
begin

lemma unmounted: "owner_SyncAndUnmount ops owner = (owner', None) \<Longrightarrow> \<not> live (qo_backend owner') \<and> \<not> qo_mounted owner'"
  by (auto simp: owner_SyncAndUnmount_def split: if_splits prod.splits option.splits dest: audit_absent)

lemma closed_unmounted:
  assumes "owner_Close ops owner = (owner', None)" "\<And>k k'. qb_Close ops k = (k', None) \<Longrightarrow> live k' = live k"
  shows "\<not> live (qo_backend owner') \<and> \<not> qo_mounted owner' \<and> qo_closed owner'"
proof -
  obtain o1 where o1: "owner_SyncAndUnmount ops owner = (o1, None)"
    using assms(1) by (auto simp: owner_Close_def split: prod.splits option.splits)
  then show ?thesis using unmounted [OF o1] assms by (auto simp: owner_Close_def split: if_splits prod.splits option.splits)
qed

lemma sealed_unmounted:
  assumes "torrent_Seal bops (owner_quarantine ops ended) lower c = (c', Inr files)"
  shows "\<not> live (qo_backend (tc_quarantine c')) \<and> \<not> qo_mounted (tc_quarantine c')"
proof -
  obtain w q where "owner_SyncAndUnmount ops w = (q, None)" "tc_quarantine c' = q"
    using assms by (auto simp: torrent_Seal_def owner_quarantine_def split: if_splits prod.splits option.splits)
  then show ?thesis using unmounted by blast
qed

text \<open>The directories are prepared on a live mount only.\<close>

lemma prepared_on_live:
  assumes "owner_Prepare ops ended owner = (owner', None)" "\<not> qo_mounted owner"
  shows "\<exists>o1. live (qo_backend o1) \<and> qo_mounted o1 \<and> prepare_mounted ops ended o1 = (owner', None)"
proof -
  have "\<exists>k. live k \<and> prepare_mounted ops ended (owner\<lparr>qo_backend := k, qo_mounted := True\<rparr>) = (owner', None)"
    using assms by (auto simp: owner_Prepare_def split: if_splits prod.splits sum.splits option.splits bool.splits dest: mounted_evidence mount_live)
  then obtain k where "live k" "prepare_mounted ops ended (owner\<lparr>qo_backend := k, qo_mounted := True\<rparr>) = (owner', None)" by blast
  then show ?thesis by (intro exI [of _ "owner\<lparr>qo_backend := k, qo_mounted := True\<rparr>"]) simp
qed

text \<open>A failed preparation that could not take the mount down keeps it owned.\<close>

lemma prepare_keeps_ownership:
  "prepare_mounted ops ended owner = (owner', r) \<Longrightarrow> live (qo_backend owner') \<Longrightarrow> qo_mounted owner \<Longrightarrow> qo_mounted owner'"
  by (auto simp: prepare_mounted_def split: if_splits prod.splits dest: audit_absent)

end

interpretation virtio: quarantine_device "linux_quarantine kn ended b" "\<lambda>k. mountEvidence kn b k = Inr True" for kn ended b
proof
  show "mountEvidence kn b k' \<noteq> Inr True" if "qb_AuditAbsent (linux_quarantine kn ended b) k = (k', None)" for k k'
    using that by (auto simp: linux_quarantine_def linux_AuditAbsent_def split: sum.splits if_splits)
  show "mountEvidence kn b k' = Inr True" if "qb_Mounted (linux_quarantine kn ended b) k = (k', Inr True)" for k k'
    using that by (auto simp: linux_quarantine_def)
  show "mountEvidence kn b k' = Inr True" if "qb_Mount (linux_quarantine kn ended b) k = (k', None)" for k k'
    using that by (auto simp: linux_quarantine_def linux_Mount_def split: option.splits if_splits prod.splits bool.splits)
qed

text \<open>A sealed download has left the mount inventory, on the kernel's own evidence.\<close>

lemma seal_leaves_no_mount:
  assumes "torrent_Seal bops (owner_quarantine (linux_quarantine kn ended b) ended') lower c = (c', Inr files)"
  shows "mountEvidence kn b (qo_backend (tc_quarantine c')) \<noteq> Inr True"
  using virtio.sealed_unmounted [OF assms] by blast

section \<open>Evidence\<close>

text \<open>A positive answer means a line for the device at the mount point, as ext4 and with the four options.\<close>

lemma evidence_positive:
  assumes "parseQuarantineMountEvidence raw major minor mountPath = Inr True"
  shows "\<exists>line \<in> set (split_at line_break raw). let cols = text_fields line in
    10 \<le> length cols \<and> cols ! 2 = device_text major minor \<and> cols ! 4 = mountPath \<and> mount_options_ok (cols ! 5)"
proof -
  have "\<exists>line \<in> set ls. let cols = text_fields line in 10 \<le> length cols \<and> cols ! 2 = device \<and> cols ! 4 = mountPath \<and> mount_options_ok (cols ! 5)"
    if "scan_mounts device mountPath ls = Inr True" for device ls
    using that
  proof (induction ls)
    case (Cons l ls)
    show ?case
    proof (cases "mount_line device mountPath (text_fields l)")
      case (Some r)
      then have "mount_line device mountPath (text_fields l) = Some (Inr True)" using Cons.prems by simp
      then show ?thesis by (auto simp: mount_line_def Let_def split: if_splits)
    qed (use Cons in auto)
  qed simp
  then show ?thesis using assms by (simp add: parseQuarantineMountEvidence_def)
qed

text \<open>The free space is the exact product of the two figures, never its remainder.\<close>

lemma capacity_exact:
  assumes "linux_CapacityBytes kn k = (k', Inr n)" "kn_statfs kn k = Some (bsize, bavail)" "bsize < 2 ^ 63"
  shows "int (unat n) = bsize * int (unat bavail)"
proof -
  let ?b = "of_int bsize :: u64"
  have pos: "0 < bsize" and fit: "\<not> (- 1) div ?b < bavail" and n: "n = bavail * ?b"
    using assms(1,2) by (auto simp: linux_CapacityBytes_def Let_def split: if_splits)
  have b: "int (unat ?b) = bsize" using pos assms(3) by (simp add: unat_eq_nat_uint uint_word_of_int)
  have "unat bavail \<le> unat ((- 1) div ?b)" using fit by (simp add: not_less word_le_nat_alt)
  also have "\<dots> = (2 ^ 64 - 1) div unat ?b" by (simp only: unat_div) (simp add: unsigned_minus_1_eq_mask mask_eq_exp_minus_1)
  finally have "unat bavail * unat ?b \<le> 2 ^ 64 - 1" using b pos
    by (meson div_times_less_eq_dividend le_trans mult_le_mono1)
  then have "unat n = unat bavail * unat ?b" unfolding n by (simp add: unat_word_ariths)
  then show ?thesis using b by (simp add: mult.commute)
qed

end
