(* ===== verification/Spec2Isabelle.thy ===== *)
theory Spec2Isabelle
  imports Session_Cleanup Session_Resources Storage_Images Guest_CID Guest_Handshake VPN_Store Host_Network Guest_Network Guest_Server Torrent_QBit Torrent_Quarantine
begin

text \<open>
  \<^bold>\<open>A verification library for private-vm.\<close>

  private-vm runs short-lived virtual machines for one task each: downloading over a VPN, scanning, exporting, a
  workstation.  A root daemon on the host owns the sessions and everything they hold; each guest runs an agent that
  configures its own network and does the work.  This library models the parts below, file by file, and proves what
  makes them correct.  Definitions keep the names of the source where Isabelle allows it.

  \<^bold>\<open>How the parts interact.\<close>  A client creates a session; the session manager gives it an actor, and every
  change is a transition that is written to the volatile store before it is visible.  Resources (capacity, image leases,
  guest context identifiers) register a destroy and an audit function with the actor, which runs them in reverse order
  when the session is cleaned up.  The host boots a guest with a capability token and authenticates it by a handshake.
  It imports a VPN profile, resolves its endpoint, makes a network that admits only that endpoint, and delivers the profile to the guest, where the controller arms a
  kill switch, raises the tunnel, verifies it and only then starts the torrent client.  The torrent controller
  admits metadata, an explicit selection and a start, and seals the quarantine with a manifest of digests.

  \<^bold>\<open>Sessions\<close> (\<^verbatim>\<open>src/internal/session\<close>).  \<open>Session_Model\<close> is \<^verbatim>\<open>model.go\<close>: roles, phases, workflow tables, the record \<open>session\<close>
  with its journal, and the checker of a reloaded snapshot.  \<open>Session_Journal\<close> proves that the checker accepts exactly the
  sessions the transitions reach, that phases only move forward and that sensitive states come after their gates.
  \<open>Session_Store\<close> is \<^verbatim>\<open>store.go\<close> over a file system in which every system call may fail; it has the contract
  \<open>journal_store\<close>, atomicity of a save and the save/load round trip.  \<open>Session_Manager\<close> is \<^verbatim>\<open>manager.go\<close>: entries,
  commands, subscribers, quota and the cleanup loop.  \<open>Session_Actor\<close>, \<open>Session_Safety\<close> and \<open>Session_Cleanup\<close> prove the
  invariant of the whole manager over a step relation of all interleavings, ownership, transactional transitions, gap-free
  subscriptions, the order and resumption of cleanup, and its convergence on a store that works.

  \<^bold>\<open>Resources.\<close>  \<open>Resource_Contract\<close> is the contract \<open>cleanup_resource\<close> between the actor and a provider.
  \<open>Storage_Capacity\<close> (\<^verbatim>\<open>storage/planner.go\<close>) and \<open>Storage_Images\<close> (\<^verbatim>\<open>image_registry.go\<close>) interpret it;
  \<open>Session_Resources\<close> composes it with the actor's loop.  \<open>Guest_CID\<close> is the identifier allocator.  The planner's 64-bit
  sums are words and are proved equal to a specification over the naturals.

  \<^bold>\<open>Boot\<close> (\<^verbatim>\<open>src/internal/guest\<close>).  \<open>Base64\<close>, \<open>Guest_Token\<close> and \<open>Guest_Handshake\<close> hold the capability header, the
  capability sets and both sides of the handshake, which succeeds exactly when the two sides agree.

  \<^bold>\<open>VPN on the host\<close> (\<^verbatim>\<open>src/internal/vpn\<close>).  \<open>Net_IP\<close> models the address texts and prefixes of \<^verbatim>\<open>net/netip\<close>.
  \<open>VPN_Profile\<close> is the parser, renderer and resolver; \<open>VPN_Delivery\<close> proves the parsed invariant and that the delivered text
  reads back as the profile.  \<open>VPN_Store\<close> is the owner-keyed store, with resolution split at the point where it releases
  its lock.

  \<^bold>\<open>Network on the host\<close> (\<^verbatim>\<open>src/internal/network\<close>).  \<open>Host_Policy\<close> is \<^verbatim>\<open>model.go\<close> and \<^verbatim>\<open>policy.go\<close>: the topology of a slot, the endpoint
  policy, and the packet programs of the namespace and the host as data, with the text that is loaded and the semantics of
  a hook.  \<open>Host_Manager\<close> is \<^verbatim>\<open>manager.go\<close> over any backend, with the invariant of its maps under every interleaving;
  \<open>Host_Backend\<close> the Linux commands, listings and the audit of the live tables; \<open>Host_Network\<close> composes them with the profile
  store: a guest reaches exactly the resolved endpoints, sessions never share a network, and a failed creation leaves nothing.
  In its step relation a cleanup finds its state and runs in one step; \<open>stale_cleanup_frees_slot\<close> shows what happens otherwise.

  \<^bold>\<open>Network in the guest\<close> (\<^verbatim>\<open>src/internal/guestvpn\<close>, \<^verbatim>\<open>guest/downloader_vpn.go\<close>).  \<open>Guest_VPN\<close> has the rule and command
  texts and the packet semantics of the kill switch; \<open>Guest_Backend\<close> the command backend with its contract \<open>vpn_backend\<close>;
  \<open>Guest_Probes\<close> the resolver adapter and probes; \<open>Qbit_Service\<close> the owner of the client process; \<open>Guest_Controller\<close> the state
  machine, proved to fail closed in the locale \<open>fail_closed\<close>; \<open>Guest_Network\<close> the composition; \<open>Guest_Server\<close> the service
  and its wire forms.

  \<^bold>\<open>Torrents\<close> (\<^verbatim>\<open>src/internal/torrent\<close>, \<^verbatim>\<open>guest/downloader_torrent.go\<close>).  \<open>Torrent_Plan\<close> checks metadata and plans the
  space of a selection; \<open>Torrent_Controller\<close> is the workflow over an arbitrary client; \<open>Torrent_Input\<close> the protected source
  and the service; \<open>Torrent_QBit\<close> the Web API adapter and the verifier, with the contract \<open>torrent_client\<close>;
  \<open>Torrent_Quarantine\<close> the quarantine filesystem with the contract \<open>quarantine_device\<close>.

  \<^bold>\<open>Conventions.\<close>  \<open>Prelude\<close> has the shared types and lemmas.  A struct is a record with prefixed fields, a pointer
  that outlives its map entry is an index into a list, \<^verbatim>\<open>(value, error)\<close> is a sum or a pair with an optional error, unsigned
  integers are words of their width.  Maps are association lists or partial functions.  A mutex makes the code it
  protects one step; what happens between two steps is in the step relations.  Time is a natural number and the clock
  may jump.  A context is a Boolean or an optional error for each place where the code looks at it.  External programs,
  the kernel, SHA-256 and the transport are parameters: function fields of a record or arguments, with any laws
  they need as locale assumptions, discharged by interpretations on the definitions of this library.

  \<^bold>\<open>Bounds.\<close>  No definition uses fuel.  Loops over data are structural; a loop that polls until its context ends
  recurses over the list of outcomes it meets before that, so a statement for all such lists covers runs of every length.
  Capacities, quotas and limits are the constants of the source.

  \<^bold>\<open>Not modelled.\<close>  The JSON encoding of records and replies (a stored value is the record itself), gRPC status codes,
  log output and the clearing of secret buffers.  Left out as a whole: the command line, the daemon's handlers and the
  orchestration of live guests, QEMU processes, encrypted and volatile storage, USB, the image supply chain, the scanner
  engine and its services, crash recovery, configuration files, installation, release tools and the entry points.  Most of
  that code drives other processes, the kernel or vendored libraries, or renders text; parts of it that decide something,
  such as the policy of the scanner or the reconciliation after a crash, could be added in the same style.
\<close>

end
